theory Spec2Isabelle
  imports
    Complex_Main
    "HOL-Library.AList"
    "HOL-Library.Char_ord"
    "HOL-Library.List_Lexorder"
    "HOL-Library.Product_Lexorder"
    "HOL-Library.Sublist"
begin

section \<open>Python built-ins the program calls\<close>

text \<open>
  Strings are byte strings; the built-ins below are Python's on ASCII text.
  Python's \<^verbatim>\<open>float\<close> is modelled by the rational number it denotes: rounding of
  binary64 arithmetic is outside this model. \<^verbatim>\<open>sleep\<close> has no effect on the
  program's data and is left out.
\<close>

definition isspace :: "char \<Rightarrow> bool" where
  "isspace c = (let n = (of_char c :: nat) in (9 \<le> n \<and> n \<le> 13) \<or> (28 \<le> n \<and> n \<le> 32))"

definition strip :: "string \<Rightarrow> string" where
  "strip s = rev (dropWhile isspace (rev (dropWhile isspace s)))"

definition lower_char :: "char \<Rightarrow> char" where
  "lower_char c = (let n = (of_char c :: nat) in if 65 \<le> n \<and> n \<le> 90 then char_of (n + 32) else c)"

definition upper_char :: "char \<Rightarrow> char" where
  "upper_char c = (let n = (of_char c :: nat) in if 97 \<le> n \<and> n \<le> 122 then char_of (n - 32) else c)"

definition lower :: "string \<Rightarrow> string" where
  "lower s = map lower_char s"

definition capitalize :: "string \<Rightarrow> string" where
  "capitalize s = (case s of [] \<Rightarrow> [] | c # cs \<Rightarrow> upper_char c # lower cs)"

definition digit_char :: "nat \<Rightarrow> char" where
  "digit_char d = char_of (48 + d)"

function str_nat :: "nat \<Rightarrow> string" where
  "str_nat n = (if n < 10 then [digit_char n] else str_nat (n div 10) @ [digit_char (n mod 10)])"
  by pat_completeness auto
termination
  by (relation "measure (\<lambda>n. n)") auto

declare str_nat.simps [simp del]

text \<open>\<^verbatim>\<open>str(i)\<close>, as an f-string field \<^verbatim>\<open>{i}\<close> formats an int.\<close>

definition str_int :: "int \<Rightarrow> string" where
  "str_int i = (if i < 0 then CHR ''-'' # str_nat (nat (- i)) else str_nat (nat i))"

definition isdigit :: "char \<Rightarrow> bool" where
  "isdigit c = (let n = (of_char c :: nat) in 48 \<le> n \<and> n \<le> 57)"

text \<open>
  The digits of \<^verbatim>\<open>int(s)\<close>: one or more decimal digits, single underscores allowed
  between digits. The flag says that the previous character was a digit.
\<close>

fun parse_digits :: "nat \<Rightarrow> bool \<Rightarrow> string \<Rightarrow> nat option" where
  "parse_digits acc prev [] = (if prev then Some acc else None)"
| "parse_digits acc prev (c # cs) =
     (if isdigit c then parse_digits (acc * 10 + (of_char c - 48)) True cs
      else if c = CHR ''_'' \<and> prev then parse_digits acc False cs
      else None)"

text \<open>\<^verbatim>\<open>int(s)\<close> on a string: \<open>None\<close> stands for the ValueError it raises.\<close>

definition py_int :: "string \<Rightarrow> int option" where
  "py_int s =
     (case strip s of
        [] \<Rightarrow> None
      | c # cs \<Rightarrow>
          if c = CHR ''-'' then map_option (\<lambda>n. - int n) (parse_digits 0 False cs)
          else if c = CHR ''+'' then map_option int (parse_digits 0 False cs)
          else map_option int (parse_digits 0 False (c # cs)))"

text \<open>Rounding to the nearest integer, ties to the even one, as \<^verbatim>\<open>:.2f\<close> rounds.\<close>

definition round_half_even :: "rat \<Rightarrow> int" where
  "round_half_even x =
     (let f = \<lfloor>x\<rfloor>; r = x - of_int f
      in if r < 1 / 2 then f else if 1 / 2 < r then f + 1 else if even f then f else f + 1)"

definition fmt_2f :: "rat \<Rightarrow> string" where
  "fmt_2f x =
     (let n = nat (round_half_even (\<bar>x\<bar> * 100))
      in (if x < 0 then ''-'' else '''') @ str_nat (n div 100) @ ''.''
         @ [digit_char (n mod 100 div 10), digit_char (n mod 10)])"

text \<open>
  \<^verbatim>\<open>difflib.get_close_matches(word, possibilities, n, cutoff)\<close> of the standard
  library: the possibilities that score at least \<open>cutoff\<close>, best first, at most \<open>n\<close>
  of them. The score \<^verbatim>\<open>SequenceMatcher.ratio\<close> is a parameter \<open>ratio\<close>; ties in the
  score are broken by the string, as Python's tuple comparison does.
\<close>

definition get_close_matches ::
  "(string \<Rightarrow> string \<Rightarrow> rat) \<Rightarrow> string \<Rightarrow> string list \<Rightarrow> nat \<Rightarrow> rat \<Rightarrow> string list" where
  "get_close_matches ratio word possibilities n cutoff =
     map snd (take n (rev (sort
       (map (\<lambda>x. (ratio x word, x)) (filter (\<lambda>x. cutoff \<le> ratio x word) possibilities)))))"

section \<open>Data model\<close>

text \<open>What one call of \<^verbatim>\<open>input()\<close> yields: a line, Ctrl+C or Ctrl+D.\<close>

datatype event = Line string | Interrupt | Eof

datatype out_event = Print string | Prompt string

datatype exn = KeyboardInterrupt | EOFError | KeyError string | IndexError

text \<open>
  The outcome of a call: it returns, it raises, or it is blocked in \<^verbatim>\<open>input()\<close>
  because the events given so far are used up.
\<close>

datatype 'a outcome = Return 'a | Raise exn | Blocked

record product =
  price :: rat
  quantity :: int

text \<open>
  The two globals \<^verbatim>\<open>stock\<close> (a dict, in insertion order) and \<^verbatim>\<open>cart\<close>, with the
  terminal: the events still to be read and everything written so far.
\<close>

record world =
  stock :: "(string \<times> product) list"
  cart :: "(string \<times> int \<times> rat) list"
  inp :: "event list"
  out :: "out_event list"

definition CURRENCY :: string where
  "CURRENCY = [CHR 0xE2, CHR 0x82, CHR 0xAC]"

definition initial_stock :: "(string \<times> product) list" where
  "initial_stock =
     [(''rice'', \<lparr>price = 5.50, quantity = 10\<rparr>),
      (''beans'', \<lparr>price = 7.20, quantity = 8\<rparr>),
      (''pasta'', \<lparr>price = 3.80, quantity = 15\<rparr>),
      (''oil'', \<lparr>price = 6.00, quantity = 5\<rparr>)]"

definition initial :: "event list \<Rightarrow> world" where
  "initial evs = \<lparr>stock = initial_stock, cart = [], inp = evs, out = []\<rparr>"

definition exn_name :: "exn \<Rightarrow> string" where
  "exn_name e =
     (case e of KeyboardInterrupt \<Rightarrow> ''KeyboardInterrupt'' | EOFError \<Rightarrow> ''EOFError''
      | KeyError k \<Rightarrow> ''KeyError'' | IndexError \<Rightarrow> ''IndexError'')"

definition exn_str :: "exn \<Rightarrow> string" where
  "exn_str e =
     (case e of KeyboardInterrupt \<Rightarrow> '''' | EOFError \<Rightarrow> ''EOF when reading a line''
      | KeyError k \<Rightarrow> [CHR 0x27] @ k @ [CHR 0x27] | IndexError \<Rightarrow> ''list index out of range'')"

text \<open>\<^verbatim>\<open>xs[i]\<close> on a list: a negative index counts from the end.\<close>

definition py_index :: "'a list \<Rightarrow> int \<Rightarrow> exn + 'a" where
  "py_index xs i =
     (if 0 \<le> i \<and> i < int (length xs) then Inr (xs ! nat i)
      else if i < 0 \<and> - int (length xs) \<le> i then Inr (xs ! nat (int (length xs) + i))
      else Inl IndexError)"

section \<open>The program\<close>

definition print :: "string \<Rightarrow> world \<Rightarrow> world" where
  "print s w = w\<lparr>out := out w @ [Print s]\<rparr>"

definition fmt_money :: "rat \<Rightarrow> string" where
  "fmt_money v = CURRENCY @ '' '' @ fmt_2f v"

text \<open>\<^verbatim>\<open>safe_input\<close>: writes the prompt, then takes the next event.\<close>

definition safe_input :: "string \<Rightarrow> world \<Rightarrow> string outcome \<times> world" where
  "safe_input prompt w =
     (let w1 = w\<lparr>out := out w @ [Prompt prompt]\<rparr>
      in case inp w1 of
           [] \<Rightarrow> (Blocked, w1)
         | Line s # es \<Rightarrow> (Return s, w1\<lparr>inp := es\<rparr>)
         | Interrupt # es \<Rightarrow> (Raise KeyboardInterrupt, w1\<lparr>inp := es\<rparr>)
         | Eof # es \<Rightarrow> (Raise EOFError, w1\<lparr>inp := es\<rparr>))"

lemma safe_input_inp:
  "safe_input prompt w = (r, w1) \<Longrightarrow> r \<noteq> Blocked \<Longrightarrow> length (inp w1) < length (inp w)"
  by (auto simp: safe_input_def Let_def split: list.splits event.splits)

function read_positive_int :: "string \<Rightarrow> int \<Rightarrow> int option \<Rightarrow> world \<Rightarrow> int outcome \<times> world" where
  "read_positive_int prompt minimum maximum w =
     (case safe_input prompt w of
        (Blocked, w1) \<Rightarrow> (Blocked, w1)
      | (Raise e, w1) \<Rightarrow>
          if e = KeyboardInterrupt
          then (Raise e, print (CHR 0x0A # ''Operation cancelled by user.'') w1)
          else (Raise e, w1)
      | (Return s, w1) \<Rightarrow>
          (case py_int (strip s) of
             None \<Rightarrow>
               read_positive_int prompt minimum maximum
                 (print ''Invalid input: please enter an integer.'' w1)
           | Some v \<Rightarrow>
               if v < minimum
               then read_positive_int prompt minimum maximum
                      (print (''Attention: please enter an integer >= '' @ str_int minimum @ ''.'') w1)
               else if maximum \<noteq> None \<and> v > the maximum
               then read_positive_int prompt minimum maximum
                      (print (''Attention: the maximum allowed is '' @ str_int (the maximum) @ ''.'') w1)
               else (Return v, w1)))"
  by pat_completeness auto
termination
  by (relation "measure (\<lambda>(prompt, minimum, maximum, w). length (inp w))")
     (auto simp: print_def dest: safe_input_inp [OF sym])

declare read_positive_int.simps [simp del]

lemma safe_input_frame:
  "safe_input prompt w = (r, w1) \<Longrightarrow> stock w1 = stock w \<and> cart w1 = cart w"
  by (auto simp: safe_input_def Let_def split: list.splits event.splits)

lemma print_sel [simp]:
  "stock (print s w) = stock w" "cart (print s w) = cart w" "inp (print s w) = inp w"
  "out (print s w) = out w @ [Print s]"
  by (simp_all add: print_def)

lemma read_positive_int_inp:
  "length (inp (snd (read_positive_int prompt minimum maximum w))) \<le> length (inp w)"
proof (induction prompt minimum maximum w rule: read_positive_int.induct)
  case (1 prompt minimum maximum w)
  obtain r w1 where s: "safe_input prompt w = (r, w1)"
    by (cases "safe_input prompt w")
  have le: "length (inp w1) \<le> length (inp w)"
    using s by (auto simp: safe_input_def Let_def split: list.splits event.splits)
  show ?case
  proof (cases r)
    case (Return line)
    with 1 [OF s [symmetric]] s le show ?thesis
      by (subst read_positive_int.simps) (fastforce split: option.splits)
  next
    case (Raise e)
    with s le show ?thesis
      by (subst read_positive_int.simps) auto
  next
    case Blocked
    with s le show ?thesis
      by (subst read_positive_int.simps) auto
  qed
qed

lemma read_positive_int_inp_le:
  "read_positive_int prompt minimum maximum w = (r, w1) \<Longrightarrow> length (inp w1) \<le> length (inp w)"
  using read_positive_int_inp [of prompt minimum maximum w] by simp

text \<open>The loop of \<^verbatim>\<open>show_stock\<close> over the sorted keys.\<close>

fun show_stock_loop :: "string list \<Rightarrow> world \<Rightarrow> unit outcome \<times> world" where
  "show_stock_loop [] w = (Return (), w)"
| "show_stock_loop (product # rest) w =
     (case map_of (stock w) product of
        None \<Rightarrow> (Raise (KeyError product), w)
      | Some data \<Rightarrow>
          show_stock_loop rest
            (print (capitalize product @ '' - Price: '' @ fmt_money (price data)
                    @ '' | Quantity: '' @ str_int (quantity data)) w))"

definition show_stock :: "world \<Rightarrow> unit outcome \<times> world" where
  "show_stock w =
     (let w1 = print (CHR 0x0A # ''=== AVAILABLE STOCK ==='') w
      in if stock w1 = [] then (Return (), print ''No products available.'' w1)
         else show_stock_loop (sort (map fst (stock w1))) w1)"

text \<open>The numbered suggestions, \<^verbatim>\<open>enumerate(matches, 1)\<close>.\<close>

fun print_suggestions :: "int \<Rightarrow> string list \<Rightarrow> world \<Rightarrow> world" where
  "print_suggestions i [] w = w"
| "print_suggestions i (m # ms) w =
     print_suggestions (i + 1) ms (print (str_int i @ '') '' @ capitalize m) w)"

lemma print_suggestions_inp [simp]: "inp (print_suggestions i ms w) = inp w"
  by (induction ms arbitrary: i w) (auto simp: print_def)

function choose_product_name ::
  "(string \<Rightarrow> string \<Rightarrow> rat) \<Rightarrow> world \<Rightarrow> string option outcome \<times> world" where
  "choose_product_name ratio w =
     (case safe_input ''Enter the product name (or 0 to cancel): '' w of
        (Blocked, w1) \<Rightarrow> (Blocked, w1)
      | (Raise e, w1) \<Rightarrow>
          if e = KeyboardInterrupt
          then (Return None, print (CHR 0x0A # ''Action cancelled by user.'') w1)
          else (Raise e, w1)
      | (Return s, w1) \<Rightarrow>
          (let product = lower (strip s)
           in if product = ''0'' \<or> product = [] then (Return None, w1)
              else if product \<in> set (map fst (stock w1)) then (Return (Some product), w1)
              else
                (let matches = get_close_matches ratio product (map fst (stock w1)) 3 0.6
                 in if matches \<noteq> []
                    then
                      (let w2 = print (CHR 0x0A # ''Product not found. Did you mean:'') w1;
                           w3 = print_suggestions 1 matches w2;
                           w4 = print ''0) None of these (type again)'' w3
                       in case read_positive_int ''Choose an option: '' 0
                                 (Some (int (length matches))) w4 of
                            (Blocked, w5) \<Rightarrow> (Blocked, w5)
                          | (Raise e, w5) \<Rightarrow>
                              if e = KeyboardInterrupt
                              then (Return None, print (CHR 0x0A # ''Action cancelled by user.'') w5)
                              else (Raise e, w5)
                          | (Return choice, w5) \<Rightarrow>
                              if choice = 0 then choose_product_name ratio w5
                              else (case py_index matches (choice - 1) of
                                      Inl e \<Rightarrow> (Raise e, w5)
                                    | Inr m \<Rightarrow> (Return (Some m), w5)))
                    else choose_product_name ratio
                           (print (''Product not found and no suggestions. ''
                                   @ ''Use 'Show stock' to see available products.'') w1))))"
  by pat_completeness auto
termination
  by (relation "measure (\<lambda>(ratio, w). length (inp w))")
     (auto dest!: read_positive_int_inp_le [OF sym] safe_input_inp [OF sym])

declare choose_product_name.simps [simp del]

text \<open>The handler \<^verbatim>\<open>except KeyboardInterrupt\<close> of \<^verbatim>\<open>add_product\<close>.\<close>

definition add_product_except :: "exn \<Rightarrow> world \<Rightarrow> unit outcome \<times> world" where
  "add_product_except e w =
     (if e = KeyboardInterrupt
      then (Return (), print (CHR 0x0A # ''Action cancelled by user.'') w)
      else (Raise e, w))"

definition add_product :: "(string \<Rightarrow> string \<Rightarrow> rat) \<Rightarrow> world \<Rightarrow> unit outcome \<times> world" where
  "add_product ratio w =
     (case choose_product_name ratio w of
        (Blocked, w1) \<Rightarrow> (Blocked, w1)
      | (Raise e, w1) \<Rightarrow> add_product_except e w1
      | (Return None, w1) \<Rightarrow> (Return (), print ''No product selected.'' w1)
      | (Return (Some product), w1) \<Rightarrow>
          if product = [] then (Return (), print ''No product selected.'' w1)
          else
            (case map_of (stock w1) product of
               None \<Rightarrow> add_product_except (KeyError product) w1
             | Some data \<Rightarrow>
                 (let available = quantity data
                  in if available \<le> 0
                     then (Return (), print (''No stock available for '' @ [CHR 0x27] @ product
                                             @ [CHR 0x27] @ ''.'') w1)
                     else
                       (case read_positive_int
                               (''Enter the desired quantity (available: '' @ str_int available
                                @ ''): '') 1 None w1 of
                          (Blocked, w2) \<Rightarrow> (Blocked, w2)
                        | (Raise e, w2) \<Rightarrow> add_product_except e w2
                        | (Return qty, w2) \<Rightarrow>
                            if qty > available
                            then (Return (), print (''Not enough stock. Only '' @ str_int available
                                                    @ '' left.'') w2)
                            else
                              (case map_of (stock w2) product of
                                 None \<Rightarrow> add_product_except (KeyError product) w2
                               | Some data2 \<Rightarrow>
                                   (let unit_price = price data2;
                                        w3 = w2\<lparr>cart := cart w2 @ [(product, qty, unit_price)]\<rparr>;
                                        w4 = w3\<lparr>stock := AList.update product
                                                (data2\<lparr>quantity := available - qty\<rparr>) (stock w3)\<rparr>
                                    in (Return (), print (str_int qty @ ''x '' @ product
                                                          @ '' added to cart!'') w4)))))))"

text \<open>The loop of \<^verbatim>\<open>show_total\<close> over the cart; \<open>tot\<close> is the variable \<^verbatim>\<open>total\<close>.\<close>

fun show_total_loop :: "rat \<Rightarrow> (string \<times> int \<times> rat) list \<Rightarrow> world \<Rightarrow> rat \<times> world" where
  "show_total_loop tot [] w = (tot, w)"
| "show_total_loop tot ((product, qty, unit_price) # rest) w =
     (let subtotal = of_int qty * unit_price
      in show_total_loop (tot + subtotal) rest
           (print (capitalize product @ '' x'' @ str_int qty @ '' - '' @ fmt_money subtotal) w))"

definition show_total :: "world \<Rightarrow> unit outcome \<times> world" where
  "show_total w =
     (let w1 = print (CHR 0x0A # ''=== SHOPPING CART ==='') w
      in if cart w1 = [] then (Return (), print ''Your cart is empty.'' w1)
         else (case show_total_loop 0 (cart w1) w1 of
                 (tot, w2) \<Rightarrow>
                   (Return (), print (CHR 0x0A # ''Total purchase value: '' @ fmt_money tot) w2)))"

datatype menu_state = Running | Exiting

text \<open>The two handlers \<^verbatim>\<open>except KeyboardInterrupt\<close> and \<^verbatim>\<open>except Exception\<close> of \<^verbatim>\<open>menu\<close>.\<close>

definition menu_except :: "exn \<Rightarrow> world \<Rightarrow> world" where
  "menu_except e w =
     (if e = KeyboardInterrupt
      then print (CHR 0x0A # ''Interruption detected. To exit, choose option 0.'') w
      else print ''The system will continue running.''
             (print (''Unexpected error: '' @ exn_name e @ '': '' @ exn_str e) w))"

text \<open>What the loop does once the handler of an option has come back.\<close>

definition after_handler :: "unit outcome \<times> world \<Rightarrow> menu_state outcome \<times> world" where
  "after_handler rw =
     (case rw of
        (Blocked, w) \<Rightarrow> (Blocked, w)
      | (Raise e, w) \<Rightarrow> (Return Running, menu_except e w)
      | (Return u, w) \<Rightarrow> (Return Running, w))"

text \<open>One pass through the body of the \<^verbatim>\<open>while True\<close> loop of \<^verbatim>\<open>menu\<close>.\<close>

definition menu_iteration ::
  "(string \<Rightarrow> string \<Rightarrow> rat) \<Rightarrow> world \<Rightarrow> menu_state outcome \<times> world" where
  "menu_iteration ratio w =
     (let w0 = fold print
                 [CHR 0x0A # ''=== MENU ==='', ''1) Show stock'', ''2) Add product to cart'',
                  ''3) Checkout (show total)'', ''4) Show final stock'', ''0) Exit''] w
      in case safe_input ''Choose an option: '' w0 of
           (Blocked, w1) \<Rightarrow> (Blocked, w1)
         | (Raise e, w1) \<Rightarrow> (Return Running, menu_except e w1)
         | (Return s, w1) \<Rightarrow>
             (let opt = strip s
              in if opt = ''1'' then after_handler (show_stock w1)
                 else if opt = ''2'' then after_handler (add_product ratio w1)
                 else if opt = ''3'' then after_handler (show_total w1)
                 else if opt = ''4'' then after_handler (show_stock w1)
                 else if opt = ''0'' then (Return Exiting, print ''Exiting system...'' w1)
                 else (Return Running, print ''Invalid option! Try again.'' w1)))"

section \<open>What the input functions leave alone\<close>

text \<open>
  \<open>io_only w w1\<close>: from \<open>w\<close> to \<open>w1\<close> only the terminal moved on. Events were read from
  the front of the input, text was added at the end of the output, and the catalog and
  the cart are the same.
\<close>

definition io_only :: "world \<Rightarrow> world \<Rightarrow> bool" where
  "io_only w w1 \<longleftrightarrow>
     stock w1 = stock w \<and> cart w1 = cart w \<and> suffix (inp w1) (inp w) \<and> prefix (out w) (out w1)"

lemma io_only_refl [simp]: "io_only w w"
  by (simp add: io_only_def)

lemma io_only_trans: "io_only w w1 \<Longrightarrow> io_only w1 w2 \<Longrightarrow> io_only w w2"
  unfolding io_only_def by (auto intro: suffix_order.trans prefix_order.trans)

lemma io_only_print [simp]: "io_only w (print s w)"
  by (simp add: io_only_def)

lemma io_only_print_right: "io_only w w1 \<Longrightarrow> io_only w (print s w1)"
  by (rule io_only_trans [OF _ io_only_print])

lemma io_only_print_left: "io_only (print s w) w1 \<Longrightarrow> io_only w w1"
  by (rule io_only_trans [OF io_only_print])

lemma safe_input_io: "safe_input prompt w = (r, w1) \<Longrightarrow> io_only w w1"
  by (auto simp: safe_input_def Let_def io_only_def suffix_Cons split: list.splits event.splits)

lemma io_only_step: "io_only w w1 \<Longrightarrow> io_only (print s w1) w2 \<Longrightarrow> io_only w w2"
  by (blast intro: io_only_trans io_only_print)

lemma read_positive_int_cases [case_names blocked interrupt raise return retry]:
  obtains
    w1 where "safe_input prompt w = (Blocked, w1)"
      "read_positive_int prompt minimum maximum w = (Blocked, w1)"
  | w1 m where "safe_input prompt w = (Raise KeyboardInterrupt, w1)"
      "read_positive_int prompt minimum maximum w = (Raise KeyboardInterrupt, print m w1)"
  | e w1 where "safe_input prompt w = (Raise e, w1)" "e \<noteq> KeyboardInterrupt"
      "read_positive_int prompt minimum maximum w = (Raise e, w1)"
  | s v w1 where "safe_input prompt w = (Return s, w1)" "py_int (strip s) = Some v"
      "minimum \<le> v" "\<forall>m. maximum = Some m \<longrightarrow> v \<le> m"
      "read_positive_int prompt minimum maximum w = (Return v, w1)"
  | s w1 m where "safe_input prompt w = (Return s, w1)"
      "read_positive_int prompt minimum maximum w =
         read_positive_int prompt minimum maximum (print m w1)"
proof -
  obtain r1 w1 where s: "safe_input prompt w = (r1, w1)"
    by (cases "safe_input prompt w")
  show thesis
  proof (cases r1)
    case Blocked
    with s that(1) show thesis
      by (simp add: read_positive_int.simps [of prompt minimum maximum w])
  next
    case (Raise e)
    with s that(2,3) show thesis
      by (cases "e = KeyboardInterrupt")
         (simp_all add: read_positive_int.simps [of prompt minimum maximum w])
  next
    case (Return line)
    show thesis
    proof (cases "py_int (strip line)")
      case None
      with s Return that(5) show thesis
        by (simp add: read_positive_int.simps [of prompt minimum maximum w])
    next
      case (Some v)
      show thesis
      proof (cases "v < minimum")
        case True
        with s Return Some that(5) show thesis
          by (simp add: read_positive_int.simps [of prompt minimum maximum w])
      next
        case False
        show thesis
        proof (cases "maximum \<noteq> None \<and> v > the maximum")
          case True
          with s Return Some False that(5) show thesis
            by (simp add: read_positive_int.simps [of prompt minimum maximum w])
        next
          case no: False
          with s Return Some False
          have "read_positive_int prompt minimum maximum w = (Return v, w1)"
            by (auto simp: read_positive_int.simps [of prompt minimum maximum w])
          with s Return Some False no that(4) [of line w1 v] show thesis
            by (cases maximum) auto
        qed
      qed
    qed
  qed
qed

lemma read_positive_int_io_snd:
  "io_only w (snd (read_positive_int prompt minimum maximum w))"
proof (induction "length (inp w)" arbitrary: w rule: less_induct)
  case less
  show ?case
  proof (cases rule: read_positive_int_cases [of prompt w minimum maximum])
    case (retry s w1 m)
    from retry(1) have "length (inp (print m w1)) < length (inp w)"
      by (auto dest: safe_input_inp)
    from less [OF this] safe_input_io [OF retry(1)] retry(2) show ?thesis
      by (auto intro: io_only_step)
  qed (auto dest: safe_input_io intro: io_only_print_right)
qed

lemma read_positive_int_io:
  "read_positive_int prompt minimum maximum w = (r, w2) \<Longrightarrow> io_only w w2"
  using read_positive_int_io_snd [of w prompt minimum maximum] by simp


definition offered :: "string list \<Rightarrow> world \<Rightarrow> world" where
  "offered matches w1 =
     print ''0) None of these (type again)''
       (print_suggestions 1 matches (print (CHR 0x0A # ''Product not found. Did you mean:'') w1))"

definition close_matches :: "(string \<Rightarrow> string \<Rightarrow> rat) \<Rightarrow> string \<Rightarrow> world \<Rightarrow> string list" where
  "close_matches ratio product w1 = get_close_matches ratio product (map fst (stock w1)) 3 0.6"

lemma choose_product_name_cases
  [case_names blocked interrupt raise cancel exact nomatch
              choice_blocked choice_interrupt choice_raise choice_zero choice]:
  obtains
    w1 where "safe_input ''Enter the product name (or 0 to cancel): '' w = (Blocked, w1)"
      "choose_product_name ratio w = (Blocked, w1)"
  | w1 where "safe_input ''Enter the product name (or 0 to cancel): '' w = (Raise KeyboardInterrupt, w1)"
      "choose_product_name ratio w = (Return None, print (CHR 0x0A # ''Action cancelled by user.'') w1)"
  | e w1 where "safe_input ''Enter the product name (or 0 to cancel): '' w = (Raise e, w1)"
      "e \<noteq> KeyboardInterrupt" "choose_product_name ratio w = (Raise e, w1)"
  | s w1 where "safe_input ''Enter the product name (or 0 to cancel): '' w = (Return s, w1)"
      "lower (strip s) = ''0'' \<or> lower (strip s) = []"
      "choose_product_name ratio w = (Return None, w1)"
  | s w1 where "safe_input ''Enter the product name (or 0 to cancel): '' w = (Return s, w1)"
      "lower (strip s) \<noteq> ''0''" "lower (strip s) \<noteq> []"
      "lower (strip s) \<in> set (map fst (stock w1))"
      "choose_product_name ratio w = (Return (Some (lower (strip s))), w1)"
  | s w1 m where "safe_input ''Enter the product name (or 0 to cancel): '' w = (Return s, w1)"
      "lower (strip s) \<noteq> ''0''" "lower (strip s) \<noteq> []"
      "lower (strip s) \<notin> set (map fst (stock w1))"
      "close_matches ratio (lower (strip s)) w1 = []"
      "choose_product_name ratio w = choose_product_name ratio (print m w1)"
  | s w1 matches w5 where "safe_input ''Enter the product name (or 0 to cancel): '' w = (Return s, w1)"
      "lower (strip s) \<noteq> ''0''" "lower (strip s) \<noteq> []"
      "lower (strip s) \<notin> set (map fst (stock w1))"
      "matches = close_matches ratio (lower (strip s)) w1" "matches \<noteq> []"
      "read_positive_int ''Choose an option: '' 0 (Some (int (length matches))) (offered matches w1)
         = (Blocked, w5)"
      "choose_product_name ratio w = (Blocked, w5)"
  | s w1 matches w5 where "safe_input ''Enter the product name (or 0 to cancel): '' w = (Return s, w1)"
      "lower (strip s) \<noteq> ''0''" "lower (strip s) \<noteq> []"
      "lower (strip s) \<notin> set (map fst (stock w1))"
      "matches = close_matches ratio (lower (strip s)) w1" "matches \<noteq> []"
      "read_positive_int ''Choose an option: '' 0 (Some (int (length matches))) (offered matches w1)
         = (Raise KeyboardInterrupt, w5)"
      "choose_product_name ratio w = (Return None, print (CHR 0x0A # ''Action cancelled by user.'') w5)"
  | s w1 matches e w5 where "safe_input ''Enter the product name (or 0 to cancel): '' w = (Return s, w1)"
      "lower (strip s) \<noteq> ''0''" "lower (strip s) \<noteq> []"
      "lower (strip s) \<notin> set (map fst (stock w1))"
      "matches = close_matches ratio (lower (strip s)) w1" "matches \<noteq> []"
      "read_positive_int ''Choose an option: '' 0 (Some (int (length matches))) (offered matches w1)
         = (Raise e, w5)" "e \<noteq> KeyboardInterrupt"
      "choose_product_name ratio w = (Raise e, w5)"
  | s w1 matches w5 where "safe_input ''Enter the product name (or 0 to cancel): '' w = (Return s, w1)"
      "lower (strip s) \<noteq> ''0''" "lower (strip s) \<noteq> []"
      "lower (strip s) \<notin> set (map fst (stock w1))"
      "matches = close_matches ratio (lower (strip s)) w1" "matches \<noteq> []"
      "read_positive_int ''Choose an option: '' 0 (Some (int (length matches))) (offered matches w1)
         = (Return 0, w5)"
      "choose_product_name ratio w = choose_product_name ratio w5"
  | s w1 matches c w5 where "safe_input ''Enter the product name (or 0 to cancel): '' w = (Return s, w1)"
      "lower (strip s) \<noteq> ''0''" "lower (strip s) \<noteq> []"
      "lower (strip s) \<notin> set (map fst (stock w1))"
      "matches = close_matches ratio (lower (strip s)) w1" "matches \<noteq> []"
      "read_positive_int ''Choose an option: '' 0 (Some (int (length matches))) (offered matches w1)
         = (Return c, w5)" "c \<noteq> 0"
      "choose_product_name ratio w =
         (case py_index matches (c - 1) of Inl e \<Rightarrow> (Raise e, w5) | Inr m \<Rightarrow> (Return (Some m), w5))"
proof -
  let ?p = "''Enter the product name (or 0 to cancel): ''"
  note unfold = choose_product_name.simps [of ratio w]
  obtain r1 w1 where s: "safe_input ?p w = (r1, w1)"
    by (cases "safe_input ?p w")
  show thesis
  proof (cases r1)
    case Blocked
    with s that(1) show thesis by (simp add: unfold)
  next
    case (Raise e)
    with s that(2,3) show thesis
      by (cases "e = KeyboardInterrupt") (simp_all add: unfold)
  next
    case (Return line)
    let ?product = "lower (strip line)"
    show thesis
    proof (cases "?product = ''0'' \<or> ?product = []")
      case True
      with s Return that(4) [of line w1] show thesis by (simp add: unfold)
    next
      case nocancel: False
      show thesis
      proof (cases "?product \<in> set (map fst (stock w1))")
        case True
        with s Return nocancel that(5) [of line w1] show thesis by (simp add: unfold)
      next
        case notin: False
        let ?matches = "close_matches ratio ?product w1"
        show thesis
        proof (cases "?matches = []")
          case True
          with s Return nocancel notin that(6) [of line w1] show thesis
            by (simp add: unfold close_matches_def)
        next
          case some: False
          obtain r5 w5 where c: "read_positive_int ''Choose an option: '' 0
              (Some (int (length ?matches))) (offered ?matches w1) = (r5, w5)"
            by (cases "read_positive_int ''Choose an option: '' 0
              (Some (int (length ?matches))) (offered ?matches w1)")
          have eq: "choose_product_name ratio w =
              (case r5 of Blocked \<Rightarrow> (Blocked, w5)
               | Raise e \<Rightarrow> if e = KeyboardInterrupt
                   then (Return None, print (CHR 0x0A # ''Action cancelled by user.'') w5)
                   else (Raise e, w5)
               | Return choice \<Rightarrow> if choice = 0 then choose_product_name ratio w5
                   else (case py_index ?matches (choice - 1) of
                           Inl e \<Rightarrow> (Raise e, w5) | Inr m \<Rightarrow> (Return (Some m), w5)))"
            using s Return nocancel notin some c
            unfolding close_matches_def offered_def
            by (cases r5) (simp_all add: unfold Let_def)
          note facts = s [unfolded Return] nocancel [simplified, THEN conjunct1]
            nocancel [simplified, THEN conjunct2] notin refl some
          show thesis
          proof (cases r5)
            case Blocked
            show thesis
              by (rule that(7) [OF facts c [unfolded Blocked]]) (simp add: eq Blocked)
          next
            case (Raise e)
            show thesis
            proof (cases "e = KeyboardInterrupt")
              case True
              show thesis
                by (rule that(8) [OF facts c [unfolded Raise True]]) (simp add: eq Raise True)
            next
              case False
              show thesis
                by (rule that(9) [OF facts c [unfolded Raise] False]) (simp add: eq Raise False)
            qed
          next
            case ret: (Return choice)
            show thesis
            proof (cases "choice = 0")
              case True
              show thesis
                by (rule that(10) [OF facts c [unfolded ret True]]) (simp add: eq ret True)
            next
              case False
              show thesis
                by (rule that(11) [OF facts c [unfolded ret] False]) (simp add: eq ret False)
            qed
          qed
        qed
      qed
    qed
  qed
qed


lemma print_suggestions_sel [simp]:
  "stock (print_suggestions i ms w) = stock w" "cart (print_suggestions i ms w) = cart w"
  by (induction ms arbitrary: i w) auto

lemma print_suggestions_io: "io_only w (print_suggestions i ms w)"
  by (induction ms arbitrary: i w) (auto intro: io_only_trans [OF io_only_print])

lemma offered_io: "io_only w (offered ms w)"
  unfolding offered_def
  by (blast intro: io_only_trans io_only_print print_suggestions_io)

lemma offered_inp [simp]: "inp (offered ms w) = inp w"
  by (simp add: offered_def)

lemma choose_product_name_io_snd: "io_only w (snd (choose_product_name ratio w))"
proof (induction "length (inp w)" arbitrary: w rule: less_induct)
  case less
  show ?case
  proof (cases rule: choose_product_name_cases [of w ratio])
    case (nomatch s w1 m)
    from nomatch(1) have "length (inp (print m w1)) < length (inp w)"
      by (auto dest: safe_input_inp)
    from less [OF this] safe_input_io [OF nomatch(1)] nomatch(6) show ?thesis
      by (auto intro: io_only_step)
  next
    case (choice_zero s w1 matches w5)
    from choice_zero(1,7) have "length (inp w5) < length (inp w)"
      by (auto dest!: safe_input_inp read_positive_int_inp_le)
    from less [OF this] have "io_only w5 (snd (choose_product_name ratio w))"
      by (simp add: choice_zero(8))
    with safe_input_io [OF choice_zero(1)] offered_io [of w1 matches]
      read_positive_int_io [OF choice_zero(7)]
    show ?thesis by (blast intro: io_only_trans)
  next
    case (choice_blocked s w1 matches w5)
    with safe_input_io [OF choice_blocked(1)] offered_io [of w1 matches]
      read_positive_int_io [OF choice_blocked(7)]
    show ?thesis by (auto intro: io_only_trans)
  next
    case (choice_interrupt s w1 matches w5)
    with safe_input_io [OF choice_interrupt(1)] offered_io [of w1 matches]
      read_positive_int_io [OF choice_interrupt(7)]
    show ?thesis by (auto intro: io_only_trans intro!: io_only_print_right)
  next
    case (choice_raise s w1 matches e w5)
    with safe_input_io [OF choice_raise(1)] offered_io [of w1 matches]
      read_positive_int_io [OF choice_raise(7)]
    show ?thesis by (auto intro: io_only_trans)
  next
    case (choice s w1 matches c w5)
    with safe_input_io [OF choice(1)] offered_io [of w1 matches]
      read_positive_int_io [OF choice(7)]
    show ?thesis by (auto intro: io_only_trans split: sum.splits)
  qed (auto dest: safe_input_io intro: io_only_print_right)
qed

lemma choose_product_name_io:
  "choose_product_name ratio w = (r, w1) \<Longrightarrow> io_only w w1"
  using choose_product_name_io_snd [of w ratio] by simp

lemma show_stock_loop_frame:
  "show_stock_loop ks w = (r, w1) \<Longrightarrow> stock w1 = stock w \<and> cart w1 = cart w \<and> inp w1 = inp w"
  by (induction ks arbitrary: w) (auto split: option.splits)

lemma show_stock_frame:
  "show_stock w = (r, w1) \<Longrightarrow> stock w1 = stock w \<and> cart w1 = cart w \<and> inp w1 = inp w"
  by (auto simp: show_stock_def Let_def dest!: show_stock_loop_frame split: if_splits)

lemma show_total_loop_frame:
  "show_total_loop tot ls w = (t, w1) \<Longrightarrow> stock w1 = stock w \<and> cart w1 = cart w \<and> inp w1 = inp w"
  by (induction ls arbitrary: tot w) (auto simp: Let_def)

lemma show_total_frame:
  "show_total w = (r, w1) \<Longrightarrow> stock w1 = stock w \<and> cart w1 = cart w \<and> inp w1 = inp w"
  by (auto simp: show_total_def Let_def dest!: show_total_loop_frame split: if_splits prod.splits)

lemma io_only_inp_le: "io_only w w1 \<Longrightarrow> length (inp w1) \<le> length (inp w)"
  by (auto simp: io_only_def suffix_def)

lemma add_product_inp: "add_product ratio w = (r, w1) \<Longrightarrow> length (inp w1) \<le> length (inp w)"
  unfolding add_product_def add_product_except_def
  by (auto simp: Let_def split: prod.splits outcome.splits option.splits if_splits
      dest!: choose_product_name_io read_positive_int_io io_only_inp_le)

lemma after_handler_inp:
  "after_handler (r, w1) = (r2, w2) \<Longrightarrow> inp w2 = inp w1"
  by (auto simp: after_handler_def menu_except_def split: outcome.splits if_splits)

lemma menu_iteration_inp:
  "menu_iteration ratio w = (Return st, w2) \<Longrightarrow> length (inp w2) < length (inp w)"
proof -
  assume m: "menu_iteration ratio w = (Return st, w2)"
  let ?w0 = "fold print
       [CHR 0x0A # ''=== MENU ==='', ''1) Show stock'', ''2) Add product to cart'',
        ''3) Checkout (show total)'', ''4) Show final stock'', ''0) Exit''] w"
  have w0: "inp ?w0 = inp w" by simp
  obtain r1 w1 where s: "safe_input ''Choose an option: '' ?w0 = (r1, w1)"
    by (cases "safe_input ''Choose an option: '' ?w0")
  from m s have nb: "r1 \<noteq> Blocked"
    by (auto simp: menu_iteration_def)
  from safe_input_inp [OF s nb] w0 have lt: "length (inp w1) < length (inp w)" by simp
  have le: "length (inp w2) \<le> length (inp w1)"
  proof (cases r1)
    case Blocked
    with nb show ?thesis by simp
  next
    case (Raise e)
    with m s show ?thesis
      by (auto simp: menu_iteration_def menu_except_def split: if_splits)
  next
    case (Return line)
    obtain ra wa where a: "show_stock w1 = (ra, wa)" by (cases "show_stock w1")
    obtain rb wb where b: "add_product ratio w1 = (rb, wb)" by (cases "add_product ratio w1")
    obtain rc wc where c: "show_total w1 = (rc, wc)" by (cases "show_total w1")
    from m s Return a b c show ?thesis
      using show_stock_frame [OF a] add_product_inp [OF b] show_total_frame [OF c]
      by (auto simp: menu_iteration_def Let_def split: if_splits dest!: after_handler_inp)
  qed
  with lt show ?thesis by simp
qed

text \<open>
  \<^verbatim>\<open>menu\<close>: the loop runs its body until the body says \<open>Exiting\<close>, or until the events
  given are used up.
\<close>

function menu :: "(string \<Rightarrow> string \<Rightarrow> rat) \<Rightarrow> world \<Rightarrow> unit outcome \<times> world" where
  "menu ratio w =
     (case menu_iteration ratio w of
        (Blocked, w1) \<Rightarrow> (Blocked, w1)
      | (Raise e, w1) \<Rightarrow> (Raise e, w1)
      | (Return Exiting, w1) \<Rightarrow> (Return (), w1)
      | (Return Running, w1) \<Rightarrow> menu ratio w1)"
  by pat_completeness auto
termination
  by (relation "measure (\<lambda>(ratio, w). length (inp w))")
     (auto dest!: menu_iteration_inp [OF sym])

declare menu.simps [simp del]

text \<open>\<^verbatim>\<open>main\<close>: \<^verbatim>\<open>except Exception\<close> takes every exception but KeyboardInterrupt.\<close>

definition main :: "(string \<Rightarrow> string \<Rightarrow> rat) \<Rightarrow> world \<Rightarrow> unit outcome \<times> world" where
  "main ratio w =
     (case menu ratio w of
        (Raise e, w1) \<Rightarrow>
          if e = KeyboardInterrupt then (Raise e, w1)
          else (Return (), print ''Exiting the program safely.''
                 (print (''Critical unhandled error: '' @ exn_name e @ '': '' @ exn_str e) w1))
      | (r, w1) \<Rightarrow> (r, w1))"

section \<open>Definitions for the statements\<close>

text \<open>The prompt \<^verbatim>\<open>add_product\<close> asks the quantity with.\<close>

definition quantity_prompt :: "int \<Rightarrow> string" where
  "quantity_prompt available = ''Enter the desired quantity (available: '' @ str_int available @ ''): ''"

text \<open>A state with 7 rice left and 3 in the cart.\<close>

definition rice7 :: "event list \<Rightarrow> world" where
  "rice7 evs = \<lparr>stock = [(''rice'', \<lparr>price = 5.50, quantity = 7\<rparr>)],
                cart = [(''rice'', 3, 5.50)], inp = evs, out = []\<rparr>"

text \<open>The line \<^verbatim>\<open>show_total\<close> prints for one cart line.\<close>

fun cart_line :: "string \<times> int \<times> rat \<Rightarrow> out_event" where
  "cart_line (product, qty, unit_price) =
     Print (capitalize product @ '' x'' @ str_int qty @ '' - ''
            @ fmt_money (of_int qty * unit_price))"

text \<open>A state with two lines in the cart.\<close>

definition wd :: world where
  "wd = \<lparr>stock = [], cart = [(''rice'', 3, 5.50), (''beans'', 2, 7.20)], inp = [], out = []\<rparr>"

text \<open>What one call of \<^verbatim>\<open>show_total\<close> adds to the output.\<close>

definition total_printed :: "world \<Rightarrow> out_event list" where
  "total_printed w = drop (length (out w)) (out (snd (show_total w)))"

text \<open>The state after menu option 3.\<close>

definition checkout :: "world \<Rightarrow> world" where
  "checkout w = snd (show_total w)"

text \<open>The state once the six lines of the menu are printed.\<close>

definition menu_shown :: "world \<Rightarrow> world" where
  "menu_shown w =
     fold print
       [CHR 0x0A # ''=== MENU ==='', ''1) Show stock'', ''2) Add product to cart'',
        ''3) Checkout (show total)'', ''4) Show final stock'', ''0) Exit''] w"

text \<open>The state once the menu prompt is written and one event is taken: \<open>es\<close> are
  the events left.\<close>

definition option_read :: "world \<Rightarrow> event list \<Rightarrow> world" where
  "option_read w es =
     (menu_shown w)\<lparr>out := out (menu_shown w) @ [Prompt ''Choose an option: ''], inp := es\<rparr>"

text \<open>The state once \<^verbatim>\<open>safe_input\<close> has written the prompt and taken one event.\<close>

definition prompted :: "string \<Rightarrow> world \<Rightarrow> event list \<Rightarrow> world" where
  "prompted prompt w es = w\<lparr>out := out w @ [Prompt prompt], inp := es\<rparr>"

text \<open>A state with empty catalog and cart, to run the validator alone.\<close>

definition asked :: "event list \<Rightarrow> world" where
  "asked evs = \<lparr>stock = [], cart = [], inp = evs, out = []\<rparr>"

text \<open>The events a call has read, between the state before and the state after.\<close>

definition consumed :: "world \<Rightarrow> world \<Rightarrow> event list" where
  "consumed w w2 = take (length (inp w) - length (inp w2)) (inp w)"

text \<open>The catalog's keys with their prices, in order.\<close>

definition prices :: "(string \<times> product) list \<Rightarrow> (string \<times> rat) list" where
  "prices st = map (\<lambda>e. (fst e, price (snd e))) st"

text \<open>The seeded products at their seeded prices, and no negative quantity.\<close>

definition catalog_ok :: "(string \<times> product) list \<Rightarrow> bool" where
  "catalog_ok st \<longleftrightarrow> prices st = prices initial_stock \<and> (\<forall>e \<in> set st. 0 \<le> quantity (snd e))"

text \<open>The state once the name prompt is written and one event is taken.\<close>

definition name_read :: "world \<Rightarrow> event list \<Rightarrow> world" where
  "name_read w es = prompted ''Enter the product name (or 0 to cancel): '' w es"

text \<open>A similarity function to run the resolver on: 0.8 when every character of the word
  occurs in the key, else 0.\<close>

definition demo_ratio :: "string \<Rightarrow> string \<Rightarrow> rat" where
  "demo_ratio a b = (if set b \<subseteq> set a then 4 / 5 else 0)"

text \<open>The line printed for the match at position \<open>fst im\<close> (from 0): numbers start at 1.\<close>

definition suggestion :: "nat \<times> string \<Rightarrow> out_event" where
  "suggestion im = Print (str_int (int (fst im) + 1) @ '') '' @ capitalize (snd im))"

text \<open>\<open>loop_head ratio w v\<close>: the loop of \<^verbatim>\<open>menu\<close>, started in \<open>w\<close>, enters its body in \<open>v\<close>
  after zero or more passes that each ended in \<open>Running\<close>.\<close>

inductive loop_head :: "(string \<Rightarrow> string \<Rightarrow> rat) \<Rightarrow> world \<Rightarrow> world \<Rightarrow> bool"
  for ratio :: "string \<Rightarrow> string \<Rightarrow> rat" where
  start: "loop_head ratio w w"
| again: "menu_iteration ratio w = (Return Running, w1) \<Longrightarrow> loop_head ratio w1 v \<Longrightarrow>
          loop_head ratio w v"

code_pred loop_head .

section \<open>Lemmas on the handlers\<close>

lemma io_only_frame: "io_only w w1 \<Longrightarrow> stock w1 = stock w \<and> cart w1 = cart w"
  by (simp add: io_only_def)

lemma read_positive_int_range:
  "read_positive_int prompt minimum maximum w = (Return v, w2) \<Longrightarrow>
     minimum \<le> v \<and> (\<forall>m. maximum = Some m \<longrightarrow> v \<le> m)"
proof (induction "length (inp w)" arbitrary: w rule: less_induct)
  case less
  show ?case
  proof (cases rule: read_positive_int_cases [of prompt w minimum maximum])
    case (retry s w1 m)
    from retry(1) have "length (inp (print m w1)) < length (inp w)"
      by (auto dest: safe_input_inp)
    from less(1) [OF this] less(2) retry(2) show ?thesis by simp
  qed (use less(2) in auto)
qed

lemma add_product_commit:
  assumes cp: "choose_product_name ratio w = (Return (Some product), w1)"
    and ne: "product \<noteq> []"
    and data: "map_of (stock w) product = Some data"
    and pos: "0 < quantity data"
    and rq: "read_positive_int (quantity_prompt (quantity data)) 1 None w1 = (Return q, w2)"
    and le: "q \<le> quantity data"
  shows "add_product ratio w =
     (Return (), print (str_int q @ ''x '' @ product @ '' added to cart!'')
        (w2\<lparr>cart := cart w @ [(product, q, price data)],
            stock := AList.update product (data\<lparr>quantity := quantity data - q\<rparr>) (stock w)\<rparr>))"
proof -
  from choose_product_name_io [OF cp] have f1: "stock w1 = stock w" "cart w1 = cart w"
    by (simp_all add: io_only_def)
  from read_positive_int_io [OF rq] f1 have f2: "stock w2 = stock w" "cart w2 = cart w"
    by (simp_all add: io_only_def)
  show ?thesis
    unfolding add_product_def quantity_prompt_def [symmetric]
    using ne data pos le f1 f2 by (simp add: cp rq Let_def)
qed

lemma add_product_reject:
  assumes cp: "choose_product_name ratio w = (Return (Some product), w1)"
    and ne: "product \<noteq> []"
    and data: "map_of (stock w) product = Some data"
    and pos: "0 < quantity data"
    and rq: "read_positive_int (quantity_prompt (quantity data)) 1 None w1 = (Return q, w2)"
    and gt: "quantity data < q"
  shows "add_product ratio w =
     (Return (), print (''Not enough stock. Only '' @ str_int (quantity data) @ '' left.'') w2)"
proof -
  from choose_product_name_io [OF cp] have f1: "stock w1 = stock w" "cart w1 = cart w"
    by (simp_all add: io_only_def)
  show ?thesis
    unfolding add_product_def quantity_prompt_def [symmetric]
    using ne data pos gt f1 by (simp add: cp rq Let_def)
qed

lemma map_of_update_same: "map_of (AList.update k v al) k = Some v"
  by (simp add: update_conv')

lemma show_total_loop_eq:
  "show_total_loop tot ls w =
     (tot + (\<Sum>(p, q, u)\<leftarrow>ls. of_int q * u), w\<lparr>out := out w @ map cart_line ls\<rparr>)"
  by (induction ls arbitrary: tot w) (auto simp: Let_def print_def algebra_simps)

lemma show_total_empty:
  "cart w = [] \<Longrightarrow> show_total w =
     (Return (), w\<lparr>out := out w @ [Print (CHR 0x0A # ''=== SHOPPING CART ===''),
                                     Print ''Your cart is empty.'']\<rparr>)"
  by (simp add: show_total_def print_def)

lemma show_total_lines:
  "cart w \<noteq> [] \<Longrightarrow> show_total w =
     (Return (), w\<lparr>out := out w @ [Print (CHR 0x0A # ''=== SHOPPING CART ==='')] @ map cart_line (cart w)
        @ [Print (CHR 0x0A # ''Total purchase value: ''
                  @ fmt_money (\<Sum>(p, q, u)\<leftarrow>cart w. of_int q * u))]\<rparr>)"
  by (simp add: show_total_def show_total_loop_eq print_def)

lemma add_product_early:
  "choose_product_name ratio w = (Blocked, w1) \<Longrightarrow> add_product ratio w = (Blocked, w1)"
  "choose_product_name ratio w = (Raise e, w1) \<Longrightarrow> add_product ratio w = add_product_except e w1"
  "choose_product_name ratio w = (Return None, w1) \<Longrightarrow>
     add_product ratio w = (Return (), print ''No product selected.'' w1)"
  "choose_product_name ratio w = (Return (Some []), w1) \<Longrightarrow>
     add_product ratio w = (Return (), print ''No product selected.'' w1)"
  by (simp_all add: add_product_def)

lemma add_product_lookup:
  assumes "choose_product_name ratio w = (Return (Some product), w1)" "product \<noteq> []"
  shows "map_of (stock w1) product = None \<Longrightarrow>
           add_product ratio w = add_product_except (KeyError product) w1"
    and "map_of (stock w1) product = Some data \<Longrightarrow> quantity data \<le> 0 \<Longrightarrow>
           add_product ratio w =
             (Return (), print (''No stock available for '' @ [CHR 0x27] @ product
                                @ [CHR 0x27] @ ''.'') w1)"
    and "map_of (stock w1) product = Some data \<Longrightarrow> 0 < quantity data \<Longrightarrow>
           read_positive_int (quantity_prompt (quantity data)) 1 None w1 = (Blocked, w2) \<Longrightarrow>
           add_product ratio w = (Blocked, w2)"
    and "map_of (stock w1) product = Some data \<Longrightarrow> 0 < quantity data \<Longrightarrow>
           read_positive_int (quantity_prompt (quantity data)) 1 None w1 = (Raise e, w2) \<Longrightarrow>
           add_product ratio w = add_product_except e w2"
  using assms unfolding add_product_def quantity_prompt_def [symmetric]
  by (simp_all add: Let_def)

lemma show_total_out:
  "out (snd (show_total w)) = out w @ total_printed w"
  by (cases "cart w = []") (simp_all add: total_printed_def show_total_empty show_total_lines)

lemma total_printed_cong:
  "cart v = cart w \<Longrightarrow> total_printed v = total_printed w"
  by (cases "cart w = []") (simp_all add: total_printed_def show_total_empty show_total_lines)

lemma checkout_iter:
  "cart ((checkout ^^ n) w) = cart w \<and> stock ((checkout ^^ n) w) = stock w \<and>
   inp ((checkout ^^ n) w) = inp w"
proof (induction n)
  case 0
  show ?case by simp
next
  case (Suc n)
  obtain r v where st: "show_total ((checkout ^^ n) w) = (r, v)"
    by (cases "show_total ((checkout ^^ n) w)")
  have "(checkout ^^ Suc n) w = v"
    using st by (simp add: checkout_def [of "(checkout ^^ n) w"])
  with show_total_frame [OF st] Suc show ?case
    by simp
qed

lemma strip_digit [simp]:
  "strip ''0'' = ''0''" "strip ''1'' = ''1''" "strip ''2'' = ''2''" "strip ''3'' = ''3''"
  "strip ''4'' = ''4''"
  by (simp_all add: strip_def isspace_def)

lemma menu_iteration_line:
  "menu_iteration ratio (w\<lparr>inp := Line s # es\<rparr>) =
     (let w1 = option_read w es; opt = strip s
      in if opt = ''1'' then after_handler (show_stock w1)
         else if opt = ''2'' then after_handler (add_product ratio w1)
         else if opt = ''3'' then after_handler (show_total w1)
         else if opt = ''4'' then after_handler (show_stock w1)
         else if opt = ''0'' then (Return Exiting, print ''Exiting system...'' w1)
         else (Return Running, print ''Invalid option! Try again.'' w1))"
  by (simp add: menu_iteration_def safe_input_def option_read_def menu_shown_def Let_def print_def)

lemma safe_input_Line:
  "inp w = Line s # es \<Longrightarrow> safe_input prompt w = (Return s, prompted prompt w es)"
  by (simp add: safe_input_def prompted_def)

lemma safe_input_Interrupt:
  "inp w = Interrupt # es \<Longrightarrow> safe_input prompt w = (Raise KeyboardInterrupt, prompted prompt w es)"
  by (simp add: safe_input_def prompted_def)

lemma safe_input_Eof:
  "inp w = Eof # es \<Longrightarrow> safe_input prompt w = (Raise EOFError, prompted prompt w es)"
  by (simp add: safe_input_def prompted_def)

lemma safe_input_Nil:
  "inp w = [] \<Longrightarrow> safe_input prompt w = (Blocked, w\<lparr>out := out w @ [Prompt prompt]\<rparr>)"
  by (simp add: safe_input_def)

lemma consumed_eq: "inp w = c @ inp w2 \<Longrightarrow> consumed w w2 = c"
  by (simp add: consumed_def)

lemma safe_input_reads:
  assumes "safe_input prompt w = (r, w1)"
  shows "(r = Blocked \<and> inp w = inp w1) \<or> (\<exists>s. r = Return s \<and> inp w = Line s # inp w1) \<or>
         (r = Raise KeyboardInterrupt \<and> inp w = Interrupt # inp w1) \<or>
         (r = Raise EOFError \<and> inp w = Eof # inp w1)"
  using assms by (auto simp: safe_input_def Let_def split: list.splits event.splits)

lemma read_positive_int_reads:
  "read_positive_int prompt minimum maximum w = (r, w2) \<Longrightarrow>
     \<exists>c. inp w = c @ inp w2 \<and> (Interrupt \<in> set c) = (r = Raise KeyboardInterrupt)"
proof (induction "length (inp w)" arbitrary: w rule: less_induct)
  case less
  note res = less(2)
  show ?case
  proof (cases rule: read_positive_int_cases [of prompt w minimum maximum])
    case (blocked w1)
    with res safe_input_reads [OF blocked(1)] show ?thesis by auto
  next
    case (interrupt w1 m)
    with res safe_input_reads [OF interrupt(1)] show ?thesis by auto
  next
    case (raise e w1)
    with res safe_input_reads [OF raise(1)] show ?thesis by auto
  next
    case (return s v w1)
    with res safe_input_reads [OF return(1)] show ?thesis by auto
  next
    case (retry s w1 m)
    from safe_input_reads [OF retry(1)] have i: "inp w = Line s # inp w1" by simp
    then have "length (inp (print m w1)) < length (inp w)" by simp
    from less(1) [OF this] res retry(2)
    obtain c where "inp w1 = c @ inp w2" "(Interrupt \<in> set c) = (r = Raise KeyboardInterrupt)"
      by auto
    with i have "inp w = (Line s # c) @ inp w2 \<and>
        (Interrupt \<in> set (Line s # c)) = (r = Raise KeyboardInterrupt)"
      by simp
    then show ?thesis by blast
  qed
qed

lemma choose_product_name_reads:
  "choose_product_name ratio w = (r, w2) \<Longrightarrow>
     \<exists>c. inp w = c @ inp w2 \<and> (Interrupt \<in> set c \<longrightarrow> r = Return None)"
proof (induction "length (inp w)" arbitrary: w rule: less_induct)
  case less
  note res = less(2)
  have step: "\<exists>c. inp w = c @ inp w2 \<and> (Interrupt \<in> set c \<longrightarrow> r = Return None)"
    if i: "inp w = Line s # inp w1"
      and rq: "read_positive_int p mn mx (offered ms w1) = (r5, w5)"
      and fin: "r5 \<noteq> Raise KeyboardInterrupt \<Longrightarrow>
            \<exists>c. inp w5 = c @ inp w2 \<and> (Interrupt \<in> set c \<longrightarrow> r = Return None)"
      and ki: "r5 = Raise KeyboardInterrupt \<Longrightarrow> inp w2 = inp w5 \<and> r = Return None"
    for s w1 p mn mx ms r5 w5
  proof -
    from read_positive_int_reads [OF rq]
    obtain c5 where c5: "inp w1 = c5 @ inp w5"
        "(Interrupt \<in> set c5) = (r5 = Raise KeyboardInterrupt)"
      by auto
    show ?thesis
    proof (cases "r5 = Raise KeyboardInterrupt")
      case True
      from ki [OF True] i c5 have "inp w = (Line s # c5) @ inp w2 \<and>
          (Interrupt \<in> set (Line s # c5) \<longrightarrow> r = Return None)"
        by simp
      then show ?thesis by blast
    next
      case False
      from fin [OF False] obtain c where
        c: "inp w5 = c @ inp w2" "Interrupt \<in> set c \<longrightarrow> r = Return None"
        by auto
      with i c5 False have "inp w = (Line s # c5 @ c) @ inp w2 \<and>
          (Interrupt \<in> set (Line s # c5 @ c) \<longrightarrow> r = Return None)"
        by simp
      then show ?thesis by blast
    qed
  qed
  have nil: "\<exists>c. inp v = c @ inp v \<and> (Interrupt \<in> set c \<longrightarrow> r = Return None)" for v :: world
    by (rule exI [of _ "[]"]) simp
  show ?case
  proof (cases rule: choose_product_name_cases [of w ratio])
    case (blocked w1)
    with res safe_input_reads [OF blocked(1)] show ?thesis by auto
  next
    case (interrupt w1)
    with res safe_input_reads [OF interrupt(1)] show ?thesis by auto
  next
    case (raise e w1)
    with res safe_input_reads [OF raise(1)] show ?thesis by auto
  next
    case (cancel s w1)
    with res safe_input_reads [OF cancel(1)] show ?thesis by auto
  next
    case (exact s w1)
    with res safe_input_reads [OF exact(1)] show ?thesis by auto
  next
    case (nomatch s w1 m)
    from safe_input_reads [OF nomatch(1)] have i: "inp w = Line s # inp w1" by simp
    then have "length (inp (print m w1)) < length (inp w)" by simp
    from less(1) [OF this] res nomatch(6)
    obtain c where "inp w1 = c @ inp w2" "Interrupt \<in> set c \<longrightarrow> r = Return None"
      by auto
    with i have "inp w = (Line s # c) @ inp w2 \<and>
        (Interrupt \<in> set (Line s # c) \<longrightarrow> r = Return None)"
      by simp
    then show ?thesis by blast
  next
    case (choice_blocked s w1 matches w5)
    from safe_input_reads [OF choice_blocked(1)] have i: "inp w = Line s # inp w1" by simp
    from res choice_blocked(8) have "w2 = w5" by simp
    with step [OF i choice_blocked(7)] nil [of w5] show ?thesis by simp
  next
    case (choice_interrupt s w1 matches w5)
    from safe_input_reads [OF choice_interrupt(1)] have i: "inp w = Line s # inp w1" by simp
    from res choice_interrupt(8) have "inp w2 = inp w5" "r = Return None" by auto
    with step [OF i choice_interrupt(7)] show ?thesis by simp
  next
    case (choice_raise s w1 matches e w5)
    from safe_input_reads [OF choice_raise(1)] have i: "inp w = Line s # inp w1" by simp
    from res choice_raise(9) have "w2 = w5" by simp
    with step [OF i choice_raise(7)] choice_raise(8) nil [of w5] show ?thesis by simp
  next
    case (choice_zero s w1 matches w5)
    from safe_input_reads [OF choice_zero(1)] have i: "inp w = Line s # inp w1" by simp
    from read_positive_int_inp_le [OF choice_zero(7)] i
    have "length (inp w5) < length (inp w)" by simp
    from less(1) [OF this] res choice_zero(8)
    have "\<exists>c. inp w5 = c @ inp w2 \<and> (Interrupt \<in> set c \<longrightarrow> r = Return None)"
      by simp
    with step [OF i choice_zero(7)] show ?thesis by simp
  next
    case (choice s w1 matches c w5)
    from safe_input_reads [OF choice(1)] have i: "inp w = Line s # inp w1" by simp
    from res choice(9) have "w2 = w5" by (auto split: sum.splits)
    with step [OF i choice(7)] nil [of w5] show ?thesis by simp
  qed
qed

lemma add_product_cases [case_names early asked commit]:
  obtains r1 w1 where "choose_product_name ratio w = (r1, w1)"
      "stock (snd (add_product ratio w)) = stock w" "cart (snd (add_product ratio w)) = cart w"
      "inp (snd (add_product ratio w)) = inp w1"
      "r1 = Return None \<longrightarrow> fst (add_product ratio w) = Return ()"
  | product data r2 w1 w2 where
      "choose_product_name ratio w = (Return (Some product), w1)" "product \<noteq> []"
      "map_of (stock w) product = Some data" "0 < quantity data"
      "read_positive_int (quantity_prompt (quantity data)) 1 None w1 = (r2, w2)"
      "stock (snd (add_product ratio w)) = stock w" "cart (snd (add_product ratio w)) = cart w"
      "inp (snd (add_product ratio w)) = inp w2"
      "r2 = Raise KeyboardInterrupt \<longrightarrow> fst (add_product ratio w) = Return ()"
  | product data q w1 w2 where
      "choose_product_name ratio w = (Return (Some product), w1)" "product \<noteq> []"
      "map_of (stock w) product = Some data" "0 < quantity data"
      "read_positive_int (quantity_prompt (quantity data)) 1 None w1 = (Return q, w2)"
      "q \<le> quantity data"
proof -
  obtain r1 w1 where cp: "choose_product_name ratio w = (r1, w1)"
    by (cases "choose_product_name ratio w")
  from choose_product_name_io [OF cp] have f1: "stock w1 = stock w" "cart w1 = cart w"
    by (simp_all add: io_only_def)
  have ex: "stock (snd (add_product_except e v)) = stock v"
           "cart (snd (add_product_except e v)) = cart v"
           "inp (snd (add_product_except e v)) = inp v"
           "fst (add_product_except KeyboardInterrupt v) = Return ()" for e v
    by (simp_all add: add_product_except_def)
  note early = that(1) [OF cp]
  show thesis
  proof (cases r1)
    case Blocked
    with cp f1 early show thesis by (simp add: add_product_early)
  next
    case (Raise e)
    with cp f1 early show thesis by (simp add: add_product_early ex)
  next
    case (Return po)
    show thesis
    proof (cases po)
      case None
      with cp Return f1 early show thesis by (simp add: add_product_early)
    next
      case (Some product)
      note cp' = cp [unfolded Return Some]
      show thesis
      proof (cases "product = []")
        case True
        with cp' f1 early Return Some show thesis by (simp add: add_product_early)
      next
        case ne: False
        show thesis
        proof (cases "map_of (stock w1) product")
          case None
          from add_product_lookup(1) [OF cp' ne None] f1 early Return Some show thesis
            by (simp add: ex)
        next
          case (Some data)
          show thesis
          proof (cases "0 < quantity data")
            case False
            then have "quantity data \<le> 0" by simp
            from add_product_lookup(2) [OF cp' ne Some this] f1 early Return show thesis
              by simp
          next
            case pos: True
            obtain r2 w2 where
              rq: "read_positive_int (quantity_prompt (quantity data)) 1 None w1 = (r2, w2)"
              by (cases "read_positive_int (quantity_prompt (quantity data)) 1 None w1")
            from read_positive_int_io [OF rq] f1 have f2: "stock w2 = stock w" "cart w2 = cart w"
              by (simp_all add: io_only_def)
            from Some f1 have data: "map_of (stock w) product = Some data" by simp
            note asked = that(2) [OF cp' ne data pos rq]
            show thesis
            proof (cases r2)
              case Blocked
              from add_product_lookup(3) [OF cp' ne Some pos rq [unfolded Blocked]] f2 asked
              show thesis by (simp add: Blocked)
            next
              case (Raise e)
              from add_product_lookup(4) [OF cp' ne Some pos rq [unfolded Raise]] f2 asked
              show thesis by (cases "e = KeyboardInterrupt") (simp_all add: ex Raise)
            next
              case (Return q)
              note rq' = rq [unfolded Return]
              show thesis
              proof (cases "q \<le> quantity data")
                case True
                from that(3) [OF cp' ne data pos rq' True] show thesis .
              next
                case False
                then have "quantity data < q" by simp
                from add_product_reject [OF cp' ne data pos rq' this] f2 asked
                show thesis by (simp add: Return)
              qed
            qed
          qed
        qed
      qed
    qed
  qed
qed

lemma add_product_cart_grows: "prefix (cart w) (cart (snd (add_product ratio w)))"
proof (cases rule: add_product_cases [of ratio w])
  case (commit product data q w1 w2)
  from add_product_commit [OF commit] show ?thesis by simp
qed simp_all

lemma prices_update:
  "map_of st k = Some d \<Longrightarrow> price d2 = price d \<Longrightarrow> prices (AList.update k d2 st) = prices st"
  by (induction st) (auto simp: prices_def)

lemma quantities_update:
  "\<forall>e \<in> set st. 0 \<le> quantity (snd e) \<Longrightarrow> 0 \<le> quantity d2 \<Longrightarrow>
     \<forall>e \<in> set (AList.update k d2 st). 0 \<le> quantity (snd e)"
  by (induction st) auto

lemma add_product_catalog:
  assumes "catalog_ok (stock w)"
  shows "catalog_ok (stock (snd (add_product ratio w)))"
proof (cases rule: add_product_cases [of ratio w])
  case (commit product data q w1 w2)
  from add_product_commit [OF commit]
  have "stock (snd (add_product ratio w)) =
      AList.update product (data\<lparr>quantity := quantity data - q\<rparr>) (stock w)"
    by simp
  moreover from commit(6) have "0 \<le> quantity (data\<lparr>quantity := quantity data - q\<rparr>)"
    by simp
  ultimately show ?thesis
    using assms commit(3)
      quantities_update [of "stock w" "data\<lparr>quantity := quantity data - q\<rparr>" product]
    by (simp add: catalog_ok_def prices_update)
qed (use assms in simp_all)

lemma after_handler_stock: "stock (snd (after_handler rw)) = stock (snd rw)"
  by (cases rw) (auto simp: after_handler_def menu_except_def split: outcome.splits)

lemma menu_shown_sel [simp]:
  "stock (menu_shown w) = stock w" "cart (menu_shown w) = cart w" "inp (menu_shown w) = inp w"
  by (simp_all add: menu_shown_def)

lemma option_read_sel [simp]:
  "stock (option_read w es) = stock w" "cart (option_read w es) = cart w"
  "inp (option_read w es) = es"
  by (simp_all add: option_read_def)

lemma safe_input_option:
  "inp w = [] \<Longrightarrow> safe_input ''Choose an option: '' (menu_shown w) =
     (Blocked, (menu_shown w)\<lparr>out := out (menu_shown w) @ [Prompt ''Choose an option: '']\<rparr>)"
  "inp w = Line s # es \<Longrightarrow>
     safe_input ''Choose an option: '' (menu_shown w) = (Return s, option_read w es)"
  "inp w = Interrupt # es \<Longrightarrow>
     safe_input ''Choose an option: '' (menu_shown w) = (Raise KeyboardInterrupt, option_read w es)"
  "inp w = Eof # es \<Longrightarrow>
     safe_input ''Choose an option: '' (menu_shown w) = (Raise EOFError, option_read w es)"
  by (simp_all add: safe_input_def option_read_def)

lemma menu_iteration_Nil:
  "inp w = [] \<Longrightarrow> menu_iteration ratio w =
     (Blocked, (menu_shown w)\<lparr>out := out (menu_shown w) @ [Prompt ''Choose an option: '']\<rparr>)"
  unfolding menu_iteration_def menu_shown_def [symmetric] Let_def
  by (simp only: safe_input_option prod.case outcome.case)

lemma menu_iteration_Raise:
  "inp w = Interrupt # es \<Longrightarrow>
     menu_iteration ratio w = (Return Running, menu_except KeyboardInterrupt (option_read w es))"
  "inp w = Eof # es \<Longrightarrow>
     menu_iteration ratio w = (Return Running, menu_except EOFError (option_read w es))"
  unfolding menu_iteration_def menu_shown_def [symmetric] Let_def
  by (simp_all only: safe_input_option prod.case outcome.case)

lemma menu_iteration_Line:
  "inp w = Line s # es \<Longrightarrow> menu_iteration ratio w =
     (if strip s = ''1'' then after_handler (show_stock (option_read w es))
      else if strip s = ''2'' then after_handler (add_product ratio (option_read w es))
      else if strip s = ''3'' then after_handler (show_total (option_read w es))
      else if strip s = ''4'' then after_handler (show_stock (option_read w es))
      else if strip s = ''0'' then (Return Exiting, print ''Exiting system...'' (option_read w es))
      else (Return Running, print ''Invalid option! Try again.'' (option_read w es)))"
  unfolding menu_iteration_def menu_shown_def [symmetric] Let_def
  by (simp only: safe_input_option prod.case outcome.case)

lemma show_frame_stock:
  "stock (snd (show_stock v)) = stock v" "stock (snd (show_total v)) = stock v"
  using show_stock_frame [of v "fst (show_stock v)" "snd (show_stock v)"]
    show_total_frame [of v "fst (show_total v)" "snd (show_total v)"]
  by simp_all

lemma menu_iteration_stock:
  "stock (snd (menu_iteration ratio w)) = stock w \<or>
   (\<exists>es. stock (snd (menu_iteration ratio w)) = stock (snd (add_product ratio (option_read w es))))"
proof (cases "inp w")
  case Nil
  then show ?thesis by (simp add: menu_iteration_Nil)
next
  case (Cons e es)
  show ?thesis
  proof (cases e)
    case (Line s)
    note eq = menu_iteration_Line [OF Cons [unfolded Line], of ratio]
    consider "strip s = ''2''" | "strip s \<noteq> ''2''" by blast
    then show ?thesis
    proof cases
      case 1
      then have "menu_iteration ratio w = after_handler (add_product ratio (option_read w es))"
        by (simp add: eq)
      then show ?thesis by (auto simp: after_handler_stock)
    next
      case 2
      then have "stock (snd (menu_iteration ratio w)) = stock w"
        unfolding eq by (simp add: after_handler_stock show_frame_stock)
      then show ?thesis by simp
    qed
  next
    case Interrupt
    with Cons show ?thesis
      by (simp add: menu_iteration_Raise menu_except_def)
  next
    case Eof
    with Cons show ?thesis
      by (simp add: menu_iteration_Raise menu_except_def)
  qed
qed

lemma menu_iteration_catalog:
  assumes "catalog_ok (stock w)"
  shows "catalog_ok (stock (snd (menu_iteration ratio w)))"
  using menu_iteration_stock [of ratio w] assms add_product_catalog [of "option_read w es" ratio for es]
  by auto

lemma menu_catalog:
  "catalog_ok (stock w) \<Longrightarrow> catalog_ok (stock (snd (menu ratio w)))"
proof (induction ratio w rule: menu.induct)
  case (1 ratio w)
  obtain r w1 where it: "menu_iteration ratio w = (r, w1)"
    by (cases "menu_iteration ratio w")
  from menu_iteration_catalog [OF 1(2), of ratio] it have ok1: "catalog_ok (stock w1)"
    by simp
  show ?case
  proof (cases r)
    case (Return st)
    show ?thesis
    proof (cases st)
      case Running
      from 1(1) [OF it [symmetric] Return Running ok1] it Return Running show ?thesis
        by (simp add: menu.simps [of ratio w])
    next
      case Exiting
      with it Return ok1 show ?thesis by (simp add: menu.simps [of ratio w])
    qed
  next
    case (Raise e)
    with it ok1 show ?thesis by (simp add: menu.simps [of ratio w])
  next
    case Blocked
    with it ok1 show ?thesis by (simp add: menu.simps [of ratio w])
  qed
qed

lemma main_stock: "stock (snd (main ratio w)) = stock (snd (menu ratio w))"
proof -
  obtain r w1 where m: "menu ratio w = (r, w1)" by (cases "menu ratio w")
  show ?thesis by (cases r) (simp_all add: main_def m)
qed

lemma catalog_ok_initial: "catalog_ok initial_stock"
  by (simp add: catalog_ok_def initial_stock_def)

lemma after_handler_simps:
  "after_handler (Return u, v) = (Return Running, v)"
  "after_handler (Raise e, v) = (Return Running, menu_except e v)"
  "after_handler (Blocked, v) = (Blocked, v)"
  by (simp_all add: after_handler_def)

lemma after_handler_fst:
  "fst (after_handler rw) = Return Running \<or> fst (after_handler rw) = Blocked"
  by (cases rw) (auto simp: after_handler_def split: outcome.splits)

lemma menu_iteration_fst:
  "fst (menu_iteration ratio w) = Return Running \<or> fst (menu_iteration ratio w) = Return Exiting \<or>
   fst (menu_iteration ratio w) = Blocked"
proof (cases "inp w")
  case Nil
  then show ?thesis by (simp add: menu_iteration_Nil)
next
  case (Cons e es)
  show ?thesis
  proof (cases e)
    case (Line s)
    note eq = menu_iteration_Line [OF Cons [unfolded Line], of ratio]
    show ?thesis
      unfolding eq
      using after_handler_fst [of "show_stock (option_read w es)"]
        after_handler_fst [of "add_product ratio (option_read w es)"]
        after_handler_fst [of "show_total (option_read w es)"]
      by auto
  next
    case Interrupt
    with Cons show ?thesis by (simp add: menu_iteration_Raise)
  next
    case Eof
    with Cons show ?thesis by (simp add: menu_iteration_Raise)
  qed
qed

lemma menu_iteration_Exiting:
  assumes "menu_iteration ratio w = (Return Exiting, w1)"
  shows "\<exists>s es. inp w = Line s # es \<and> strip s = ''0'' \<and>
           w1 = print ''Exiting system...'' (option_read w es)"
proof (cases "inp w")
  case Nil
  with assms show ?thesis by (simp add: menu_iteration_Nil)
next
  case (Cons e es)
  show ?thesis
  proof (cases e)
    case (Line s)
    note eq = menu_iteration_Line [OF Cons [unfolded Line], of ratio]
    have nh: "after_handler rw \<noteq> (Return Exiting, w1)" for rw
      using after_handler_fst [of rw] by (cases "after_handler rw") auto
    from assms [unfolded eq] nh Cons Line show ?thesis
      by (simp split: if_splits)
  next
    case Interrupt
    with Cons assms show ?thesis by (simp add: menu_iteration_Raise)
  next
    case Eof
    with Cons assms show ?thesis by (simp add: menu_iteration_Raise)
  qed
qed

lemma menu_result:
  "fst (menu ratio w) = Blocked \<or>
   (fst (menu ratio w) = Return () \<and>
    (\<exists>v s es. inp v = Line s # es \<and> strip s = ''0'' \<and>
       snd (menu ratio w) = print ''Exiting system...'' (option_read v es)))"
proof (induction ratio w rule: menu.induct)
  case (1 ratio w)
  obtain r w1 where it: "menu_iteration ratio w = (r, w1)"
    by (cases "menu_iteration ratio w")
  from menu_iteration_fst [of ratio w] it
  consider "r = Return Running" | "r = Return Exiting" | "r = Blocked" by auto
  then show ?case
  proof cases
    case 1
    with it have "menu ratio w = menu ratio w1" by (simp add: menu.simps [of ratio w])
    with "1.IH" [OF it [symmetric] 1 refl] show ?thesis by simp
  next
    case 2
    with it have m: "menu ratio w = (Return (), w1)" by (simp add: menu.simps [of ratio w])
    from menu_iteration_Exiting [OF it [unfolded 2]] m show ?thesis by auto
  next
    case 3
    with it show ?thesis by (simp add: menu.simps [of ratio w])
  qed
qed

lemma main_fst: "fst (main ratio w) = fst (menu ratio w)"
proof -
  obtain r w1 where m: "menu ratio w = (r, w1)" by (cases "menu ratio w")
  from menu_result [of ratio w] m show ?thesis
    by (cases r) (simp_all add: main_def)
qed

lemma name_read_sel [simp]:
  "stock (name_read w es) = stock w" "cart (name_read w es) = cart w" "inp (name_read w es) = es"
  "out (name_read w es) = out w @ [Prompt ''Enter the product name (or 0 to cancel): '']"
  by (simp_all add: name_read_def prompted_def)

lemma safe_input_name:
  "inp w = Line s # es \<Longrightarrow>
     safe_input ''Enter the product name (or 0 to cancel): '' w = (Return s, name_read w es)"
  by (simp add: name_read_def safe_input_Line)

lemma close_matches_name_read [simp]:
  "close_matches ratio product (name_read w es) = close_matches ratio product w"
  by (simp add: close_matches_def)

lemma print_suggestions_out:
  "out (print_suggestions i ms w) =
     out w @ map (\<lambda>jm. Print (str_int (i + int (fst jm)) @ '') '' @ capitalize (snd jm)))
               (enumerate 0 ms)"
proof (induction ms arbitrary: i w)
  case Nil
  show ?case by simp
next
  case (Cons m ms)
  have "map (\<lambda>jm. Print (str_int (i + int (fst jm)) @ '') '' @ capitalize (snd jm)))
          (enumerate (Suc 0) ms)
      = map (\<lambda>jm. Print (str_int (i + 1 + int (fst jm)) @ '') '' @ capitalize (snd jm)))
          (enumerate 0 ms)"
    by (simp add: enumerate_Suc_eq [of 0] comp_def add.assoc)
  with Cons [of "i + 1"] show ?case by simp
qed

lemma offered_out:
  "out (offered ms w) =
     out w @ Print (CHR 0x0A # ''Product not found. Did you mean:'') # map suggestion (enumerate 0 ms)
       @ [Print ''0) None of these (type again)'']"
  by (simp add: offered_def print_suggestions_out suggestion_def add.commute)

lemma get_close_matches_length: "length (get_close_matches ratio word ps n cutoff) \<le> n"
  by (simp add: get_close_matches_def)

lemma get_close_matches_set:
  "set (get_close_matches ratio word ps n cutoff) \<subseteq> {x \<in> set ps. cutoff \<le> ratio x word}"
proof -
  have "set (take n (rev (sort
       (map (\<lambda>x. (ratio x word, x)) (filter (\<lambda>x. cutoff \<le> ratio x word) ps)))))
      \<subseteq> set (map (\<lambda>x. (ratio x word, x)) (filter (\<lambda>x. cutoff \<le> ratio x word) ps))"
    using set_take_subset [of n "rev (sort
       (map (\<lambda>x. (ratio x word, x)) (filter (\<lambda>x. cutoff \<le> ratio x word) ps)))"]
    by simp
  then show ?thesis
    unfolding get_close_matches_def by auto
qed

lemma sort_eq_Nil: "(sort xs = []) = (xs = [])"
  by (cases xs) simp_all

lemma get_close_matches_Nil:
  "(get_close_matches ratio word ps n cutoff = []) =
     (n = 0 \<or> (\<forall>x \<in> set ps. \<not> cutoff \<le> ratio x word))"
  by (auto simp: get_close_matches_def filter_empty_conv sort_eq_Nil)

lemma get_close_matches_best:
  assumes k: "k \<in> set ps" "cutoff \<le> ratio k word"
    and out: "k \<notin> set (get_close_matches ratio word ps n cutoff)"
    and m: "m \<in> set (get_close_matches ratio word ps n cutoff)"
  shows "ratio k word \<le> ratio m word"
proof -
  let ?scored = "map (\<lambda>x. (ratio x word, x)) (filter (\<lambda>x. cutoff \<le> ratio x word) ps)"
  let ?sd = "rev (sort ?scored)"
  have desc: "sorted_wrt (\<lambda>a b. b \<le> a) ?sd"
    by (simp add: sorted_wrt_rev)
  have split: "?sd = take n ?sd @ drop n ?sd" by simp
  from desc have ord: "\<forall>a \<in> set (take n ?sd). \<forall>b \<in> set (drop n ?sd). b \<le> a"
    by (subst (asm) split) (simp only: sorted_wrt_append, blast)
  have form: "\<forall>p \<in> set ?sd. fst p = ratio (snd p) word"
    by auto
  from k have "(ratio k word, k) \<in> set ?sd" by auto
  then have "(ratio k word, k) \<in> set (take n ?sd) \<or> (ratio k word, k) \<in> set (drop n ?sd)"
    by (subst (asm) split) (simp only: set_append Un_iff)
  moreover from out have "(ratio k word, k) \<notin> set (take n ?sd)"
    unfolding get_close_matches_def by force
  ultimately have kd: "(ratio k word, k) \<in> set (drop n ?sd)" by blast
  from m obtain p where p: "p \<in> set (take n ?sd)" "snd p = m"
    unfolding get_close_matches_def by auto
  from p(1) have "p \<in> set ?sd" by (rule in_set_takeD)
  with form p(2) have pm: "p = (ratio m word, m)" by (cases p) auto
  from ord p(1) kd have "(ratio k word, k) \<le> p" by blast
  with pm show ?thesis by (auto simp: less_eq_prod_def)
qed

lemma lower_simps [simp]: "lower [] = []" "lower ''0'' = ''0''"
  by (simp_all add: lower_def lower_char_def)

lemma choose_exact:
  assumes i: "inp w = Line s # es"
    and "lower (strip s) \<in> set (map fst (stock w))"
    and "lower (strip s) \<noteq> ''0''" "lower (strip s) \<noteq> []"
  shows "choose_product_name ratio w = (Return (Some (lower (strip s))), name_read w es)"
proof (cases rule: choose_product_name_cases [of w ratio])
qed (use safe_input_name [OF i] assms in auto)

lemma choose_cancel:
  assumes i: "inp w = Line s # es"
    and "lower (strip s) = [] \<or> lower (strip s) = ''0''"
  shows "choose_product_name ratio w = (Return None, name_read w es)"
proof (cases rule: choose_product_name_cases [of w ratio])
qed (use safe_input_name [OF i] assms in auto)

lemma choose_nomatch:
  assumes i: "inp w = Line s # es"
    and "lower (strip s) \<notin> set (map fst (stock w))"
    and "lower (strip s) \<noteq> ''0''" "lower (strip s) \<noteq> []"
    and "close_matches ratio (lower (strip s)) w = []"
  shows "choose_product_name ratio w =
     choose_product_name ratio
       (print (''Product not found and no suggestions. ''
               @ ''Use 'Show stock' to see available products.'') (name_read w es))"
  using assms
  by (subst choose_product_name.simps)
     (simp add: safe_input_name [OF i] Let_def close_matches_def)

lemma py_index_in_range:
  "1 \<le> c \<Longrightarrow> c \<le> int (length xs) \<Longrightarrow> py_index xs (c - 1) = Inr (xs ! nat (c - 1))"
  by (simp add: py_index_def)

lemma choose_offer:
  assumes i: "inp w = Line s # es"
    and notin: "lower (strip s) \<notin> set (map fst (stock w))"
    and nc: "lower (strip s) \<noteq> ''0''" "lower (strip s) \<noteq> []"
    and ms: "close_matches ratio (lower (strip s)) w \<noteq> []"
    and rq: "read_positive_int ''Choose an option: '' 0
          (Some (int (length (close_matches ratio (lower (strip s)) w))))
          (offered (close_matches ratio (lower (strip s)) w) (name_read w es)) = (Return c, w5)"
  shows "0 \<le> c \<and> c \<le> int (length (close_matches ratio (lower (strip s)) w)) \<and>
     (c = 0 \<longrightarrow> choose_product_name ratio w = choose_product_name ratio w5) \<and>
     (c \<noteq> 0 \<longrightarrow> choose_product_name ratio w =
        (Return (Some (close_matches ratio (lower (strip s)) w ! nat (c - 1))), w5))"
proof -
  from read_positive_int_range [OF rq]
  have range: "0 \<le> c" "c \<le> int (length (close_matches ratio (lower (strip s)) w))"
    by simp_all
  note si = safe_input_name [OF i]
  have z: "choose_product_name ratio w = choose_product_name ratio w5" if "c = 0"
  proof (cases rule: choose_product_name_cases [of w ratio])
  qed (use si notin nc ms rq that in auto)
  have nz: "choose_product_name ratio w =
        (Return (Some (close_matches ratio (lower (strip s)) w ! nat (c - 1))), w5)" if "c \<noteq> 0"
  proof (cases rule: choose_product_name_cases [of w ratio])
    case (choice s' w1 matches c' w5')
    with si rq have "c' = c" "w5' = w5" "matches = close_matches ratio (lower (strip s)) w"
      by auto
    with choice(9) range that show ?thesis
      by (simp add: py_index_in_range)
  qed (use si notin nc ms rq that in auto)
  from range z nz show ?thesis by blast
qed

lemma catalog_ok_keys:
  assumes "catalog_ok st"
  shows "map fst st = [''rice'', ''beans'', ''pasta'', ''oil'']"
proof -
  have "map fst st = map fst (prices st)"
    by (simp add: prices_def comp_def)
  also from assms have "\<dots> = map fst (prices initial_stock)"
    by (simp add: catalog_ok_def)
  also have "\<dots> = [''rice'', ''beans'', ''pasta'', ''oil'']"
    by (simp add: prices_def initial_stock_def)
  finally show ?thesis .
qed

lemma seed_keys_lower:
  "k \<in> set [''rice'', ''beans'', ''pasta'', ''oil''] \<Longrightarrow> lower k = k \<and> k \<noteq> ''0'' \<and> k \<noteq> []"
  by (auto simp: lower_def lower_char_def)

lemma safe_input_Blocked: "safe_input prompt w = (Blocked, w1) \<Longrightarrow> inp w1 = []"
  by (auto simp: safe_input_def Let_def split: list.splits event.splits)

lemma read_positive_int_Blocked:
  "read_positive_int prompt minimum maximum w = (Blocked, w2) \<Longrightarrow> inp w2 = []"
proof (induction "length (inp w)" arbitrary: w rule: less_induct)
  case less
  note res = less(2)
  show ?case
  proof (cases rule: read_positive_int_cases [of prompt w minimum maximum])
    case (blocked w1)
    with res safe_input_Blocked [OF blocked(1)] show ?thesis by simp
  next
    case (retry s w1 m)
    from retry(1) have "length (inp (print m w1)) < length (inp w)"
      by (auto dest: safe_input_inp)
    from less(1) [OF this] res retry(2) show ?thesis by simp
  qed (use res in simp_all)
qed

lemma choose_product_name_Blocked:
  "choose_product_name ratio w = (Blocked, w2) \<Longrightarrow> inp w2 = []"
proof (induction "length (inp w)" arbitrary: w rule: less_induct)
  case less
  note res = less(2)
  show ?case
  proof (cases rule: choose_product_name_cases [of w ratio])
    case (blocked w1)
    with res safe_input_Blocked [OF blocked(1)] show ?thesis by simp
  next
    case (nomatch s w1 m)
    from nomatch(1) have "length (inp (print m w1)) < length (inp w)"
      by (auto dest: safe_input_inp)
    from less(1) [OF this] res nomatch(6) show ?thesis by simp
  next
    case (choice_blocked s w1 matches w5)
    with res read_positive_int_Blocked [OF choice_blocked(7)] show ?thesis by simp
  next
    case (choice_zero s w1 matches w5)
    from choice_zero(1,7) have "length (inp w5) < length (inp w)"
      by (auto dest!: safe_input_inp read_positive_int_inp_le)
    from less(1) [OF this] res choice_zero(8) show ?thesis by simp
  next
    case (choice s w1 matches c w5)
    with res show ?thesis by (auto split: sum.splits)
  qed (use res in simp_all)
qed

lemma add_product_Blocked:
  assumes "add_product ratio w = (Blocked, w2)"
  shows "inp w2 = []"
proof -
  obtain r1 w1 where cp: "choose_product_name ratio w = (r1, w1)"
    by (cases "choose_product_name ratio w")
  have ex: "add_product_except e v \<noteq> (Blocked, u)" "(Blocked, u) \<noteq> add_product_except e v"
    for e v u
    by (simp_all add: add_product_except_def)
  show ?thesis
  proof (cases r1)
    case Blocked
    with cp assms choose_product_name_Blocked [of ratio w w1] show ?thesis
      by (simp add: add_product_early)
  next
    case (Raise e)
    with cp assms ex show ?thesis by (simp add: add_product_early)
  next
    case (Return po)
    show ?thesis
    proof (cases po)
      case None
      with cp Return assms show ?thesis by (simp add: add_product_early)
    next
      case (Some product)
      note cp' = cp [unfolded Return Some]
      show ?thesis
      proof (cases "product = []")
        case True
        with cp' assms show ?thesis by (simp add: add_product_early)
      next
        case ne: False
        show ?thesis
        proof (cases "map_of (stock w1) product")
          case None
          from add_product_lookup(1) [OF cp' ne None] assms ex
          show ?thesis by simp
        next
          case (Some data)
          show ?thesis
          proof (cases "0 < quantity data")
            case False
            then have "quantity data \<le> 0" by simp
            from add_product_lookup(2) [OF cp' ne Some this] assms show ?thesis by simp
          next
            case pos: True
            obtain r2 w3 where
              rq: "read_positive_int (quantity_prompt (quantity data)) 1 None w1 = (r2, w3)"
              by (cases "read_positive_int (quantity_prompt (quantity data)) 1 None w1")
            from choose_product_name_io [OF cp'] Some
            have data: "map_of (stock w) product = Some data" by (simp add: io_only_def)
            show ?thesis
            proof (cases r2)
              case Blocked
              from add_product_lookup(3) [OF cp' ne Some pos rq [unfolded Blocked]] assms
                read_positive_int_Blocked [OF rq [unfolded Blocked]]
              show ?thesis by simp
            next
              case (Raise e)
              from add_product_lookup(4) [OF cp' ne Some pos rq [unfolded Raise]] assms ex
              show ?thesis by simp
            next
              case (Return q)
              note rq' = rq [unfolded Return]
              show ?thesis
              proof (cases "q \<le> quantity data")
                case True
                from add_product_commit [OF cp' ne data pos rq' True] assms show ?thesis
                  by simp
              next
                case False
                then have "quantity data < q" by simp
                from add_product_reject [OF cp' ne data pos rq' this] assms show ?thesis
                  by simp
              qed
            qed
          qed
        qed
      qed
    qed
  qed
qed

lemma show_stock_loop_not_Blocked: "fst (show_stock_loop ks w) \<noteq> Blocked"
  by (induction ks arbitrary: w) (auto split: option.splits)

lemma show_not_Blocked: "fst (show_stock w) \<noteq> Blocked" "fst (show_total w) \<noteq> Blocked"
  by (simp_all add: show_stock_def show_total_def Let_def show_stock_loop_not_Blocked
        split: prod.splits)

lemma after_handler_Blocked:
  "after_handler rw = (Blocked, w1) \<Longrightarrow> rw = (Blocked, w1)"
  by (cases rw) (auto simp: after_handler_def split: outcome.splits)

lemma menu_iteration_Blocked:
  assumes "menu_iteration ratio w = (Blocked, w1)"
  shows "inp w1 = []"
proof (cases "inp w")
  case Nil
  with assms show ?thesis by (auto simp: menu_iteration_Nil)
next
  case (Cons e es)
  show ?thesis
  proof (cases e)
    case (Line s)
    note eq = menu_iteration_Line [OF Cons [unfolded Line], of ratio]
    from assms [unfolded eq] show ?thesis
      using show_not_Blocked [of "option_read w es"]
      by (auto split: if_splits dest!: after_handler_Blocked add_product_Blocked)
  next
    case Interrupt
    with Cons assms show ?thesis by (simp add: menu_iteration_Raise)
  next
    case Eof
    with Cons assms show ?thesis by (simp add: menu_iteration_Raise)
  qed
qed

lemma menu_Blocked: "fst (menu ratio w) = Blocked \<Longrightarrow> inp (snd (menu ratio w)) = []"
proof (induction ratio w rule: menu.induct)
  case (1 ratio w)
  obtain r w1 where it: "menu_iteration ratio w = (r, w1)"
    by (cases "menu_iteration ratio w")
  from menu_iteration_fst [of ratio w] it
  consider "r = Return Running" | "r = Return Exiting" | "r = Blocked" by auto
  then show ?case
  proof cases
    case 1
    with it have "menu ratio w = menu ratio w1" by (simp add: menu.simps [of ratio w])
    with "1.IH" [OF it [symmetric] 1 refl] "1.prems" show ?thesis by simp
  next
    case 2
    with it "1.prems" show ?thesis by (simp add: menu.simps [of ratio w])
  next
    case 3
    with it menu_iteration_Blocked [of ratio w w1] show ?thesis
      by (simp add: menu.simps [of ratio w])
  qed
qed

lemma add_product_suffix: "suffix (inp (snd (add_product ratio w))) (inp w)"
proof (cases rule: add_product_cases [of ratio w])
  case (early r1 w1)
  with choose_product_name_io [OF early(1)] show ?thesis by (simp add: io_only_def)
next
  case (asked product data r2 w1 w2)
  with choose_product_name_io [OF asked(1)] read_positive_int_io [OF asked(5)] show ?thesis
    by (auto simp: io_only_def intro: suffix_order.trans)
next
  case (commit product data q w1 w2)
  from add_product_commit [OF commit] have "inp (snd (add_product ratio w)) = inp w2" by simp
  with choose_product_name_io [OF commit(1)] read_positive_int_io [OF commit(5)] show ?thesis
    by (auto simp: io_only_def intro: suffix_order.trans)
qed

lemma after_handler_inp_snd: "inp (snd (after_handler rw)) = inp (snd rw)"
  by (cases rw) (auto simp: after_handler_def menu_except_def split: outcome.splits)

lemma show_frame_inp:
  "inp (snd (show_stock v)) = inp v" "inp (snd (show_total v)) = inp v"
  using show_stock_frame [of v "fst (show_stock v)" "snd (show_stock v)"]
    show_total_frame [of v "fst (show_total v)" "snd (show_total v)"]
  by simp_all

lemma menu_iteration_suffix: "suffix (inp (snd (menu_iteration ratio w))) (inp w)"
proof (cases "inp w")
  case Nil
  then show ?thesis by (simp add: menu_iteration_Nil)
next
  case (Cons e es)
  show ?thesis
  proof (cases e)
    case (Line s)
    note eq = menu_iteration_Line [OF Cons [unfolded Line], of ratio]
    have "suffix (inp (snd (menu_iteration ratio w))) es"
      unfolding eq
      using add_product_suffix [of ratio "option_read w es"]
      by (simp add: after_handler_inp_snd show_frame_inp)
    with Cons show ?thesis by (simp add: suffix_Cons)
  next
    case Interrupt
    with Cons show ?thesis by (simp add: menu_iteration_Raise menu_except_def suffix_Cons)
  next
    case Eof
    with Cons show ?thesis by (simp add: menu_iteration_Raise menu_except_def suffix_Cons)
  qed
qed

lemma loop_head_suffix: "loop_head ratio w v \<Longrightarrow> suffix (inp v) (inp w)"
proof (induction rule: loop_head.induct)
  case (start w)
  show ?case by simp
next
  case (again w w1 v)
  from menu_iteration_suffix [of ratio w] again(1) have "suffix (inp w1) (inp w)" by simp
  with again(3) show ?case by (rule suffix_order.trans)
qed

lemma loop_head_menu: "loop_head ratio w v \<Longrightarrow> menu ratio w = menu ratio v"
  by (induction rule: loop_head.induct) (simp_all add: menu.simps [of ratio])

lemma menu_last:
  "fst (menu ratio w) = Return () \<Longrightarrow>
     \<exists>v. loop_head ratio w v \<and> menu_iteration ratio v = (Return Exiting, snd (menu ratio w))"
proof (induction ratio w rule: menu.induct)
  case (1 ratio w)
  obtain r w1 where it: "menu_iteration ratio w = (r, w1)"
    by (cases "menu_iteration ratio w")
  from menu_iteration_fst [of ratio w] it
  consider "r = Return Running" | "r = Return Exiting" | "r = Blocked" by auto
  then show ?case
  proof cases
    case 1
    with it have m: "menu ratio w = menu ratio w1" by (simp add: menu.simps [of ratio w])
    with "1.IH" [OF it [symmetric] 1 refl] "1.prems"
    obtain v where "loop_head ratio w1 v"
      "menu_iteration ratio v = (Return Exiting, snd (menu ratio w1))"
      by auto
    with it 1 m show ?thesis by (auto intro: loop_head.again)
  next
    case 2
    with it have "menu ratio w = (Return (), w1)" by (simp add: menu.simps [of ratio w])
    with it 2 show ?thesis by (auto intro: loop_head.start)
  next
    case 3
    with it "1.prems" show ?thesis by (simp add: menu.simps [of ratio w])
  qed
qed

lemma get_close_matches_length_eq:
  "length (get_close_matches ratio word ps n cutoff) =
     min n (length (filter (\<lambda>x. cutoff \<le> ratio x word) ps))"
  by (simp add: get_close_matches_def min.commute)

lemma get_close_matches_sorted:
  "sorted_wrt (\<lambda>a b. ratio b word \<le> ratio a word) (get_close_matches ratio word ps n cutoff)"
proof -
  let ?scored = "map (\<lambda>x. (ratio x word, x)) (filter (\<lambda>x. cutoff \<le> ratio x word) ps)"
  let ?sd = "rev (sort ?scored)"
  have "sorted_wrt (\<lambda>a b. b \<le> a) ?sd"
    by (simp add: sorted_wrt_rev)
  then have desc: "sorted_wrt (\<lambda>a b. b \<le> a) (take n ?sd)"
    by (rule sorted_wrt_take)
  have form: "\<forall>p \<in> set (take n ?sd). fst p = ratio (snd p) word"
    by (auto dest!: in_set_takeD)
  have "sorted_wrt (\<lambda>a b. ratio (snd b) word \<le> ratio (snd a) word) (take n ?sd)"
  proof (rule sorted_wrt_mono_rel [OF _ desc])
    fix a b
    assume "a \<in> set (take n ?sd)" "b \<in> set (take n ?sd)" "b \<le> a"
    with form have "fst a = ratio (snd a) word" "fst b = ratio (snd b) word" "fst b \<le> fst a"
      by (auto simp: less_eq_prod_def)
    then show "ratio (snd b) word \<le> ratio (snd a) word" by simp
  qed
  then show ?thesis
    unfolding get_close_matches_def by (simp add: sorted_wrt_map)
qed

lemma choose_interrupt:
  "inp w = Interrupt # es \<Longrightarrow>
     choose_product_name ratio w =
       (Return None, print (CHR 0x0A # ''Action cancelled by user.'') (name_read w es))"
  by (subst choose_product_name.simps) (simp add: safe_input_Interrupt name_read_def)

lemma choose_eof:
  "inp w = Eof # es \<Longrightarrow> choose_product_name ratio w = (Raise EOFError, name_read w es)"
  by (subst choose_product_name.simps) (simp add: safe_input_Eof name_read_def)

lemma choose_nil:
  "inp w = [] \<Longrightarrow>
     choose_product_name ratio w =
       (Blocked, w\<lparr>out := out w @ [Prompt ''Enter the product name (or 0 to cancel): '']\<rparr>)"
  by (subst choose_product_name.simps) (simp add: safe_input_Nil)

lemma choose_offer_interrupt:
  assumes i: "inp w = Line s # es"
    and notin: "lower (strip s) \<notin> set (map fst (stock w))"
    and nc: "lower (strip s) \<noteq> ''0''" "lower (strip s) \<noteq> []"
    and ms: "close_matches ratio (lower (strip s)) w \<noteq> []"
    and rq: "read_positive_int ''Choose an option: '' 0
          (Some (int (length (close_matches ratio (lower (strip s)) w))))
          (offered (close_matches ratio (lower (strip s)) w) (name_read w es))
          = (Raise KeyboardInterrupt, w5)"
  shows "choose_product_name ratio w =
     (Return None, print (CHR 0x0A # ''Action cancelled by user.'') w5)"
proof (cases rule: choose_product_name_cases [of w ratio])
qed (use safe_input_name [OF i] notin nc ms rq in auto)

section \<open>The claims\<close>

subsection \<open>Adding to the cart\<close>

text \<open>
  C1. When the resolver returns a product of the catalog whose available quantity \<open>a\<close> is
  positive and the quantity validator returns a requested quantity \<open>q \<le> a\<close> (it is at least
  1, see C6), \<^verbatim>\<open>add_product\<close> returns normally, the cart is the old cart with the one
  line (product, q, catalog price at that moment) at its end, and the catalog entry of the
  product has quantity \<open>a - q\<close> and its old price; the source appends first and decrements
  second, and nothing can fail in between. From the seed catalog, the inputs "rice" and "3" give
  the cart [(rice, 3, 5.50)], 7 rice in the catalog, and the checkout prints the total 16.50.
\<close>

theorem add_product_success:
  "(\<forall>ratio w product data q.
      fst (choose_product_name ratio w) = Return (Some product) \<and> product \<noteq> [] \<and>
      map_of (stock w) product = Some data \<and> 0 < quantity data \<and>
      fst (read_positive_int (quantity_prompt (quantity data)) 1 None
             (snd (choose_product_name ratio w))) = Return q \<and>
      q \<le> quantity data \<longrightarrow>
      fst (add_product ratio w) = Return () \<and>
      cart (snd (add_product ratio w)) = cart w @ [(product, q, price data)] \<and>
      stock (snd (add_product ratio w)) =
        AList.update product (data\<lparr>quantity := quantity data - q\<rparr>) (stock w) \<and>
      map_of (stock (snd (add_product ratio w))) product =
        Some \<lparr>price = price data, quantity = quantity data - q\<rparr>)
   \<and>
   (\<forall>ratio.
      cart (snd (add_product ratio (initial [Line ''rice'', Line ''3'']))) = [(''rice'', 3, 5.50)] \<and>
      map_of (stock (snd (add_product ratio (initial [Line ''rice'', Line ''3''])))) ''rice''
        = Some \<lparr>price = 5.50, quantity = 7\<rparr> \<and>
      last (out (snd (show_total (snd (add_product ratio (initial [Line ''rice'', Line ''3'']))))))
        = Print (CHR 0x0A # ''Total purchase value: '' @ CURRENCY @ '' 16.50''))"
proof (intro conjI allI impI, goal_cases)
  case (1 ratio w product data q)
  then show ?case
    using add_product_commit [of ratio w product "snd (choose_product_name ratio w)" data q
        "snd (read_positive_int (quantity_prompt (quantity data)) 1 None
               (snd (choose_product_name ratio w)))"]
    by (simp add: prod_eq_iff)
next
  case (2 ratio w product data q)
  then show ?case
    using add_product_commit [of ratio w product "snd (choose_product_name ratio w)" data q
        "snd (read_positive_int (quantity_prompt (quantity data)) 1 None
               (snd (choose_product_name ratio w)))"]
    by (simp add: prod_eq_iff)
next
  case (3 ratio w product data q)
  then show ?case
    using add_product_commit [of ratio w product "snd (choose_product_name ratio w)" data q
        "snd (read_positive_int (quantity_prompt (quantity data)) 1 None
               (snd (choose_product_name ratio w)))"]
    by (simp add: prod_eq_iff)
next
  case (4 ratio w product data q)
  then show ?case
    using add_product_commit [of ratio w product "snd (choose_product_name ratio w)" data q
        "snd (read_positive_int (quantity_prompt (quantity data)) 1 None
               (snd (choose_product_name ratio w)))"]
    by (simp add: prod_eq_iff map_of_update_same)
next
  case (5 ratio)
  then show ?case by code_simp
next
  case (6 ratio)
  then show ?case by code_simp
next
  case (7 ratio)
  then show ?case by code_simp
qed


theorem add_product_success_witness:
  "fst (choose_product_name (\<lambda>a b. 0) (initial [Line '' Beans'', Line ''2''])) = Return (Some ''beans'') \<and>
   ''beans'' \<noteq> [] \<and>
   map_of (stock (initial [Line '' Beans'', Line ''2''])) ''beans'' = Some \<lparr>price = 7.20, quantity = 8\<rparr> \<and>
   0 < quantity \<lparr>price = 7.20, quantity = 8\<rparr> \<and>
   fst (read_positive_int (quantity_prompt (quantity \<lparr>price = 7.20, quantity = 8\<rparr>)) 1 None
          (snd (choose_product_name (\<lambda>a b. 0) (initial [Line '' Beans'', Line ''2''])))) = Return 2 \<and>
   2 \<le> quantity \<lparr>price = 7.20, quantity = 8\<rparr> \<and>
   fst (add_product (\<lambda>a b. 0) (initial [Line '' Beans'', Line ''2''])) = Return () \<and>
   cart (snd (add_product (\<lambda>a b. 0) (initial [Line '' Beans'', Line ''2'']))) = [(''beans'', 2, 7.20)] \<and>
   map_of (stock (snd (add_product (\<lambda>a b. 0) (initial [Line '' Beans'', Line ''2''])))) ''beans''
     = Some \<lparr>price = 7.20, quantity = 6\<rparr>"
proof -
  have h: "fst (choose_product_name (\<lambda>a b. 0) (initial [Line '' Beans'', Line ''2''])) = Return (Some ''beans'') \<and>
   ''beans'' \<noteq> [] \<and>
   map_of (stock (initial [Line '' Beans'', Line ''2''])) ''beans'' = Some \<lparr>price = 7.20, quantity = 8\<rparr> \<and>
   0 < quantity \<lparr>price = 7.20, quantity = 8\<rparr> \<and>
   fst (read_positive_int (quantity_prompt (quantity \<lparr>price = 7.20, quantity = 8\<rparr>)) 1 None
          (snd (choose_product_name (\<lambda>a b. 0) (initial [Line '' Beans'', Line ''2''])))) = Return 2 \<and>
   2 \<le> quantity \<lparr>price = 7.20, quantity = 8\<rparr>"
    by code_simp
  from add_product_success [THEN conjunct1, rule_format, OF h] h show ?thesis
    by (simp add: initial_def map_of_update_same)
qed

text \<open>
  C2. For a product of the catalog with positive available quantity \<open>a\<close> and a requested
  quantity \<open>q\<close> that the validator returned: if \<open>q \<le> a\<close> the catalog quantity becomes
  \<open>a - q\<close>, which is strictly less than \<open>a\<close>; if \<open>q > a\<close> the request is refused, the last
  line printed shows the remaining count \<open>a\<close>, and catalog and cart are as before.
\<close>

theorem add_product_decrement_or_reject:
  "\<forall>ratio w product (data :: product) q.
      fst (choose_product_name ratio w) = Return (Some product) \<and> product \<noteq> [] \<and>
      map_of (stock w) product = Some data \<and> 0 < quantity data \<and>
      fst (read_positive_int (quantity_prompt (quantity data)) 1 None
             (snd (choose_product_name ratio w))) = Return q \<longrightarrow>
      (q \<le> quantity data \<longrightarrow>
         map_option quantity (map_of (stock (snd (add_product ratio w))) product)
           = Some (quantity data - q) \<and>
         quantity data - q < quantity data)
      \<and>
      (quantity data < q \<longrightarrow>
         fst (add_product ratio w) = Return () \<and>
         stock (snd (add_product ratio w)) = stock w \<and>
         cart (snd (add_product ratio w)) = cart w \<and>
         last (out (snd (add_product ratio w)))
           = Print (''Not enough stock. Only '' @ str_int (quantity data) @ '' left.''))"
proof (intro allI impI, elim conjE)
  fix ratio w product and data :: product and q
  let ?w1 = "snd (choose_product_name ratio w)"
  let ?rq = "read_positive_int (quantity_prompt (quantity data)) 1 None ?w1"
  assume cp: "fst (choose_product_name ratio w) = Return (Some product)"
    and ne: "product \<noteq> []"
    and data: "map_of (stock w) product = Some data"
    and pos: "0 < quantity data"
    and rq: "fst ?rq = Return q"
  have cp': "choose_product_name ratio w = (Return (Some product), ?w1)"
    using cp by (simp add: prod_eq_iff)
  have rq': "?rq = (Return q, snd ?rq)"
    using rq by (simp add: prod_eq_iff)
  from read_positive_int_range [OF rq'] have q1: "1 \<le> q" by simp
  have frame: "stock (snd ?rq) = stock w" "cart (snd ?rq) = cart w"
    using choose_product_name_io [OF cp'] read_positive_int_io [OF rq']
    by (simp_all add: io_only_def)
  show "(q \<le> quantity data \<longrightarrow>
         map_option quantity (map_of (stock (snd (add_product ratio w))) product)
           = Some (quantity data - q) \<and>
         quantity data - q < quantity data)
      \<and>
      (quantity data < q \<longrightarrow>
         fst (add_product ratio w) = Return () \<and>
         stock (snd (add_product ratio w)) = stock w \<and>
         cart (snd (add_product ratio w)) = cart w \<and>
         last (out (snd (add_product ratio w)))
           = Print (''Not enough stock. Only '' @ str_int (quantity data) @ '' left.''))"
  proof (intro conjI impI)
    assume le: "q \<le> quantity data"
    from add_product_commit [OF cp' ne data pos rq' le]
    show "map_option quantity (map_of (stock (snd (add_product ratio w))) product)
           = Some (quantity data - q)"
      by (simp add: map_of_update_same)
    from q1 show "quantity data - q < quantity data" by simp
  next
    assume gt: "quantity data < q"
    note rej = add_product_reject [OF cp' ne data pos rq' gt]
    from rej show "fst (add_product ratio w) = Return ()" by simp
    from rej frame show "stock (snd (add_product ratio w)) = stock w" by simp
    from rej frame show "cart (snd (add_product ratio w)) = cart w" by simp
    from rej show "last (out (snd (add_product ratio w)))
           = Print (''Not enough stock. Only '' @ str_int (quantity data) @ '' left.'')"
      by simp
  qed
qed

theorem add_product_decrement_or_reject_witness:
  "(fst (choose_product_name (\<lambda>a b. 0) (rice7 [Line ''rice'', Line ''20''])) = Return (Some ''rice'') \<and>
    ''rice'' \<noteq> [] \<and>
    map_of (stock (rice7 [Line ''rice'', Line ''20''])) ''rice'' = Some \<lparr>price = 5.50, quantity = 7\<rparr> \<and>
    0 < quantity \<lparr>price = 5.50, quantity = 7\<rparr> \<and>
    fst (read_positive_int (quantity_prompt (quantity \<lparr>price = 5.50, quantity = 7\<rparr>)) 1 None
          (snd (choose_product_name (\<lambda>a b. 0) (rice7 [Line ''rice'', Line ''20''])))) = Return 20) \<and>
   quantity \<lparr>price = 5.50, quantity = 7\<rparr> < 20 \<and>
   stock (snd (add_product (\<lambda>a b. 0) (rice7 [Line ''rice'', Line ''20'']))) = stock (rice7 []) \<and>
   cart (snd (add_product (\<lambda>a b. 0) (rice7 [Line ''rice'', Line ''20'']))) = cart (rice7 []) \<and>
   last (out (snd (add_product (\<lambda>a b. 0) (rice7 [Line ''rice'', Line ''20'']))))
     = Print ''Not enough stock. Only 7 left.'' \<and>
   (fst (choose_product_name (\<lambda>a b. 0) (rice7 [Line ''rice'', Line ''0'', Line ''7''])) = Return (Some ''rice'') \<and>
    ''rice'' \<noteq> [] \<and>
    map_of (stock (rice7 [Line ''rice'', Line ''0'', Line ''7''])) ''rice'' = Some \<lparr>price = 5.50, quantity = 7\<rparr> \<and>
    0 < quantity \<lparr>price = 5.50, quantity = 7\<rparr> \<and>
    fst (read_positive_int (quantity_prompt (quantity \<lparr>price = 5.50, quantity = 7\<rparr>)) 1 None
          (snd (choose_product_name (\<lambda>a b. 0) (rice7 [Line ''rice'', Line ''0'', Line ''7''])))) = Return 7) \<and>
   7 \<le> quantity \<lparr>price = 5.50, quantity = 7\<rparr> \<and>
   map_option quantity
     (map_of (stock (snd (add_product (\<lambda>a b. 0) (rice7 [Line ''rice'', Line ''0'', Line ''7''])))) ''rice'')
     = Some 0"
proof -
  have h1: "fst (choose_product_name (\<lambda>a b. 0) (rice7 [Line ''rice'', Line ''20''])) = Return (Some ''rice'') \<and>
    ''rice'' \<noteq> [] \<and>
    map_of (stock (rice7 [Line ''rice'', Line ''20''])) ''rice'' = Some \<lparr>price = 5.50, quantity = 7\<rparr> \<and>
    0 < quantity \<lparr>price = 5.50, quantity = 7\<rparr> \<and>
    fst (read_positive_int (quantity_prompt (quantity \<lparr>price = 5.50, quantity = 7\<rparr>)) 1 None
          (snd (choose_product_name (\<lambda>a b. 0) (rice7 [Line ''rice'', Line ''20''])))) = Return 20"
    by code_simp
  have h2: "fst (choose_product_name (\<lambda>a b. 0) (rice7 [Line ''rice'', Line ''0'', Line ''7''])) = Return (Some ''rice'') \<and>
    ''rice'' \<noteq> [] \<and>
    map_of (stock (rice7 [Line ''rice'', Line ''0'', Line ''7''])) ''rice'' = Some \<lparr>price = 5.50, quantity = 7\<rparr> \<and>
    0 < quantity \<lparr>price = 5.50, quantity = 7\<rparr> \<and>
    fst (read_positive_int (quantity_prompt (quantity \<lparr>price = 5.50, quantity = 7\<rparr>)) 1 None
          (snd (choose_product_name (\<lambda>a b. 0) (rice7 [Line ''rice'', Line ''0'', Line ''7''])))) = Return 7"
    by code_simp
  have s7: "str_int 7 = ''7''" by code_simp
  from add_product_decrement_or_reject [rule_format, OF h1, THEN conjunct2]
    add_product_decrement_or_reject [rule_format, OF h2, THEN conjunct1]
    h1 h2 show ?thesis
    by (simp add: rice7_def s7)
qed

subsection \<open>Checkout\<close>

text \<open>
  C3. \<^verbatim>\<open>show_total\<close> on an empty cart prints the heading and the empty-cart message and no
  total. On a cart with lines it prints the heading, one line per cart line with the subtotal
  quantity times captured unit price, and the total, which is the sum of these subtotals over
  the cart. Result and output are the same whatever the catalog holds, and a later
  \<^verbatim>\<open>add_product\<close> leaves the lines already in the cart as they are.
\<close>

theorem show_total_sum:
  "\<forall>w.
     (cart w = [] \<longrightarrow>
        show_total w =
          (Return (), w\<lparr>out := out w @ [Print (CHR 0x0A # ''=== SHOPPING CART ===''),
                                          Print ''Your cart is empty.'']\<rparr>))
     \<and>
     (cart w \<noteq> [] \<longrightarrow>
        show_total w =
          (Return (), w\<lparr>out := out w @ [Print (CHR 0x0A # ''=== SHOPPING CART ==='')]
             @ map cart_line (cart w)
             @ [Print (CHR 0x0A # ''Total purchase value: ''
                       @ fmt_money (\<Sum>(p, q, u)\<leftarrow>cart w. of_int q * u))]\<rparr>))
     \<and>
     (\<forall>st. fst (show_total (w\<lparr>stock := st\<rparr>)) = fst (show_total w) \<and>
           out (snd (show_total (w\<lparr>stock := st\<rparr>))) = out (snd (show_total w)))
     \<and>
     (\<forall>ratio. prefix (cart w) (cart (snd (add_product ratio w))))"
proof (intro allI conjI impI)
  fix w :: world
  assume "cart w = []"
  then show "show_total w =
          (Return (), w\<lparr>out := out w @ [Print (CHR 0x0A # ''=== SHOPPING CART ===''),
                                          Print ''Your cart is empty.'']\<rparr>)"
    by (rule show_total_empty)
next
  fix w :: world
  assume "cart w \<noteq> []"
  then show "show_total w =
          (Return (), w\<lparr>out := out w @ [Print (CHR 0x0A # ''=== SHOPPING CART ==='')]
             @ map cart_line (cart w)
             @ [Print (CHR 0x0A # ''Total purchase value: ''
                       @ fmt_money (\<Sum>(p, q, u)\<leftarrow>cart w. of_int q * u))]\<rparr>)"
    by (rule show_total_lines)
next
  fix w :: world and st
  show "fst (show_total (w\<lparr>stock := st\<rparr>)) = fst (show_total w)"
    by (cases "cart w = []") (simp_all add: show_total_empty show_total_lines)
  show "out (snd (show_total (w\<lparr>stock := st\<rparr>))) = out (snd (show_total w))"
    by (cases "cart w = []") (simp_all add: show_total_empty show_total_lines)
next
  fix w :: world and ratio
  show "prefix (cart w) (cart (snd (add_product ratio w)))"
    by (rule add_product_cart_grows)
qed

theorem show_total_sum_witness:
  "cart wd \<noteq> [] \<and>
   out (snd (show_total wd)) =
     [Print (CHR 0x0A # ''=== SHOPPING CART ===''),
      Print (''Rice x3 - '' @ CURRENCY @ '' 16.50''),
      Print (''Beans x2 - '' @ CURRENCY @ '' 14.40''),
      Print (CHR 0x0A # ''Total purchase value: '' @ CURRENCY @ '' 30.90'')] \<and>
   cart (wd\<lparr>cart := []\<rparr>) = [] \<and>
   out (snd (show_total (wd\<lparr>cart := []\<rparr>))) =
     [Print (CHR 0x0A # ''=== SHOPPING CART ===''), Print ''Your cart is empty.'']"
proof -
  have ne: "cart wd \<noteq> []" by (simp add: wd_def)
  have em: "cart (wd\<lparr>cart := []\<rparr>) = []" by simp
  have l: "map cart_line (cart wd) =
      [Print (''Rice x3 - '' @ CURRENCY @ '' 16.50''), Print (''Beans x2 - '' @ CURRENCY @ '' 14.40'')]"
    by code_simp
  have t: "fmt_money (\<Sum>(p, q, u)\<leftarrow>cart wd. of_int q * u) = CURRENCY @ '' 30.90''"
    by code_simp
  from show_total_sum [rule_format, THEN conjunct1, rule_format, OF em]
       show_total_sum [rule_format, THEN conjunct2, THEN conjunct1, rule_format, OF ne]
       ne l t
  show ?thesis by (simp add: wd_def)
qed

subsection \<open>The catalog invariant\<close>

text \<open>
  C4. \<open>catalog_ok\<close> says that the catalog has the seeded products with their seeded prices,
  in the seeded order, and that every quantity is non-negative. It holds in the state
  \<^verbatim>\<open>menu\<close> (and \<^verbatim>\<open>main\<close>) reaches from the seed catalog on any input events, which
  covers every state in which the program waits for input or has exited; and each handler,
  and the menu loop from any state, preserves it.
\<close>

theorem catalog_invariant:
  "\<forall>ratio evs.
     catalog_ok (stock (snd (menu ratio (initial evs)))) \<and>
     catalog_ok (stock (snd (main ratio (initial evs)))) \<and>
     (\<forall>w. catalog_ok (stock w) \<longrightarrow>
        catalog_ok (stock (snd (add_product ratio w))) \<and>
        catalog_ok (stock (snd (show_stock w))) \<and>
        catalog_ok (stock (snd (show_total w))) \<and>
        catalog_ok (stock (snd (menu ratio w))))"
proof (intro allI conjI impI)
  fix ratio evs
  have m: "catalog_ok (stock (snd (menu ratio (initial evs))))"
    by (rule menu_catalog) (simp add: initial_def catalog_ok_initial)
  then show "catalog_ok (stock (snd (menu ratio (initial evs))))" .
  from m show "catalog_ok (stock (snd (main ratio (initial evs))))"
    by (simp add: main_stock)
next
  fix ratio and w :: world
  assume ok: "catalog_ok (stock w)"
  then show "catalog_ok (stock (snd (add_product ratio w)))" by (rule add_product_catalog)
  from ok show "catalog_ok (stock (snd (show_stock w)))"
    by (simp add: show_frame_stock)
  from ok show "catalog_ok (stock (snd (show_total w)))"
    by (simp add: show_frame_stock)
  from ok show "catalog_ok (stock (snd (menu ratio w)))" by (rule menu_catalog)
qed

theorem catalog_invariant_witness:
  "catalog_ok (stock (snd (menu (\<lambda>a b. 0)
      (initial [Line ''2'', Line ''oil'', Line ''5''])))) \<and>
   stock (snd (menu (\<lambda>a b. 0)
      (initial [Line ''2'', Line ''oil'', Line ''5'']))) =
     [(''rice'', \<lparr>price = 5.50, quantity = 10\<rparr>),
      (''beans'', \<lparr>price = 7.20, quantity = 8\<rparr>),
      (''pasta'', \<lparr>price = 3.80, quantity = 15\<rparr>),
      (''oil'', \<lparr>price = 6.00, quantity = 0\<rparr>)] \<and>
   (''oil'', \<lparr>price = 6.00, quantity = 0\<rparr>) \<in> set (stock (snd (menu (\<lambda>a b. 0)
      (initial [Line ''2'', Line ''oil'', Line ''5''])))) \<and>
   (0::int) \<le> quantity (snd (''oil'', \<lparr>price = 6.00, quantity = 0\<rparr>))"
proof -
  have s: "stock (snd (menu (\<lambda>a b. 0)
      (initial [Line ''2'', Line ''oil'', Line ''5'']))) =
     [(''rice'', \<lparr>price = 5.50, quantity = 10\<rparr>),
      (''beans'', \<lparr>price = 7.20, quantity = 8\<rparr>),
      (''pasta'', \<lparr>price = 3.80, quantity = 15\<rparr>),
      (''oil'', \<lparr>price = 6.00, quantity = 0\<rparr>)]"
    by code_simp
  from catalog_invariant [rule_format, THEN conjunct1,
      of "\<lambda>a b. 0" "[Line ''2'', Line ''oil'', Line ''5'']"]
  have "catalog_ok (stock (snd (menu (\<lambda>a b. 0)
      (initial [Line ''2'', Line ''oil'', Line ''5'']))))" .
  with s show ?thesis by simp
qed

subsection \<open>The input validators\<close>

text \<open>
  C5. For a line read at the name prompt of \<^verbatim>\<open>choose_product_name\<close>, with \<open>product\<close> the
  line stripped and in lower case:
  \<^item> in every state that satisfies \<open>catalog_ok\<close> (every state the program reaches), a line
    equal to a catalog key up to case is returned as that key at once, with nothing
    printed but the name prompt; the same holds in any catalog for a key that is in lower
    case and is neither "0" nor empty;
  \<^item> a blank line or "0" returns no product;
  \<^item> otherwise the matches are keys of the catalog, each with similarity at least 0.6:
    all such keys when there are at most 3, else 3 of them; they are listed from the most
    similar down, and no key left out is more similar than a key offered;
  \<^item> if no key reaches 0.6 there is no match: that attempt resolves to nothing, the
    not-found message is printed and the resolver asks for a name again (it does not
    return);
  \<^item> if some key reaches 0.6 the matches are printed, numbered from 1, with the line for
    0; the choice read is between 0 and the number of matches, the choice 0 asks for a name
    again, and a choice \<open>c\<close> from 1 on returns the match number \<open>c\<close>; Ctrl+C at the choice
    prompt returns no product.
  Ctrl+C at the name prompt returns no product, after the cancellation message; the end of
  the input there raises \<^verbatim>\<open>EOFError\<close>; with no event left the call waits at the prompt.
  The similarity \<^verbatim>\<open>SequenceMatcher.ratio\<close> is a parameter: the statement holds for every
  similarity function.
\<close>

theorem choose_product_name_resolves:
  "\<forall>ratio w.
     (\<forall>s es. inp w = Line s # es \<longrightarrow>
     (catalog_ok (stock w) \<longrightarrow>
        (\<forall>k \<in> set (map fst (stock w)). lower (strip s) = lower k \<longrightarrow>
           choose_product_name ratio w = (Return (Some k), name_read w es)))
     \<and>
     (\<forall>k. k \<in> set (map fst (stock w)) \<and> lower k = k \<and> lower (strip s) = lower k \<and>
          k \<noteq> ''0'' \<and> k \<noteq> [] \<longrightarrow>
          choose_product_name ratio w = (Return (Some k), name_read w es))
     \<and>
     (strip s = [] \<or> strip s = ''0'' \<longrightarrow>
        choose_product_name ratio w = (Return None, name_read w es))
     \<and>
     (lower (strip s) \<notin> set (map fst (stock w)) \<and> lower (strip s) \<noteq> ''0'' \<and>
      lower (strip s) \<noteq> [] \<longrightarrow>
        (let product = lower (strip s); matches = close_matches ratio product w
         in length matches \<le> 3 \<and>
            length matches =
              min 3 (length (filter (\<lambda>k. 0.6 \<le> ratio k product) (map fst (stock w)))) \<and>
            sorted_wrt (\<lambda>a b. ratio b product \<le> ratio a product) matches \<and>
            set matches \<subseteq> {k \<in> set (map fst (stock w)). 0.6 \<le> ratio k product} \<and>
            (\<forall>k \<in> set (map fst (stock w)). \<forall>m \<in> set matches.
               k \<notin> set matches \<and> 0.6 \<le> ratio k product \<longrightarrow> ratio k product \<le> ratio m product) \<and>
            ((\<forall>k \<in> set (map fst (stock w)). ratio k product < 0.6) \<longrightarrow>
               matches = [] \<and>
               choose_product_name ratio w =
                 choose_product_name ratio
                   (print (''Product not found and no suggestions. ''
                           @ ''Use 'Show stock' to see available products.'') (name_read w es))) \<and>
            ((\<exists>k \<in> set (map fst (stock w)). 0.6 \<le> ratio k product) \<longrightarrow>
               matches \<noteq> [] \<and>
               out (offered matches (name_read w es)) =
                 out (name_read w es)
                 @ Print (CHR 0x0A # ''Product not found. Did you mean:'')
                   # map suggestion (enumerate 0 matches)
                 @ [Print ''0) None of these (type again)''] \<and>
               (\<forall>c w5.
                  read_positive_int ''Choose an option: '' 0 (Some (int (length matches)))
                    (offered matches (name_read w es)) = (Return c, w5) \<longrightarrow>
                  0 \<le> c \<and> c \<le> int (length matches) \<and>
                  (c = 0 \<longrightarrow> choose_product_name ratio w = choose_product_name ratio w5) \<and>
                  (c \<noteq> 0 \<longrightarrow>
                     choose_product_name ratio w =
                       (Return (Some (matches ! nat (c - 1))), w5))) \<and>
               (\<forall>w5.
                  read_positive_int ''Choose an option: '' 0 (Some (int (length matches)))
                    (offered matches (name_read w es)) = (Raise KeyboardInterrupt, w5) \<longrightarrow>
                  choose_product_name ratio w =
                    (Return None, print (CHR 0x0A # ''Action cancelled by user.'') w5))))))
     \<and>
     (\<forall>es. inp w = Interrupt # es \<longrightarrow>
        choose_product_name ratio w =
          (Return None, print (CHR 0x0A # ''Action cancelled by user.'') (name_read w es)))
     \<and>
     (\<forall>es. inp w = Eof # es \<longrightarrow>
        choose_product_name ratio w = (Raise EOFError, name_read w es))
     \<and>
     (inp w = [] \<longrightarrow>
        choose_product_name ratio w =
          (Blocked, w\<lparr>out := out w @ [Prompt ''Enter the product name (or 0 to cancel): '']\<rparr>))"
proof (intro allI)
  fix ratio and w :: world
  have line: "(\<forall>s es. inp w = Line s # es \<longrightarrow>
     (catalog_ok (stock w) \<longrightarrow>
        (\<forall>k \<in> set (map fst (stock w)). lower (strip s) = lower k \<longrightarrow>
           choose_product_name ratio w = (Return (Some k), name_read w es)))
     \<and>
     (\<forall>k. k \<in> set (map fst (stock w)) \<and> lower k = k \<and> lower (strip s) = lower k \<and>
          k \<noteq> ''0'' \<and> k \<noteq> [] \<longrightarrow>
          choose_product_name ratio w = (Return (Some k), name_read w es))
     \<and>
     (strip s = [] \<or> strip s = ''0'' \<longrightarrow>
        choose_product_name ratio w = (Return None, name_read w es))
     \<and>
     (lower (strip s) \<notin> set (map fst (stock w)) \<and> lower (strip s) \<noteq> ''0'' \<and>
      lower (strip s) \<noteq> [] \<longrightarrow>
        (let product = lower (strip s); matches = close_matches ratio product w
         in length matches \<le> 3 \<and>
            length matches =
              min 3 (length (filter (\<lambda>k. 0.6 \<le> ratio k product) (map fst (stock w)))) \<and>
            sorted_wrt (\<lambda>a b. ratio b product \<le> ratio a product) matches \<and>
            set matches \<subseteq> {k \<in> set (map fst (stock w)). 0.6 \<le> ratio k product} \<and>
            (\<forall>k \<in> set (map fst (stock w)). \<forall>m \<in> set matches.
               k \<notin> set matches \<and> 0.6 \<le> ratio k product \<longrightarrow> ratio k product \<le> ratio m product) \<and>
            ((\<forall>k \<in> set (map fst (stock w)). ratio k product < 0.6) \<longrightarrow>
               matches = [] \<and>
               choose_product_name ratio w =
                 choose_product_name ratio
                   (print (''Product not found and no suggestions. ''
                           @ ''Use 'Show stock' to see available products.'') (name_read w es))) \<and>
            ((\<exists>k \<in> set (map fst (stock w)). 0.6 \<le> ratio k product) \<longrightarrow>
               matches \<noteq> [] \<and>
               out (offered matches (name_read w es)) =
                 out (name_read w es)
                 @ Print (CHR 0x0A # ''Product not found. Did you mean:'')
                   # map suggestion (enumerate 0 matches)
                 @ [Print ''0) None of these (type again)''] \<and>
               (\<forall>c w5.
                  read_positive_int ''Choose an option: '' 0 (Some (int (length matches)))
                    (offered matches (name_read w es)) = (Return c, w5) \<longrightarrow>
                  0 \<le> c \<and> c \<le> int (length matches) \<and>
                  (c = 0 \<longrightarrow> choose_product_name ratio w = choose_product_name ratio w5) \<and>
                  (c \<noteq> 0 \<longrightarrow>
                     choose_product_name ratio w =
                       (Return (Some (matches ! nat (c - 1))), w5))) \<and>
               (\<forall>w5.
                  read_positive_int ''Choose an option: '' 0 (Some (int (length matches)))
                    (offered matches (name_read w es)) = (Raise KeyboardInterrupt, w5) \<longrightarrow>
                  choose_product_name ratio w =
                    (Return None, print (CHR 0x0A # ''Action cancelled by user.'') w5))))))"
  proof (intro allI impI)
    fix s es
    assume i: "inp w = Line s # es"
    let ?product = "lower (strip s)"
    let ?keys = "set (map fst (stock w))"
    let ?matches = "close_matches ratio ?product w"
    have a: "\<forall>k. k \<in> ?keys \<and> lower k = k \<and> ?product = lower k \<and> k \<noteq> ''0'' \<and> k \<noteq> [] \<longrightarrow>
            choose_product_name ratio w = (Return (Some k), name_read w es)"
      using choose_exact [OF i, of ratio] by auto
    have b: "strip s = [] \<or> strip s = ''0'' \<longrightarrow>
          choose_product_name ratio w = (Return None, name_read w es)"
      using choose_cancel [OF i, of ratio] by auto
    have c: "length ?matches \<le> 3 \<and>
              length ?matches =
                min 3 (length (filter (\<lambda>k. 0.6 \<le> ratio k ?product) (map fst (stock w)))) \<and>
              sorted_wrt (\<lambda>a b. ratio b ?product \<le> ratio a ?product) ?matches \<and>
              set ?matches \<subseteq> {k \<in> ?keys. 0.6 \<le> ratio k ?product} \<and>
              (\<forall>k \<in> ?keys. \<forall>m \<in> set ?matches.
                 k \<notin> set ?matches \<and> 0.6 \<le> ratio k ?product \<longrightarrow> ratio k ?product \<le> ratio m ?product) \<and>
              ((\<forall>k \<in> ?keys. ratio k ?product < 0.6) \<longrightarrow>
                 ?matches = [] \<and>
                 choose_product_name ratio w =
                   choose_product_name ratio
                     (print (''Product not found and no suggestions. ''
                             @ ''Use 'Show stock' to see available products.'') (name_read w es))) \<and>
              ((\<exists>k \<in> ?keys. 0.6 \<le> ratio k ?product) \<longrightarrow>
                 ?matches \<noteq> [] \<and>
                 out (offered ?matches (name_read w es)) =
                   out (name_read w es)
                   @ Print (CHR 0x0A # ''Product not found. Did you mean:'')
                     # map suggestion (enumerate 0 ?matches)
                   @ [Print ''0) None of these (type again)''] \<and>
                 (\<forall>c w5.
                    read_positive_int ''Choose an option: '' 0 (Some (int (length ?matches)))
                      (offered ?matches (name_read w es)) = (Return c, w5) \<longrightarrow>
                    0 \<le> c \<and> c \<le> int (length ?matches) \<and>
                    (c = 0 \<longrightarrow> choose_product_name ratio w = choose_product_name ratio w5) \<and>
                    (c \<noteq> 0 \<longrightarrow>
                       choose_product_name ratio w =
                         (Return (Some (?matches ! nat (c - 1))), w5))) \<and>
                 (\<forall>w5.
                    read_positive_int ''Choose an option: '' 0 (Some (int (length ?matches)))
                      (offered ?matches (name_read w es)) = (Raise KeyboardInterrupt, w5) \<longrightarrow>
                    choose_product_name ratio w =
                      (Return None, print (CHR 0x0A # ''Action cancelled by user.'') w5)))"
      if notin: "?product \<notin> ?keys" and nc: "?product \<noteq> ''0''" "?product \<noteq> []"
    proof (intro conjI impI allI ballI; (elim conjE)?)
      show "length ?matches \<le> 3"
        unfolding close_matches_def by (rule get_close_matches_length)
      show "set ?matches \<subseteq> {k \<in> ?keys. 0.6 \<le> ratio k ?product}"
        unfolding close_matches_def by (rule get_close_matches_set)
      show "length ?matches =
          min 3 (length (filter (\<lambda>k. 0.6 \<le> ratio k ?product) (map fst (stock w))))"
        unfolding close_matches_def by (rule get_close_matches_length_eq)
      show "sorted_wrt (\<lambda>a b. ratio b ?product \<le> ratio a ?product) ?matches"
        unfolding close_matches_def by (rule get_close_matches_sorted)
    next
      fix k m
      assume "k \<in> ?keys" "m \<in> set ?matches" "k \<notin> set ?matches" "0.6 \<le> ratio k ?product"
      then show "ratio k ?product \<le> ratio m ?product"
        unfolding close_matches_def by (intro get_close_matches_best) simp_all
    next
      assume none: "\<forall>k \<in> ?keys. ratio k ?product < 0.6"
      then show e: "?matches = []"
        unfolding close_matches_def by (auto simp: get_close_matches_Nil)
      from choose_nomatch [OF i notin nc e]
      show "choose_product_name ratio w =
          choose_product_name ratio
            (print (''Product not found and no suggestions. ''
                    @ ''Use 'Show stock' to see available products.'') (name_read w es))"
        using e by simp
    next
      assume some: "\<exists>k \<in> ?keys. 0.6 \<le> ratio k ?product"
      then show ne: "?matches \<noteq> []"
        unfolding close_matches_def by (auto simp: get_close_matches_Nil)
      show "out (offered ?matches (name_read w es)) =
          out (name_read w es)
          @ Print (CHR 0x0A # ''Product not found. Did you mean:'')
            # map suggestion (enumerate 0 ?matches)
          @ [Print ''0) None of these (type again)'']"
        by (rule offered_out)
      fix c w5
      assume rq: "read_positive_int ''Choose an option: '' 0 (Some (int (length ?matches)))
          (offered ?matches (name_read w es)) = (Return c, w5)"
      note o = choose_offer [OF i notin nc ne rq]
      from o show "0 \<le> c" "c \<le> int (length ?matches)" by simp_all
      from o show "c = 0 \<Longrightarrow> choose_product_name ratio w = choose_product_name ratio w5"
        by simp
      from o show "c \<noteq> 0 \<Longrightarrow> choose_product_name ratio w =
          (Return (Some (?matches ! nat (c - 1))), w5)"
        by simp
    next
      fix w5
      assume some: "\<exists>k \<in> ?keys. 0.6 \<le> ratio k ?product"
        and rq: "read_positive_int ''Choose an option: '' 0 (Some (int (length ?matches)))
          (offered ?matches (name_read w es)) = (Raise KeyboardInterrupt, w5)"
      from some have ne: "?matches \<noteq> []"
        unfolding close_matches_def by (auto simp: get_close_matches_Nil)
      from choose_offer_interrupt [OF i notin nc ne rq]
      show "choose_product_name ratio w =
          (Return None, print (CHR 0x0A # ''Action cancelled by user.'') w5)" .
    qed
    have a2: "catalog_ok (stock w) \<longrightarrow>
          (\<forall>k \<in> set (map fst (stock w)). lower (strip s) = lower k \<longrightarrow>
             choose_product_name ratio w = (Return (Some k), name_read w es))"
    proof (intro impI ballI)
      fix k
      assume ok: "catalog_ok (stock w)" and k: "k \<in> set (map fst (stock w))"
        and eq: "lower (strip s) = lower k"
      from k catalog_ok_keys [OF ok] have "k \<in> set [''rice'', ''beans'', ''pasta'', ''oil'']"
        by simp
      from seed_keys_lower [OF this] k eq a
      show "choose_product_name ratio w = (Return (Some k), name_read w es)"
        by blast
    qed
    from a2 a b c show "(catalog_ok (stock w) \<longrightarrow>
          (\<forall>k \<in> set (map fst (stock w)). lower (strip s) = lower k \<longrightarrow>
             choose_product_name ratio w = (Return (Some k), name_read w es)))
       \<and>
       (\<forall>k. k \<in> set (map fst (stock w)) \<and> lower k = k \<and> lower (strip s) = lower k \<and>
            k \<noteq> ''0'' \<and> k \<noteq> [] \<longrightarrow>
            choose_product_name ratio w = (Return (Some k), name_read w es))
       \<and>
       (strip s = [] \<or> strip s = ''0'' \<longrightarrow>
          choose_product_name ratio w = (Return None, name_read w es))
       \<and>
       (lower (strip s) \<notin> set (map fst (stock w)) \<and> lower (strip s) \<noteq> ''0'' \<and>
        lower (strip s) \<noteq> [] \<longrightarrow>
          (let product = lower (strip s); matches = close_matches ratio product w
           in length matches \<le> 3 \<and>
              length matches =
                min 3 (length (filter (\<lambda>k. 0.6 \<le> ratio k product) (map fst (stock w)))) \<and>
              sorted_wrt (\<lambda>a b. ratio b product \<le> ratio a product) matches \<and>
              set matches \<subseteq> {k \<in> set (map fst (stock w)). 0.6 \<le> ratio k product} \<and>
              (\<forall>k \<in> set (map fst (stock w)). \<forall>m \<in> set matches.
                 k \<notin> set matches \<and> 0.6 \<le> ratio k product \<longrightarrow> ratio k product \<le> ratio m product) \<and>
              ((\<forall>k \<in> set (map fst (stock w)). ratio k product < 0.6) \<longrightarrow>
                 matches = [] \<and>
                 choose_product_name ratio w =
                   choose_product_name ratio
                     (print (''Product not found and no suggestions. ''
                             @ ''Use 'Show stock' to see available products.'') (name_read w es))) \<and>
              ((\<exists>k \<in> set (map fst (stock w)). 0.6 \<le> ratio k product) \<longrightarrow>
                 matches \<noteq> [] \<and>
                 out (offered matches (name_read w es)) =
                   out (name_read w es)
                   @ Print (CHR 0x0A # ''Product not found. Did you mean:'')
                     # map suggestion (enumerate 0 matches)
                   @ [Print ''0) None of these (type again)''] \<and>
                 (\<forall>c w5.
                    read_positive_int ''Choose an option: '' 0 (Some (int (length matches)))
                      (offered matches (name_read w es)) = (Return c, w5) \<longrightarrow>
                    0 \<le> c \<and> c \<le> int (length matches) \<and>
                    (c = 0 \<longrightarrow> choose_product_name ratio w = choose_product_name ratio w5) \<and>
                    (c \<noteq> 0 \<longrightarrow>
                       choose_product_name ratio w =
                         (Return (Some (matches ! nat (c - 1))), w5))) \<and>
                 (\<forall>w5.
                    read_positive_int ''Choose an option: '' 0 (Some (int (length matches)))
                      (offered matches (name_read w es)) = (Raise KeyboardInterrupt, w5) \<longrightarrow>
                    choose_product_name ratio w =
                      (Return None, print (CHR 0x0A # ''Action cancelled by user.'') w5)))))"
      unfolding Let_def by blast
  qed
  have other: "(\<forall>es. inp w = Interrupt # es \<longrightarrow>
        choose_product_name ratio w =
          (Return None, print (CHR 0x0A # ''Action cancelled by user.'') (name_read w es)))
     \<and>
     (\<forall>es. inp w = Eof # es \<longrightarrow>
        choose_product_name ratio w = (Raise EOFError, name_read w es))
     \<and>
     (inp w = [] \<longrightarrow>
        choose_product_name ratio w =
          (Blocked, w\<lparr>out := out w @ [Prompt ''Enter the product name (or 0 to cancel): '']\<rparr>))"
    using choose_interrupt [of w _ ratio] choose_eof [of w _ ratio] choose_nil [of w ratio]
    by blast
  from line other show "(\<forall>s es. inp w = Line s # es \<longrightarrow>
     (catalog_ok (stock w) \<longrightarrow>
        (\<forall>k \<in> set (map fst (stock w)). lower (strip s) = lower k \<longrightarrow>
           choose_product_name ratio w = (Return (Some k), name_read w es)))
     \<and>
     (\<forall>k. k \<in> set (map fst (stock w)) \<and> lower k = k \<and> lower (strip s) = lower k \<and>
          k \<noteq> ''0'' \<and> k \<noteq> [] \<longrightarrow>
          choose_product_name ratio w = (Return (Some k), name_read w es))
     \<and>
     (strip s = [] \<or> strip s = ''0'' \<longrightarrow>
        choose_product_name ratio w = (Return None, name_read w es))
     \<and>
     (lower (strip s) \<notin> set (map fst (stock w)) \<and> lower (strip s) \<noteq> ''0'' \<and>
      lower (strip s) \<noteq> [] \<longrightarrow>
        (let product = lower (strip s); matches = close_matches ratio product w
         in length matches \<le> 3 \<and>
            length matches =
              min 3 (length (filter (\<lambda>k. 0.6 \<le> ratio k product) (map fst (stock w)))) \<and>
            sorted_wrt (\<lambda>a b. ratio b product \<le> ratio a product) matches \<and>
            set matches \<subseteq> {k \<in> set (map fst (stock w)). 0.6 \<le> ratio k product} \<and>
            (\<forall>k \<in> set (map fst (stock w)). \<forall>m \<in> set matches.
               k \<notin> set matches \<and> 0.6 \<le> ratio k product \<longrightarrow> ratio k product \<le> ratio m product) \<and>
            ((\<forall>k \<in> set (map fst (stock w)). ratio k product < 0.6) \<longrightarrow>
               matches = [] \<and>
               choose_product_name ratio w =
                 choose_product_name ratio
                   (print (''Product not found and no suggestions. ''
                           @ ''Use 'Show stock' to see available products.'') (name_read w es))) \<and>
            ((\<exists>k \<in> set (map fst (stock w)). 0.6 \<le> ratio k product) \<longrightarrow>
               matches \<noteq> [] \<and>
               out (offered matches (name_read w es)) =
                 out (name_read w es)
                 @ Print (CHR 0x0A # ''Product not found. Did you mean:'')
                   # map suggestion (enumerate 0 matches)
                 @ [Print ''0) None of these (type again)''] \<and>
               (\<forall>c w5.
                  read_positive_int ''Choose an option: '' 0 (Some (int (length matches)))
                    (offered matches (name_read w es)) = (Return c, w5) \<longrightarrow>
                  0 \<le> c \<and> c \<le> int (length matches) \<and>
                  (c = 0 \<longrightarrow> choose_product_name ratio w = choose_product_name ratio w5) \<and>
                  (c \<noteq> 0 \<longrightarrow>
                     choose_product_name ratio w =
                       (Return (Some (matches ! nat (c - 1))), w5))) \<and>
               (\<forall>w5.
                  read_positive_int ''Choose an option: '' 0 (Some (int (length matches)))
                    (offered matches (name_read w es)) = (Raise KeyboardInterrupt, w5) \<longrightarrow>
                  choose_product_name ratio w =
                    (Return None, print (CHR 0x0A # ''Action cancelled by user.'') w5))))))
     \<and>
     (\<forall>es. inp w = Interrupt # es \<longrightarrow>
        choose_product_name ratio w =
          (Return None, print (CHR 0x0A # ''Action cancelled by user.'') (name_read w es)))
     \<and>
     (\<forall>es. inp w = Eof # es \<longrightarrow>
        choose_product_name ratio w = (Raise EOFError, name_read w es))
     \<and>
     (inp w = [] \<longrightarrow>
        choose_product_name ratio w =
          (Blocked, w\<lparr>out := out w @ [Prompt ''Enter the product name (or 0 to cancel): '']\<rparr>))"
    by (rule conjI)
qed

theorem choose_product_name_resolves_witness:
  "inp (initial [Line ''bens'', Line ''1'']) = Line ''bens'' # [Line ''1''] \<and>
   lower (strip ''bens'') \<notin> set (map fst (stock (initial [Line ''bens'', Line ''1'']))) \<and>
   lower (strip ''bens'') \<noteq> ''0'' \<and> lower (strip ''bens'') \<noteq> [] \<and>
   (\<exists>k \<in> set (map fst (stock (initial [Line ''bens'', Line ''1'']))).
      0.6 \<le> demo_ratio k (lower (strip ''bens''))) \<and>
   close_matches demo_ratio (lower (strip ''bens'')) (initial [Line ''bens'', Line ''1'']) = [''beans''] \<and>
   fst (read_positive_int ''Choose an option: '' 0 (Some 1)
          (offered [''beans''] (name_read (initial [Line ''bens'', Line ''1'']) [Line ''1'']))) = Return 1 \<and>
   fst (choose_product_name demo_ratio (initial [Line ''bens'', Line ''1''])) = Return (Some ''beans'') \<and>
   inp (initial [Line '' RICE '']) = Line '' RICE '' # [] \<and>
   catalog_ok (stock (initial [Line '' RICE ''])) \<and>
   ''rice'' \<in> set (map fst (stock (initial [Line '' RICE '']))) \<and> lower ''rice'' = ''rice'' \<and>
   lower (strip '' RICE '') = lower ''rice'' \<and>
   choose_product_name demo_ratio (initial [Line '' RICE ''])
     = (Return (Some ''rice''), name_read (initial [Line '' RICE '']) []) \<and>
   inp (initial [Line '' '', Line ''rice'']) = Line '' '' # [Line ''rice''] \<and>
   strip '' '' = [] \<and>
   choose_product_name demo_ratio (initial [Line '' '', Line ''rice''])
     = (Return None, name_read (initial [Line '' '', Line ''rice'']) [Line ''rice'']) \<and>
   inp (initial [Line ''xyz'', Line ''oil'']) = Line ''xyz'' # [Line ''oil''] \<and>
   lower (strip ''xyz'') \<notin> set (map fst (stock (initial [Line ''xyz'', Line ''oil'']))) \<and>
   lower (strip ''xyz'') \<noteq> ''0'' \<and> lower (strip ''xyz'') \<noteq> [] \<and>
   list_all (\<lambda>k. demo_ratio k (lower (strip ''xyz'')) < 0.6)
     (map fst (stock (initial [Line ''xyz'', Line ''oil'']))) \<and>
   choose_product_name demo_ratio (initial [Line ''xyz'', Line ''oil'']) =
     choose_product_name demo_ratio
       (print (''Product not found and no suggestions. ''
               @ ''Use 'Show stock' to see available products.'')
          (name_read (initial [Line ''xyz'', Line ''oil'']) [Line ''oil''])) \<and>
   fst (choose_product_name demo_ratio (initial [Line ''xyz'', Line ''oil''])) = Return (Some ''oil'') \<and>
   inp (initial [Interrupt, Line ''rice'']) = Interrupt # [Line ''rice''] \<and>
   choose_product_name demo_ratio (initial [Interrupt, Line ''rice''])
     = (Return None, print (CHR 0x0A # ''Action cancelled by user.'')
                       (name_read (initial [Interrupt, Line ''rice'']) [Line ''rice''])) \<and>
   inp (initial [Eof, Line ''rice'']) = Eof # [Line ''rice''] \<and>
   choose_product_name demo_ratio (initial [Eof, Line ''rice''])
     = (Raise EOFError, name_read (initial [Eof, Line ''rice'']) [Line ''rice'']) \<and>
   inp (initial []) = [] \<and>
   choose_product_name demo_ratio (initial [])
     = (Blocked, (initial [])\<lparr>out := out (initial [])
                   @ [Prompt ''Enter the product name (or 0 to cancel): '']\<rparr>) \<and>
   fst (read_positive_int ''Choose an option: '' 0 (Some 1)
          (offered [''beans''] (name_read (initial [Line ''bens'', Interrupt]) [Interrupt])))
     = Raise KeyboardInterrupt \<and>
   fst (choose_product_name demo_ratio (initial [Line ''bens'', Interrupt])) = Return None \<and>
   length (close_matches demo_ratio (lower (strip ''bens'')) (initial [Line ''bens'', Line ''1'']))
     = min 3 (length (filter (\<lambda>k. 0.6 \<le> demo_ratio k (lower (strip ''bens'')))
                       (map fst (stock (initial [Line ''bens'', Line ''1''])))))"
proof -
  let ?w = "initial [Line ''bens'', Line ''1'']"
  have i: "inp ?w = Line ''bens'' # [Line ''1'']" by (simp add: initial_def)
  have p: "lower (strip ''bens'') = ''bens''" by code_simp
  have h: "lower (strip ''bens'') \<notin> set (map fst (stock ?w)) \<and>
      lower (strip ''bens'') \<noteq> ''0'' \<and> lower (strip ''bens'') \<noteq> []"
    by code_simp
  have ex: "\<exists>k \<in> set (map fst (stock ?w)). 0.6 \<le> demo_ratio k (lower (strip ''bens''))"
    by code_simp
  have m: "close_matches demo_ratio (lower (strip ''bens'')) ?w = [''beans'']"
    by code_simp
  have c: "fst (read_positive_int ''Choose an option: '' 0 (Some 1)
          (offered [''beans''] (name_read ?w [Line ''1'']))) = Return 1"
    by code_simp
  then have c': "read_positive_int ''Choose an option: '' 0
      (Some (int (length (close_matches demo_ratio (lower (strip ''bens'')) ?w))))
      (offered (close_matches demo_ratio (lower (strip ''bens'')) ?w) (name_read ?w [Line ''1'']))
      = (Return 1, snd (read_positive_int ''Choose an option: '' 0 (Some 1)
          (offered [''beans''] (name_read ?w [Line ''1'']))))"
    by (simp add: m prod_eq_iff)
  note t = choose_product_name_resolves [unfolded Let_def, rule_format, THEN conjunct1,
      rule_format, OF i, of demo_ratio, THEN conjunct2]
  note t3 = t [THEN conjunct2, THEN conjunct2, rule_format, OF h]
  note len = t3 [THEN conjunct2, THEN conjunct1]
  note t5 = t3 [THEN conjunct2, THEN conjunct2, THEN conjunct2, THEN conjunct2, THEN conjunct2,
      THEN conjunct2, rule_format, OF ex]
  note t6 = t5 [THEN conjunct2, THEN conjunct2, THEN conjunct1, rule_format, OF c']
  from t6 m have r: "fst (choose_product_name demo_ratio ?w) = Return (Some ''beans'')"
    by simp
  let ?v = "initial [Line '' RICE '']"
  have i2: "inp ?v = Line '' RICE '' # []" by (simp add: initial_def)
  have h2: "''rice'' \<in> set (map fst (stock ?v)) \<and> lower ''rice'' = ''rice'' \<and>
      lower (strip '' RICE '') = lower ''rice'' \<and> ''rice'' \<noteq> ''0'' \<and> ''rice'' \<noteq> []"
    by code_simp
  note u = choose_product_name_resolves [unfolded Let_def, rule_format, THEN conjunct1,
      rule_format, OF i2, THEN conjunct2, THEN conjunct1, rule_format, OF h2, of demo_ratio]
  have ok: "catalog_ok (stock ?v)" by (simp add: initial_def catalog_ok_initial)
  have k2: "''rice'' \<in> set (map fst (stock ?v))" using h2 by simp
  have l2: "lower (strip '' RICE '') = lower ''rice''" using h2 by simp
  note u2 = choose_product_name_resolves [unfolded Let_def, rule_format, THEN conjunct1,
      rule_format, OF i2, THEN conjunct1, rule_format, OF ok k2 l2, of demo_ratio]
  let ?b = "initial [Line '' '', Line ''rice'']"
  have i3: "inp ?b = Line '' '' # [Line ''rice'']" by (simp add: initial_def)
  have s3: "strip '' '' = []" by code_simp
  then have s3': "strip '' '' = [] \<or> strip '' '' = ''0''" by simp
  note b = choose_product_name_resolves [unfolded Let_def, rule_format, THEN conjunct1,
      rule_format, OF i3, THEN conjunct2, THEN conjunct2, THEN conjunct1, rule_format, OF s3',
      of demo_ratio]
  let ?x = "initial [Line ''xyz'', Line ''oil'']"
  have i4: "inp ?x = Line ''xyz'' # [Line ''oil'']" by (simp add: initial_def)
  have h4: "lower (strip ''xyz'') \<notin> set (map fst (stock ?x)) \<and>
      lower (strip ''xyz'') \<noteq> ''0'' \<and> lower (strip ''xyz'') \<noteq> []"
    by code_simp
  have n4: "\<forall>k \<in> set (map fst (stock ?x)). demo_ratio k (lower (strip ''xyz'')) < 0.6"
    by code_simp
  note x = choose_product_name_resolves [unfolded Let_def, rule_format, THEN conjunct1,
      rule_format, OF i4, of demo_ratio,
      THEN conjunct2, THEN conjunct2, THEN conjunct2, rule_format, OF h4,
      THEN conjunct2, THEN conjunct2, THEN conjunct2, THEN conjunct2, THEN conjunct2,
      THEN conjunct1, rule_format, OF n4 [rule_format],
      THEN conjunct2]
  let ?ci = "initial [Interrupt, Line ''rice'']"
  have i5: "inp ?ci = Interrupt # [Line ''rice'']" by (simp add: initial_def)
  note ci = choose_product_name_resolves [rule_format, THEN conjunct2, THEN conjunct1,
      rule_format, OF i5, of demo_ratio]
  let ?ce = "initial [Eof, Line ''rice'']"
  have i6: "inp ?ce = Eof # [Line ''rice'']" by (simp add: initial_def)
  note ce = choose_product_name_resolves [rule_format, THEN conjunct2, THEN conjunct2,
      THEN conjunct1, rule_format, OF i6, of demo_ratio]
  have i7: "inp (initial []) = []" by (simp add: initial_def)
  note cn = choose_product_name_resolves [rule_format, THEN conjunct2, THEN conjunct2,
      THEN conjunct2, rule_format, OF i7, of demo_ratio]
  let ?wi = "initial [Line ''bens'', Interrupt]"
  have i8: "inp ?wi = Line ''bens'' # [Interrupt]" by (simp add: initial_def)
  have h8: "lower (strip ''bens'') \<notin> set (map fst (stock ?wi)) \<and>
      lower (strip ''bens'') \<noteq> ''0'' \<and> lower (strip ''bens'') \<noteq> []"
    by code_simp
  have ex8: "\<exists>k \<in> set (map fst (stock ?wi)). 0.6 \<le> demo_ratio k (lower (strip ''bens''))"
    by code_simp
  have m8: "close_matches demo_ratio (lower (strip ''bens'')) ?wi = [''beans'']"
    by code_simp
  have c8: "fst (read_positive_int ''Choose an option: '' 0 (Some 1)
          (offered [''beans''] (name_read ?wi [Interrupt]))) = Raise KeyboardInterrupt"
    by code_simp
  then have c8': "read_positive_int ''Choose an option: '' 0
      (Some (int (length (close_matches demo_ratio (lower (strip ''bens'')) ?wi))))
      (offered (close_matches demo_ratio (lower (strip ''bens'')) ?wi) (name_read ?wi [Interrupt]))
      = (Raise KeyboardInterrupt, snd (read_positive_int ''Choose an option: '' 0 (Some 1)
          (offered [''beans''] (name_read ?wi [Interrupt]))))"
    by (simp add: m8 prod_eq_iff)
  note t8 = choose_product_name_resolves [unfolded Let_def, rule_format, THEN conjunct1,
      rule_format, OF i8, of demo_ratio, THEN conjunct2, THEN conjunct2, THEN conjunct2,
      rule_format, OF h8,
      THEN conjunct2, THEN conjunct2, THEN conjunct2, THEN conjunct2, THEN conjunct2,
      THEN conjunct2, rule_format, OF ex8,
      THEN conjunct2, THEN conjunct2, THEN conjunct2, rule_format, OF c8']
  from t8 have r8: "fst (choose_product_name demo_ratio ?wi) = Return None"
    by simp
  have f4: "fst (choose_product_name demo_ratio ?x) = Return (Some ''oil'')"
    by code_simp
  from i h ex m c r i2 h2 u ok u2 have first: "inp (initial [Line ''bens'', Line ''1'']) = Line ''bens'' # [Line ''1''] \<and>
   lower (strip ''bens'') \<notin> set (map fst (stock (initial [Line ''bens'', Line ''1'']))) \<and>
   lower (strip ''bens'') \<noteq> ''0'' \<and> lower (strip ''bens'') \<noteq> [] \<and>
   (\<exists>k \<in> set (map fst (stock (initial [Line ''bens'', Line ''1'']))).
      0.6 \<le> demo_ratio k (lower (strip ''bens''))) \<and>
   close_matches demo_ratio (lower (strip ''bens'')) (initial [Line ''bens'', Line ''1'']) = [''beans''] \<and>
   fst (read_positive_int ''Choose an option: '' 0 (Some 1)
          (offered [''beans''] (name_read (initial [Line ''bens'', Line ''1'']) [Line ''1'']))) = Return 1 \<and>
   fst (choose_product_name demo_ratio (initial [Line ''bens'', Line ''1''])) = Return (Some ''beans'') \<and>
   inp (initial [Line '' RICE '']) = Line '' RICE '' # [] \<and>
   catalog_ok (stock (initial [Line '' RICE ''])) \<and>
   ''rice'' \<in> set (map fst (stock (initial [Line '' RICE '']))) \<and> lower ''rice'' = ''rice'' \<and>
   lower (strip '' RICE '') = lower ''rice'' \<and>
   choose_product_name demo_ratio (initial [Line '' RICE ''])
     = (Return (Some ''rice''), name_read (initial [Line '' RICE '']) [])"
    by simp
  from n4 have n4': "list_all (\<lambda>k. demo_ratio k (lower (strip ''xyz'')) < 0.6)
      (map fst (stock ?x))"
    by (simp only: list_all_iff)
  from first i3 s3 b i4 h4 n4' x f4 have second: "inp (initial [Line ''bens'', Line ''1'']) = Line ''bens'' # [Line ''1''] \<and>
   lower (strip ''bens'') \<notin> set (map fst (stock (initial [Line ''bens'', Line ''1'']))) \<and>
   lower (strip ''bens'') \<noteq> ''0'' \<and> lower (strip ''bens'') \<noteq> [] \<and>
   (\<exists>k \<in> set (map fst (stock (initial [Line ''bens'', Line ''1'']))).
      0.6 \<le> demo_ratio k (lower (strip ''bens''))) \<and>
   close_matches demo_ratio (lower (strip ''bens'')) (initial [Line ''bens'', Line ''1'']) = [''beans''] \<and>
   fst (read_positive_int ''Choose an option: '' 0 (Some 1)
          (offered [''beans''] (name_read (initial [Line ''bens'', Line ''1'']) [Line ''1'']))) = Return 1 \<and>
   fst (choose_product_name demo_ratio (initial [Line ''bens'', Line ''1''])) = Return (Some ''beans'') \<and>
   inp (initial [Line '' RICE '']) = Line '' RICE '' # [] \<and>
   catalog_ok (stock (initial [Line '' RICE ''])) \<and>
   ''rice'' \<in> set (map fst (stock (initial [Line '' RICE '']))) \<and> lower ''rice'' = ''rice'' \<and>
   lower (strip '' RICE '') = lower ''rice'' \<and>
   choose_product_name demo_ratio (initial [Line '' RICE ''])
     = (Return (Some ''rice''), name_read (initial [Line '' RICE '']) []) \<and>
   inp (initial [Line '' '', Line ''rice'']) = Line '' '' # [Line ''rice''] \<and>
   strip '' '' = [] \<and>
   choose_product_name demo_ratio (initial [Line '' '', Line ''rice''])
     = (Return None, name_read (initial [Line '' '', Line ''rice'']) [Line ''rice'']) \<and>
   inp (initial [Line ''xyz'', Line ''oil'']) = Line ''xyz'' # [Line ''oil''] \<and>
   lower (strip ''xyz'') \<notin> set (map fst (stock (initial [Line ''xyz'', Line ''oil'']))) \<and>
   lower (strip ''xyz'') \<noteq> ''0'' \<and> lower (strip ''xyz'') \<noteq> [] \<and>
   list_all (\<lambda>k. demo_ratio k (lower (strip ''xyz'')) < 0.6)
     (map fst (stock (initial [Line ''xyz'', Line ''oil'']))) \<and>
   choose_product_name demo_ratio (initial [Line ''xyz'', Line ''oil'']) =
     choose_product_name demo_ratio
       (print (''Product not found and no suggestions. ''
               @ ''Use 'Show stock' to see available products.'')
          (name_read (initial [Line ''xyz'', Line ''oil'']) [Line ''oil''])) \<and>
   fst (choose_product_name demo_ratio (initial [Line ''xyz'', Line ''oil''])) = Return (Some ''oil'')"
    by blast
  from second i5 ci i6 ce i7 cn c8 r8 len show ?thesis
    by blast
qed

text \<open>
  C6. Whatever the input, a value that \<^verbatim>\<open>read_positive_int\<close> returns is at least the minimum
  and, when a maximum is given, at most the maximum. A line that is not an integer, an integer
  below the minimum and an integer above the maximum each make it print its own message and
  ask again; the three messages are pairwise different. An integer in range is returned. An
  interrupt at the prompt prints the cancellation notice and is raised to the caller.
\<close>

theorem read_positive_int_validates:
  "\<forall>prompt minimum maximum w.
     (\<forall>v w2. read_positive_int prompt minimum maximum w = (Return v, w2) \<longrightarrow>
        minimum \<le> v \<and> (\<forall>m. maximum = Some m \<longrightarrow> v \<le> m))
     \<and>
     (\<forall>s es. inp w = Line s # es \<longrightarrow>
        (py_int (strip s) = None \<longrightarrow>
           read_positive_int prompt minimum maximum w =
             read_positive_int prompt minimum maximum
               (print ''Invalid input: please enter an integer.'' (prompted prompt w es)))
        \<and>
        (\<forall>v. py_int (strip s) = Some v \<and> v < minimum \<longrightarrow>
           read_positive_int prompt minimum maximum w =
             read_positive_int prompt minimum maximum
               (print (''Attention: please enter an integer >= '' @ str_int minimum @ ''.'')
                  (prompted prompt w es)))
        \<and>
        (\<forall>v m. py_int (strip s) = Some v \<and> minimum \<le> v \<and> maximum = Some m \<and> m < v \<longrightarrow>
           read_positive_int prompt minimum maximum w =
             read_positive_int prompt minimum maximum
               (print (''Attention: the maximum allowed is '' @ str_int m @ ''.'')
                  (prompted prompt w es)))
        \<and>
        (\<forall>v. py_int (strip s) = Some v \<and> minimum \<le> v \<and> (\<forall>m. maximum = Some m \<longrightarrow> v \<le> m) \<longrightarrow>
           read_positive_int prompt minimum maximum w = (Return v, prompted prompt w es)))
     \<and>
     (\<forall>es. inp w = Interrupt # es \<longrightarrow>
        read_positive_int prompt minimum maximum w =
          (Raise KeyboardInterrupt,
           print (CHR 0x0A # ''Operation cancelled by user.'') (prompted prompt w es)))
     \<and>
     (\<forall>m. ''Invalid input: please enter an integer.''
            \<noteq> ''Attention: please enter an integer >= '' @ str_int minimum @ ''.'' \<and>
          ''Invalid input: please enter an integer.''
            \<noteq> ''Attention: the maximum allowed is '' @ str_int m @ ''.'' \<and>
          ''Attention: please enter an integer >= '' @ str_int minimum @ ''.''
            \<noteq> ''Attention: the maximum allowed is '' @ str_int m @ ''.'')"
proof (intro allI conjI impI; (elim conjE)?)
  fix prompt minimum maximum and w :: world
  note unfold = read_positive_int.simps [of prompt minimum maximum w]
  {
    fix v w2
    assume "read_positive_int prompt minimum maximum w = (Return v, w2)"
    from read_positive_int_range [OF this]
    show "minimum \<le> v" and "\<And>m. maximum = Some m \<Longrightarrow> v \<le> m"
      by simp_all
  }
  {
    fix s es
    assume i: "inp w = Line s # es"
    {
      assume "py_int (strip s) = None"
      then show "read_positive_int prompt minimum maximum w =
             read_positive_int prompt minimum maximum
               (print ''Invalid input: please enter an integer.'' (prompted prompt w es))"
        by (subst unfold) (simp add: safe_input_Line [OF i])
    }
    {
      fix v
      assume "py_int (strip s) = Some v" "v < minimum"
      then show "read_positive_int prompt minimum maximum w =
             read_positive_int prompt minimum maximum
               (print (''Attention: please enter an integer >= '' @ str_int minimum @ ''.'')
                  (prompted prompt w es))"
        by (subst unfold) (simp add: safe_input_Line [OF i])
    }
    {
      fix v m
      assume "py_int (strip s) = Some v" "minimum \<le> v" "maximum = Some m" "m < v"
      then show "read_positive_int prompt minimum maximum w =
             read_positive_int prompt minimum maximum
               (print (''Attention: the maximum allowed is '' @ str_int m @ ''.'')
                  (prompted prompt w es))"
        by (subst unfold) (simp add: safe_input_Line [OF i])
    }
    {
      fix v
      assume "py_int (strip s) = Some v" "minimum \<le> v" "\<forall>m. maximum = Some m \<longrightarrow> v \<le> m"
      then show "read_positive_int prompt minimum maximum w = (Return v, prompted prompt w es)"
        by (subst unfold) (cases maximum; simp add: safe_input_Line [OF i])
    }
  }
  {
    fix es
    assume i: "inp w = Interrupt # es"
    show "read_positive_int prompt minimum maximum w =
          (Raise KeyboardInterrupt,
           print (CHR 0x0A # ''Operation cancelled by user.'') (prompted prompt w es))"
      by (subst unfold) (simp add: safe_input_Interrupt [OF i])
  }
  {
    fix m
    show "''Invalid input: please enter an integer.''
            \<noteq> ''Attention: please enter an integer >= '' @ str_int minimum @ ''.''"
      and "''Invalid input: please enter an integer.''
            \<noteq> ''Attention: the maximum allowed is '' @ str_int m @ ''.''"
      and "''Attention: please enter an integer >= '' @ str_int minimum @ ''.''
            \<noteq> ''Attention: the maximum allowed is '' @ str_int m @ ''.''"
      by simp_all
  }
qed

theorem read_positive_int_validates_witness:
  "read_positive_int ''n: '' 1 (Some 5) (asked [Line ''abc'', Line ''0'', Line ''9'', Line '' 4 '', Line ''2''])
     = (Return 4,
        \<lparr>stock = [], cart = [], inp = [Line ''2''],
         out = [Prompt ''n: '', Print ''Invalid input: please enter an integer.'',
                Prompt ''n: '', Print ''Attention: please enter an integer >= 1.'',
                Prompt ''n: '', Print ''Attention: the maximum allowed is 5.'',
                Prompt ''n: '']\<rparr>) \<and>
   (1::int) \<le> 4 \<and> (4::int) \<le> 5 \<and>
   inp (asked [Interrupt, Line ''3'']) = Interrupt # [Line ''3''] \<and>
   read_positive_int ''n: '' 1 None (asked [Interrupt, Line ''3''])
     = (Raise KeyboardInterrupt,
        \<lparr>stock = [], cart = [], inp = [Line ''3''],
         out = [Prompt ''n: '', Print (CHR 0x0A # ''Operation cancelled by user.'')]\<rparr>)"
proof -
  have r: "read_positive_int ''n: '' 1 (Some 5)
      (asked [Line ''abc'', Line ''0'', Line ''9'', Line '' 4 '', Line ''2''])
     = (Return 4,
        \<lparr>stock = [], cart = [], inp = [Line ''2''],
         out = [Prompt ''n: '', Print ''Invalid input: please enter an integer.'',
                Prompt ''n: '', Print ''Attention: please enter an integer >= 1.'',
                Prompt ''n: '', Print ''Attention: the maximum allowed is 5.'',
                Prompt ''n: '']\<rparr>)"
    by code_simp
  have i: "inp (asked [Interrupt, Line ''3'']) = Interrupt # [Line ''3'']"
    by (simp add: asked_def)
  from read_positive_int_validates [rule_format, THEN conjunct1, rule_format, OF r]
       read_positive_int_validates [rule_format, THEN conjunct2, THEN conjunct2, THEN conjunct1,
         rule_format, OF i, of "''n: ''" 1 None]
       r i
  show ?thesis
    by (simp add: asked_def prompted_def print_def)
qed

subsection \<open>The menu loop\<close>

text \<open>
  C7. One pass of the menu loop ends in \<open>Running\<close>, in \<open>Exiting\<close>, or blocked in an input
  call; it never raises. The options "1" to "4" run their handler and go back to \<open>Running\<close>
  (or are blocked inside the handler); "0" prints the exit line and gives \<open>Exiting\<close>; any other
  line prints the error and stays \<open>Running\<close>. An interrupt at the menu prompt prints the hint and
  stays \<open>Running\<close>; Ctrl+D at the menu prompt is reported as an unexpected error and stays
  \<open>Running\<close>; with no event left the pass is blocked at the prompt. A handler that raises is
  caught: the error is printed with the notice that the system continues, and the state is
  \<open>Running\<close>. A pass gives \<open>Exiting\<close> exactly when the event it read at the menu prompt is a
  line that is "0" once stripped, and a pass is blocked only when every event is used up.
  The loop goes on after \<open>Running\<close> and returns after \<open>Exiting\<close>. So \<^verbatim>\<open>menu\<close> and \<^verbatim>\<open>main\<close>
  never raise; \<^verbatim>\<open>menu\<close> is still waiting with all events read, or it has returned, and then
  the last event it read was the line "0", read at the menu prompt of a loop head of this
  run; and reading "0" at any loop head of the run makes \<^verbatim>\<open>menu\<close> return there.
\<close>

theorem menu_state_machine:
  "\<forall>ratio w.
     (fst (menu_iteration ratio w) = Return Running \<or>
      fst (menu_iteration ratio w) = Return Exiting \<or>
      fst (menu_iteration ratio w) = Blocked)
     \<and>
     (\<forall>s es. inp w = Line s # es \<longrightarrow>
        (strip s = ''1'' \<longrightarrow>
           menu_iteration ratio w = after_handler (show_stock (option_read w es))) \<and>
        (strip s = ''2'' \<longrightarrow>
           menu_iteration ratio w = after_handler (add_product ratio (option_read w es))) \<and>
        (strip s = ''3'' \<longrightarrow>
           menu_iteration ratio w = after_handler (show_total (option_read w es))) \<and>
        (strip s = ''4'' \<longrightarrow>
           menu_iteration ratio w = after_handler (show_stock (option_read w es))) \<and>
        (strip s = ''0'' \<longrightarrow>
           menu_iteration ratio w =
             (Return Exiting, print ''Exiting system...'' (option_read w es))) \<and>
        (strip s \<notin> {''0'', ''1'', ''2'', ''3'', ''4''} \<longrightarrow>
           menu_iteration ratio w =
             (Return Running, print ''Invalid option! Try again.'' (option_read w es))))
     \<and>
     (\<forall>u e v.
        after_handler (Return u, v) = (Return Running, v) \<and>
        after_handler (Blocked, v) = (Blocked, v) \<and>
        after_handler (Raise e, v) = (Return Running, menu_except e v) \<and>
        (e \<noteq> KeyboardInterrupt \<longrightarrow>
           menu_except e v =
             print ''The system will continue running.''
               (print (''Unexpected error: '' @ exn_name e @ '': '' @ exn_str e) v)))
     \<and>
     (\<forall>es. inp w = Interrupt # es \<longrightarrow>
        menu_iteration ratio w =
          (Return Running,
           print (CHR 0x0A # ''Interruption detected. To exit, choose option 0.'')
             (option_read w es)))
     \<and>
     (\<forall>es. inp w = Eof # es \<longrightarrow>
        menu_iteration ratio w =
          (Return Running,
           print ''The system will continue running.''
             (print ''Unexpected error: EOFError: EOF when reading a line'' (option_read w es))))
     \<and>
     (inp w = [] \<longrightarrow>
        menu_iteration ratio w =
          (Blocked, (menu_shown w)\<lparr>out := out (menu_shown w) @ [Prompt ''Choose an option: '']\<rparr>))
     \<and>
     (\<forall>w1. (menu_iteration ratio w = (Return Exiting, w1)) =
        (\<exists>s es. inp w = Line s # es \<and> strip s = ''0'' \<and>
           w1 = print ''Exiting system...'' (option_read w es)))
     \<and>
     (\<forall>w1. menu_iteration ratio w = (Blocked, w1) \<longrightarrow> inp w1 = [])
     \<and>
     (\<forall>w1. menu_iteration ratio w = (Return Running, w1) \<longrightarrow> menu ratio w = menu ratio w1)
     \<and>
     (\<forall>w1. menu_iteration ratio w = (Return Exiting, w1) \<longrightarrow> menu ratio w = (Return (), w1))
     \<and>
     (fst (menu ratio w) = Blocked \<and> inp (snd (menu ratio w)) = [] \<or>
      fst (menu ratio w) = Return () \<and>
      (\<exists>v s. loop_head ratio w v \<and> suffix (inp v) (inp w) \<and>
         inp v = Line s # inp (snd (menu ratio w)) \<and> strip s = ''0'' \<and>
         menu_iteration ratio v = (Return Exiting, snd (menu ratio w)) \<and>
         snd (menu ratio w) =
           print ''Exiting system...'' (option_read v (inp (snd (menu ratio w))))))
     \<and>
     (\<forall>v s es. loop_head ratio w v \<and> inp v = Line s # es \<and> strip s = ''0'' \<longrightarrow>
        menu ratio w = (Return (), print ''Exiting system...'' (option_read v es)))
     \<and>
     (fst (main ratio w) = fst (menu ratio w))"
proof (intro allI)
  fix ratio and w :: world
  have a: "fst (menu_iteration ratio w) = Return Running \<or>
      fst (menu_iteration ratio w) = Return Exiting \<or>
      fst (menu_iteration ratio w) = Blocked"
    by (rule menu_iteration_fst)
  have b: "\<forall>s es. inp w = Line s # es \<longrightarrow>
        (strip s = ''1'' \<longrightarrow>
           menu_iteration ratio w = after_handler (show_stock (option_read w es))) \<and>
        (strip s = ''2'' \<longrightarrow>
           menu_iteration ratio w = after_handler (add_product ratio (option_read w es))) \<and>
        (strip s = ''3'' \<longrightarrow>
           menu_iteration ratio w = after_handler (show_total (option_read w es))) \<and>
        (strip s = ''4'' \<longrightarrow>
           menu_iteration ratio w = after_handler (show_stock (option_read w es))) \<and>
        (strip s = ''0'' \<longrightarrow>
           menu_iteration ratio w =
             (Return Exiting, print ''Exiting system...'' (option_read w es))) \<and>
        (strip s \<notin> {''0'', ''1'', ''2'', ''3'', ''4''} \<longrightarrow>
           menu_iteration ratio w =
             (Return Running, print ''Invalid option! Try again.'' (option_read w es)))"
  proof (intro allI impI)
    fix s es
    assume i: "inp w = Line s # es"
    show "(strip s = ''1'' \<longrightarrow>
           menu_iteration ratio w = after_handler (show_stock (option_read w es))) \<and>
        (strip s = ''2'' \<longrightarrow>
           menu_iteration ratio w = after_handler (add_product ratio (option_read w es))) \<and>
        (strip s = ''3'' \<longrightarrow>
           menu_iteration ratio w = after_handler (show_total (option_read w es))) \<and>
        (strip s = ''4'' \<longrightarrow>
           menu_iteration ratio w = after_handler (show_stock (option_read w es))) \<and>
        (strip s = ''0'' \<longrightarrow>
           menu_iteration ratio w =
             (Return Exiting, print ''Exiting system...'' (option_read w es))) \<and>
        (strip s \<notin> {''0'', ''1'', ''2'', ''3'', ''4''} \<longrightarrow>
           menu_iteration ratio w =
             (Return Running, print ''Invalid option! Try again.'' (option_read w es)))"
      unfolding menu_iteration_Line [OF i] by simp
  qed
  have c: "\<forall>u e v.
        after_handler (Return u, v) = (Return Running, v) \<and>
        after_handler (Blocked, v) = (Blocked, v) \<and>
        after_handler (Raise e, v) = (Return Running, menu_except e v) \<and>
        (e \<noteq> KeyboardInterrupt \<longrightarrow>
           menu_except e v =
             print ''The system will continue running.''
               (print (''Unexpected error: '' @ exn_name e @ '': '' @ exn_str e) v))"
    by (simp add: after_handler_simps menu_except_def)
  have d: "\<forall>es. inp w = Interrupt # es \<longrightarrow>
        menu_iteration ratio w =
          (Return Running,
           print (CHR 0x0A # ''Interruption detected. To exit, choose option 0.'')
             (option_read w es))"
    by (simp add: menu_iteration_Raise menu_except_def)
  have i: "\<forall>es. inp w = Eof # es \<longrightarrow>
        menu_iteration ratio w =
          (Return Running,
           print ''The system will continue running.''
             (print ''Unexpected error: EOFError: EOF when reading a line'' (option_read w es)))"
    by (simp add: menu_iteration_Raise menu_except_def exn_name_def exn_str_def)
  have j: "inp w = [] \<longrightarrow>
        menu_iteration ratio w =
          (Blocked, (menu_shown w)\<lparr>out := out (menu_shown w) @ [Prompt ''Choose an option: '']\<rparr>)"
    by (simp add: menu_iteration_Nil)
  have k: "\<forall>w1. (menu_iteration ratio w = (Return Exiting, w1)) =
        (\<exists>s es. inp w = Line s # es \<and> strip s = ''0'' \<and>
           w1 = print ''Exiting system...'' (option_read w es))"
  proof (intro allI iffI)
    fix w1
    assume "menu_iteration ratio w = (Return Exiting, w1)"
    then show "\<exists>s es. inp w = Line s # es \<and> strip s = ''0'' \<and>
           w1 = print ''Exiting system...'' (option_read w es)"
      by (rule menu_iteration_Exiting)
  next
    fix w1
    assume "\<exists>s es. inp w = Line s # es \<and> strip s = ''0'' \<and>
           w1 = print ''Exiting system...'' (option_read w es)"
    then show "menu_iteration ratio w = (Return Exiting, w1)"
      by (auto simp: menu_iteration_Line)
  qed
  have l: "\<forall>w1. menu_iteration ratio w = (Blocked, w1) \<longrightarrow> inp w1 = []"
    by (auto dest: menu_iteration_Blocked)
  have e: "\<forall>w1. menu_iteration ratio w = (Return Running, w1) \<longrightarrow> menu ratio w = menu ratio w1"
    by (simp add: menu.simps [of ratio w])
  have f: "\<forall>w1. menu_iteration ratio w = (Return Exiting, w1) \<longrightarrow> menu ratio w = (Return (), w1)"
    by (simp add: menu.simps [of ratio w])
  have g: "fst (menu ratio w) = Blocked \<and> inp (snd (menu ratio w)) = [] \<or>
      fst (menu ratio w) = Return () \<and>
      (\<exists>v s. loop_head ratio w v \<and> suffix (inp v) (inp w) \<and>
         inp v = Line s # inp (snd (menu ratio w)) \<and> strip s = ''0'' \<and>
         menu_iteration ratio v = (Return Exiting, snd (menu ratio w)) \<and>
         snd (menu ratio w) =
           print ''Exiting system...'' (option_read v (inp (snd (menu ratio w)))))"
  proof (cases "fst (menu ratio w) = Blocked")
    case True
    with menu_Blocked [of ratio w] show ?thesis by simp
  next
    case False
    with menu_result [of ratio w] have r: "fst (menu ratio w) = Return ()" by blast
    from menu_last [OF r] obtain v where
      v: "loop_head ratio w v" "menu_iteration ratio v = (Return Exiting, snd (menu ratio w))"
      by blast
    from menu_iteration_Exiting [OF v(2)] obtain s es where
      s: "inp v = Line s # es" "strip s = ''0''"
        "snd (menu ratio w) = print ''Exiting system...'' (option_read v es)"
      by blast
    from s(3) have es: "inp (snd (menu ratio w)) = es" by simp
    from r v s es loop_head_suffix [OF v(1)] show ?thesis by auto
  qed
  have m: "\<forall>v s es. loop_head ratio w v \<and> inp v = Line s # es \<and> strip s = ''0'' \<longrightarrow>
        menu ratio w = (Return (), print ''Exiting system...'' (option_read v es))"
  proof (intro allI impI, elim conjE)
    fix v s es
    assume h: "loop_head ratio w v" "inp v = Line s # es" "strip s = ''0''"
    from h(2,3) have "menu_iteration ratio v =
        (Return Exiting, print ''Exiting system...'' (option_read v es))"
      by (simp add: menu_iteration_Line)
    then have "menu ratio v = (Return (), print ''Exiting system...'' (option_read v es))"
      by (simp add: menu.simps [of ratio v])
    with loop_head_menu [OF h(1)]
    show "menu ratio w = (Return (), print ''Exiting system...'' (option_read v es))"
      by simp
  qed
  note h = main_fst [of ratio w]
  from a b c d i j k l e f g m h
  show "(fst (menu_iteration ratio w) = Return Running \<or>
      fst (menu_iteration ratio w) = Return Exiting \<or>
      fst (menu_iteration ratio w) = Blocked)
     \<and>
     (\<forall>s es. inp w = Line s # es \<longrightarrow>
        (strip s = ''1'' \<longrightarrow>
           menu_iteration ratio w = after_handler (show_stock (option_read w es))) \<and>
        (strip s = ''2'' \<longrightarrow>
           menu_iteration ratio w = after_handler (add_product ratio (option_read w es))) \<and>
        (strip s = ''3'' \<longrightarrow>
           menu_iteration ratio w = after_handler (show_total (option_read w es))) \<and>
        (strip s = ''4'' \<longrightarrow>
           menu_iteration ratio w = after_handler (show_stock (option_read w es))) \<and>
        (strip s = ''0'' \<longrightarrow>
           menu_iteration ratio w =
             (Return Exiting, print ''Exiting system...'' (option_read w es))) \<and>
        (strip s \<notin> {''0'', ''1'', ''2'', ''3'', ''4''} \<longrightarrow>
           menu_iteration ratio w =
             (Return Running, print ''Invalid option! Try again.'' (option_read w es))))
     \<and>
     (\<forall>u e v.
        after_handler (Return u, v) = (Return Running, v) \<and>
        after_handler (Blocked, v) = (Blocked, v) \<and>
        after_handler (Raise e, v) = (Return Running, menu_except e v) \<and>
        (e \<noteq> KeyboardInterrupt \<longrightarrow>
           menu_except e v =
             print ''The system will continue running.''
               (print (''Unexpected error: '' @ exn_name e @ '': '' @ exn_str e) v)))
     \<and>
     (\<forall>es. inp w = Interrupt # es \<longrightarrow>
        menu_iteration ratio w =
          (Return Running,
           print (CHR 0x0A # ''Interruption detected. To exit, choose option 0.'')
             (option_read w es)))
     \<and>
     (\<forall>es. inp w = Eof # es \<longrightarrow>
        menu_iteration ratio w =
          (Return Running,
           print ''The system will continue running.''
             (print ''Unexpected error: EOFError: EOF when reading a line'' (option_read w es))))
     \<and>
     (inp w = [] \<longrightarrow>
        menu_iteration ratio w =
          (Blocked, (menu_shown w)\<lparr>out := out (menu_shown w) @ [Prompt ''Choose an option: '']\<rparr>))
     \<and>
     (\<forall>w1. (menu_iteration ratio w = (Return Exiting, w1)) =
        (\<exists>s es. inp w = Line s # es \<and> strip s = ''0'' \<and>
           w1 = print ''Exiting system...'' (option_read w es)))
     \<and>
     (\<forall>w1. menu_iteration ratio w = (Blocked, w1) \<longrightarrow> inp w1 = [])
     \<and>
     (\<forall>w1. menu_iteration ratio w = (Return Running, w1) \<longrightarrow> menu ratio w = menu ratio w1)
     \<and>
     (\<forall>w1. menu_iteration ratio w = (Return Exiting, w1) \<longrightarrow> menu ratio w = (Return (), w1))
     \<and>
     (fst (menu ratio w) = Blocked \<and> inp (snd (menu ratio w)) = [] \<or>
      fst (menu ratio w) = Return () \<and>
      (\<exists>v s. loop_head ratio w v \<and> suffix (inp v) (inp w) \<and>
         inp v = Line s # inp (snd (menu ratio w)) \<and> strip s = ''0'' \<and>
         menu_iteration ratio v = (Return Exiting, snd (menu ratio w)) \<and>
         snd (menu ratio w) =
           print ''Exiting system...'' (option_read v (inp (snd (menu ratio w))))))
     \<and>
     (\<forall>v s es. loop_head ratio w v \<and> inp v = Line s # es \<and> strip s = ''0'' \<longrightarrow>
        menu ratio w = (Return (), print ''Exiting system...'' (option_read v es)))
     \<and>
     (fst (main ratio w) = fst (menu ratio w))"
    by (intro conjI)
qed

theorem menu_state_machine_witness:
  "inp (initial [Line '' 2'', Eof, Line ''9'']) = Line '' 2'' # [Eof, Line ''9''] \<and>
   strip '' 2'' = ''2'' \<and>
   menu_iteration (\<lambda>a b. 0) (initial [Line '' 2'', Eof, Line ''9''])
     = after_handler (add_product (\<lambda>a b. 0) (option_read (initial [Line '' 2'', Eof, Line ''9'']) [Eof, Line ''9''])) \<and>
   add_product (\<lambda>a b. 0) (option_read (initial [Line '' 2'', Eof, Line ''9'']) [Eof, Line ''9''])
     = (Raise EOFError,
        prompted ''Enter the product name (or 0 to cancel): ''
          (option_read (initial [Line '' 2'', Eof, Line ''9'']) [Eof, Line ''9'']) [Line ''9'']) \<and>
   fst (menu_iteration (\<lambda>a b. 0) (initial [Line '' 2'', Eof, Line ''9''])) = Return Running \<and>
   last (out (snd (menu_iteration (\<lambda>a b. 0) (initial [Line '' 2'', Eof, Line ''9''])))) =
     Print ''The system will continue running.'' \<and>
   inp (initial [Line ''0'', Line ''1'']) = Line ''0'' # [Line ''1''] \<and>
   strip ''0'' = ''0'' \<and>
   menu (\<lambda>a b. 0) (initial [Line ''0'', Line ''1''])
     = (Return (), print ''Exiting system...'' (option_read (initial [Line ''0'', Line ''1'']) [Line ''1''])) \<and>
   inp (initial [Eof, Line ''0'', Line ''1'']) = Eof # [Line ''0'', Line ''1''] \<and>
   menu_iteration (\<lambda>a b. 0) (initial [Eof, Line ''0'', Line ''1'']) =
     (Return Running,
      (print ''The system will continue running.''
        (print ''Unexpected error: EOFError: EOF when reading a line''
          (option_read (initial [Eof, Line ''0'', Line ''1'']) [Line ''0'', Line ''1''])))) \<and>
   loop_head (\<lambda>a b. 0) (initial [Eof, Line ''0'', Line ''1''])
     (print ''The system will continue running.''
        (print ''Unexpected error: EOFError: EOF when reading a line''
          (option_read (initial [Eof, Line ''0'', Line ''1'']) [Line ''0'', Line ''1'']))) \<and>
   inp (print ''The system will continue running.''
        (print ''Unexpected error: EOFError: EOF when reading a line''
          (option_read (initial [Eof, Line ''0'', Line ''1'']) [Line ''0'', Line ''1'']))) = Line ''0'' # [Line ''1''] \<and>
   menu (\<lambda>a b. 0) (initial [Eof, Line ''0'', Line ''1'']) =
     (Return (), print ''Exiting system...''
        (option_read (print ''The system will continue running.''
        (print ''Unexpected error: EOFError: EOF when reading a line''
          (option_read (initial [Eof, Line ''0'', Line ''1'']) [Line ''0'', Line ''1'']))) [Line ''1'']))"
proof -
  have i1: "inp (initial [Line '' 2'', Eof, Line ''9'']) = Line '' 2'' # [Eof, Line ''9'']"
    by (simp add: initial_def)
  have s1: "strip '' 2'' = ''2''" by code_simp
  have a1: "add_product (\<lambda>a b. 0) (option_read (initial [Line '' 2'', Eof, Line ''9'']) [Eof, Line ''9''])
     = (Raise EOFError,
        prompted ''Enter the product name (or 0 to cancel): ''
          (option_read (initial [Line '' 2'', Eof, Line ''9'']) [Eof, Line ''9'']) [Line ''9''])"
    by code_simp
  have i2: "inp (initial [Line ''0'', Line ''1'']) = Line ''0'' # [Line ''1'']"
    by (simp add: initial_def)
  have s2: "strip ''0'' = ''0''" by simp
  note m = menu_state_machine [rule_format, of "\<lambda>a b. 0"]
  note it1 = m [THEN conjunct2, THEN conjunct1, rule_format, OF i1,
      THEN conjunct2, THEN conjunct1, rule_format, OF s1]
  note it2 = m [THEN conjunct2, THEN conjunct1, rule_format, OF i2,
      THEN conjunct2, THEN conjunct2, THEN conjunct2, THEN conjunct2, THEN conjunct1,
      rule_format, OF s2]
  note ex = m [THEN conjunct2, THEN conjunct2, THEN conjunct2, THEN conjunct2, THEN conjunct2,
      THEN conjunct2, THEN conjunct2, THEN conjunct2, THEN conjunct2,
      THEN conjunct1, rule_format, OF it2]
  have i3: "inp (initial [Eof, Line ''0'', Line ''1'']) = Eof # [Line ''0'', Line ''1'']"
    by (simp add: initial_def)
  note it3 = m [THEN conjunct2, THEN conjunct2, THEN conjunct2, THEN conjunct2, THEN conjunct1,
      rule_format, OF i3]
  from it3 have lh: "loop_head (\<lambda>a b. 0) (initial [Eof, Line ''0'', Line ''1''])
     (print ''The system will continue running.''
        (print ''Unexpected error: EOFError: EOF when reading a line''
          (option_read (initial [Eof, Line ''0'', Line ''1'']) [Line ''0'', Line ''1''])))"
    by (rule loop_head.again) (rule loop_head.start)
  have i4: "inp (print ''The system will continue running.''
        (print ''Unexpected error: EOFError: EOF when reading a line''
          (option_read (initial [Eof, Line ''0'', Line ''1'']) [Line ''0'', Line ''1'']))) = Line ''0'' # [Line ''1'']"
    by simp
  have h4: "loop_head (\<lambda>a b. 0) (initial [Eof, Line ''0'', Line ''1''])
     (print ''The system will continue running.''
        (print ''Unexpected error: EOFError: EOF when reading a line''
          (option_read (initial [Eof, Line ''0'', Line ''1'']) [Line ''0'', Line ''1'']))) \<and>
     inp (print ''The system will continue running.''
        (print ''Unexpected error: EOFError: EOF when reading a line''
          (option_read (initial [Eof, Line ''0'', Line ''1'']) [Line ''0'', Line ''1'']))) = Line ''0'' # [Line ''1''] \<and> strip ''0'' = ''0''"
    using lh i4 s2 by blast
  note ex3 = m [THEN conjunct2, THEN conjunct2, THEN conjunct2, THEN conjunct2, THEN conjunct2,
      THEN conjunct2, THEN conjunct2, THEN conjunct2, THEN conjunct2, THEN conjunct2,
      THEN conjunct2, THEN conjunct1, rule_format, OF h4]
  from it1 a1 have r1: "menu_iteration (\<lambda>a b. 0) (initial [Line '' 2'', Eof, Line ''9''])
      = (Return Running, menu_except EOFError
          (prompted ''Enter the product name (or 0 to cancel): ''
            (option_read (initial [Line '' 2'', Eof, Line ''9'']) [Eof, Line ''9'']) [Line ''9'']))"
    by (simp add: after_handler_simps)
  from i1 s1 it1 a1 r1 i2 s2 ex have old: "inp (initial [Line '' 2'', Eof, Line ''9'']) = Line '' 2'' # [Eof, Line ''9''] \<and>
   strip '' 2'' = ''2'' \<and>
   menu_iteration (\<lambda>a b. 0) (initial [Line '' 2'', Eof, Line ''9''])
     = after_handler (add_product (\<lambda>a b. 0) (option_read (initial [Line '' 2'', Eof, Line ''9'']) [Eof, Line ''9''])) \<and>
   add_product (\<lambda>a b. 0) (option_read (initial [Line '' 2'', Eof, Line ''9'']) [Eof, Line ''9''])
     = (Raise EOFError,
        prompted ''Enter the product name (or 0 to cancel): ''
          (option_read (initial [Line '' 2'', Eof, Line ''9'']) [Eof, Line ''9'']) [Line ''9'']) \<and>
   fst (menu_iteration (\<lambda>a b. 0) (initial [Line '' 2'', Eof, Line ''9''])) = Return Running \<and>
   last (out (snd (menu_iteration (\<lambda>a b. 0) (initial [Line '' 2'', Eof, Line ''9''])))) =
     Print ''The system will continue running.'' \<and>
   inp (initial [Line ''0'', Line ''1'']) = Line ''0'' # [Line ''1''] \<and>
   strip ''0'' = ''0'' \<and>
   menu (\<lambda>a b. 0) (initial [Line ''0'', Line ''1''])
     = (Return (), print ''Exiting system...'' (option_read (initial [Line ''0'', Line ''1'']) [Line ''1'']))"
    by (simp add: menu_except_def after_handler_simps)
  from old i3 it3 lh i4 ex3 show ?thesis
    by blast
qed

subsection \<open>Cancelling\<close>

text \<open>
  C8. If \<^verbatim>\<open>add_product\<close> read an interrupt anywhere among the events it consumed, or the
  resolver returned no product (blank input, "0", or an interrupt inside it), then
  \<^verbatim>\<open>add_product\<close> returns normally and the catalog and the cart are exactly what they were
  before the call.
\<close>

theorem add_product_cancel_no_mutation:
  "\<forall>ratio w.
     Interrupt \<in> set (consumed w (snd (add_product ratio w))) \<or>
     fst (choose_product_name ratio w) = Return None \<longrightarrow>
     fst (add_product ratio w) = Return () \<and>
     stock (snd (add_product ratio w)) = stock w \<and>
     cart (snd (add_product ratio w)) = cart w"
proof (intro allI impI)
  fix ratio and w :: world
  let ?w' = "snd (add_product ratio w)"
  assume cancel: "Interrupt \<in> set (consumed w ?w') \<or>
     fst (choose_product_name ratio w) = Return None"
  show "fst (add_product ratio w) = Return () \<and> stock ?w' = stock w \<and> cart ?w' = cart w"
  proof (cases rule: add_product_cases [of ratio w])
    case (early r1 w1)
    from choose_product_name_reads [OF early(1)] obtain c where
      c: "inp w = c @ inp w1" "Interrupt \<in> set c \<longrightarrow> r1 = Return None"
      by auto
    from c(1) early(4) have "consumed w ?w' = c"
      by (simp add: consumed_eq)
    with cancel c(2) early(1) have "r1 = Return None" by auto
    with early show ?thesis by simp
  next
    case (asked product data r2 w1 w2)
    from choose_product_name_reads [OF asked(1)] obtain c1 where
      c1: "inp w = c1 @ inp w1" "Interrupt \<notin> set c1"
      by auto
    from read_positive_int_reads [OF asked(5)] obtain c2 where
      c2: "inp w1 = c2 @ inp w2" "(Interrupt \<in> set c2) = (r2 = Raise KeyboardInterrupt)"
      by auto
    from c1(1) c2(1) asked(8) have "consumed w ?w' = c1 @ c2"
      by (simp add: consumed_eq)
    with cancel asked(1) c1(2) c2(2) have "r2 = Raise KeyboardInterrupt" by auto
    with asked show ?thesis by simp
  next
    case (commit product data q w1 w2)
    from choose_product_name_reads [OF commit(1)] obtain c1 where
      c1: "inp w = c1 @ inp w1" "Interrupt \<notin> set c1"
      by auto
    from read_positive_int_reads [OF commit(5)] obtain c2 where
      c2: "inp w1 = c2 @ inp w2" "Interrupt \<notin> set c2"
      by auto
    from add_product_commit [OF commit] have "inp ?w' = inp w2" by simp
    with c1(1) c2(1) have "consumed w ?w' = c1 @ c2"
      by (simp add: consumed_eq)
    with cancel commit(1) c1(2) c2(2) show ?thesis by auto
  qed
qed

theorem add_product_cancel_no_mutation_witness:
  "Interrupt \<in> set (consumed (initial [Line ''rice'', Line ''x'', Interrupt, Line ''3''])
      (snd (add_product (\<lambda>a b. 0) (initial [Line ''rice'', Line ''x'', Interrupt, Line ''3''])))) \<and>
   fst (add_product (\<lambda>a b. 0) (initial [Line ''rice'', Line ''x'', Interrupt, Line ''3''])) = Return () \<and>
   stock (snd (add_product (\<lambda>a b. 0) (initial [Line ''rice'', Line ''x'', Interrupt, Line ''3''])))
     = initial_stock \<and>
   cart (snd (add_product (\<lambda>a b. 0) (initial [Line ''rice'', Line ''x'', Interrupt, Line ''3'']))) = [] \<and>
   inp (snd (add_product (\<lambda>a b. 0) (initial [Line ''rice'', Line ''x'', Interrupt, Line ''3''])))
     = [Line ''3''] \<and>
   fst (choose_product_name (\<lambda>a b. 0) (initial [Line '' 0 '', Line ''rice''])) = Return None \<and>
   stock (snd (add_product (\<lambda>a b. 0) (initial [Line '' 0 '', Line ''rice'']))) = initial_stock \<and>
   cart (snd (add_product (\<lambda>a b. 0) (initial [Line '' 0 '', Line ''rice'']))) = []"
proof -
  have h1: "Interrupt \<in> set (consumed (initial [Line ''rice'', Line ''x'', Interrupt, Line ''3''])
      (snd (add_product (\<lambda>a b. 0) (initial [Line ''rice'', Line ''x'', Interrupt, Line ''3'']))))"
    by code_simp
  have i1: "inp (snd (add_product (\<lambda>a b. 0) (initial [Line ''rice'', Line ''x'', Interrupt, Line ''3''])))
     = [Line ''3'']"
    by code_simp
  have h2: "fst (choose_product_name (\<lambda>a b. 0) (initial [Line '' 0 '', Line ''rice''])) = Return None"
    by code_simp
  from add_product_cancel_no_mutation [rule_format, OF disjI1, OF h1]
       add_product_cancel_no_mutation [rule_format, OF disjI2, OF h2] h1 h2 i1
  show ?thesis by (simp add: initial_def)
qed

subsection \<open>Handlers that only print\<close>

text \<open>
  C9. \<^verbatim>\<open>show_total\<close> and \<^verbatim>\<open>show_stock\<close> leave the catalog, the cart and the pending input
  as they are. The cart is not cleared: after any number of checkouts it is the same cart,
  and each further checkout prints again exactly what the first one printed.
\<close>

theorem show_total_show_stock_frame:
  "\<forall>w.
     stock (snd (show_total w)) = stock w \<and> cart (snd (show_total w)) = cart w \<and>
     inp (snd (show_total w)) = inp w \<and>
     stock (snd (show_stock w)) = stock w \<and> cart (snd (show_stock w)) = cart w \<and>
     inp (snd (show_stock w)) = inp w \<and>
     (\<forall>n. cart ((checkout ^^ n) w) = cart w \<and>
          stock ((checkout ^^ n) w) = stock w \<and>
          fst (show_total ((checkout ^^ n) w)) = fst (show_total w) \<and>
          out (checkout ((checkout ^^ n) w)) = out ((checkout ^^ n) w) @ total_printed w)"
proof (intro allI conjI)
  fix w :: world
  obtain r v where st: "show_total w = (r, v)" by (cases "show_total w")
  obtain r' v' where ss: "show_stock w = (r', v')" by (cases "show_stock w")
  from show_total_frame [OF st] st
  show "stock (snd (show_total w)) = stock w" "cart (snd (show_total w)) = cart w"
    "inp (snd (show_total w)) = inp w"
    by simp_all
  from show_stock_frame [OF ss] ss
  show "stock (snd (show_stock w)) = stock w" "cart (snd (show_stock w)) = cart w"
    "inp (snd (show_stock w)) = inp w"
    by simp_all
  fix n
  from checkout_iter [of n w]
  show "cart ((checkout ^^ n) w) = cart w" "stock ((checkout ^^ n) w) = stock w"
    by simp_all
  have c: "cart ((checkout ^^ n) w) = cart w"
    using checkout_iter [of n w] by simp
  show "fst (show_total ((checkout ^^ n) w)) = fst (show_total w)"
    using c by (cases "cart w = []") (simp_all add: show_total_empty show_total_lines)
  show "out (checkout ((checkout ^^ n) w)) = out ((checkout ^^ n) w) @ total_printed w"
    unfolding checkout_def [of "(checkout ^^ n) w"]
    by (simp add: show_total_out total_printed_cong [OF c])
qed

text \<open>
  C10. In every state, the menu options "4" and "1" give the same outcome and the same state:
  both run \<^verbatim>\<open>show_stock\<close> on the state reached once the option is read, and catalog and
  cart are unchanged.
\<close>

theorem menu_option_4_is_option_1:
  "\<forall>ratio w es.
     menu_iteration ratio (w\<lparr>inp := Line ''4'' # es\<rparr>)
       = menu_iteration ratio (w\<lparr>inp := Line ''1'' # es\<rparr>) \<and>
     menu_iteration ratio (w\<lparr>inp := Line ''4'' # es\<rparr>)
       = after_handler (show_stock (option_read w es)) \<and>
     menu_iteration ratio (w\<lparr>inp := Line ''1'' # es\<rparr>)
       = after_handler (show_stock (option_read w es)) \<and>
     stock (snd (menu_iteration ratio (w\<lparr>inp := Line ''4'' # es\<rparr>))) = stock w \<and>
     cart (snd (menu_iteration ratio (w\<lparr>inp := Line ''4'' # es\<rparr>))) = cart w"
proof (intro allI)
  fix ratio and w :: world and es
  have e4: "menu_iteration ratio (w\<lparr>inp := Line ''4'' # es\<rparr>)
      = after_handler (show_stock (option_read w es))"
    by (simp add: menu_iteration_line)
  have e1: "menu_iteration ratio (w\<lparr>inp := Line ''1'' # es\<rparr>)
      = after_handler (show_stock (option_read w es))"
    by (simp add: menu_iteration_line)
  obtain r v where ss: "show_stock (option_read w es) = (r, v)"
    by (cases "show_stock (option_read w es)")
  have o: "stock (option_read w es) = stock w" "cart (option_read w es) = cart w"
    by (simp_all add: option_read_def menu_shown_def)
  from show_stock_frame [OF ss] o
  have "stock (snd (after_handler (show_stock (option_read w es)))) = stock w \<and>
        cart (snd (after_handler (show_stock (option_read w es)))) = cart w"
    by (cases r) (simp_all add: ss after_handler_def menu_except_def)
  with e4 e1 show "menu_iteration ratio (w\<lparr>inp := Line ''4'' # es\<rparr>)
       = menu_iteration ratio (w\<lparr>inp := Line ''1'' # es\<rparr>) \<and>
     menu_iteration ratio (w\<lparr>inp := Line ''4'' # es\<rparr>)
       = after_handler (show_stock (option_read w es)) \<and>
     menu_iteration ratio (w\<lparr>inp := Line ''1'' # es\<rparr>)
       = after_handler (show_stock (option_read w es)) \<and>
     stock (snd (menu_iteration ratio (w\<lparr>inp := Line ''4'' # es\<rparr>))) = stock w \<and>
     cart (snd (menu_iteration ratio (w\<lparr>inp := Line ''4'' # es\<rparr>))) = cart w"
    by simp
qed

end
